(* ===== verification/Prelude.thy ===== *)
theory Prelude
  imports Main "HOL-Library.Word" "HOL-Library.While_Combinator"
begin

unbundle bit_operations_syntax

text \<open>
  What every component shares: the names of the C++ integer types, the outcome of a
  member function that mutates \<open>this\<close>, may throw and may fail to return, the loops over
  such functions, and the ordered unique indices in which the receiver keeps its tables.
\<close>

section \<open>Types\<close>

type_synonym u8 = "8 word"
type_synonym u32 = "32 word"
type_synonym u64 = "64 word"
type_synonym checksum256 = "256 word"
type_synonym bytes = "u8 list"

text \<open>
  The exceptions the sources raise: \<open>std::runtime_error\<close> with its text, the
  \<open>logic_error\<close>s of chainbase, and the two that \<open>std::stoul\<close> and
  \<open>std::vector::at\<close> raise.
\<close>

datatype error =
    Runtime_error string
  | Logic_error string
  | Invalid_argument string
  | Out_of_range string

fun what :: "error \<Rightarrow> string" where
  "what (Runtime_error m) = m"
| "what (Logic_error m) = m"
| "what (Invalid_argument m) = m"
| "what (Out_of_range m) = m"

section \<open>Numbers as text\<close>

text \<open>\<open>std::to_string\<close> of an unsigned number.\<close>

definition digit :: "nat \<Rightarrow> char" where
  "digit d = char_of (48 + d)"

fun decimal :: "nat \<Rightarrow> string" where
  "decimal n = (if n < 10 then [digit n] else decimal (n div 10) @ [digit (n mod 10)])"

declare decimal.simps [simp del]

definition decimal_int :: "int \<Rightarrow> string" where
  "decimal_int i = (if i < 0 then CHR ''-'' # decimal (nat (- i)) else decimal (nat i))"

section \<open>Functions that mutate, throw or diverge\<close>

text \<open>
  A member function is a function of the object's state. It returns a value and the
  mutated state, or throws with the state as it was mutated up to the throw (C++ does not
  roll members back), does not return, or runs into undefined behaviour.
\<close>

datatype ('a, 's) outcome =
    Return 'a 's
  | Throw error 's
  | Diverge
  | Undefined

type_synonym ('s, 'a) op = "'s \<Rightarrow> ('a, 's) outcome"

definition ret :: "'a \<Rightarrow> ('s, 'a) op" where
  "ret a = (\<lambda>s. Return a s)"

definition throw :: "error \<Rightarrow> ('s, 'a) op" where
  "throw e = (\<lambda>s. Throw e s)"

definition andThen :: "('s, 'a) op \<Rightarrow> ('a \<Rightarrow> ('s, 'b) op) \<Rightarrow> ('s, 'b) op" where
  "andThen m f = (\<lambda>s. case m s of
      Return a t \<Rightarrow> f a t
    | Throw e t \<Rightarrow> Throw e t
    | Diverge \<Rightarrow> Diverge
    | Undefined \<Rightarrow> Undefined)"

definition reads :: "('s \<Rightarrow> 'a) \<Rightarrow> ('s, 'a) op" where
  "reads f = (\<lambda>s. Return (f s) s)"

definition updates :: "('s \<Rightarrow> 's) \<Rightarrow> ('s, unit) op" where
  "updates f = (\<lambda>s. Return () (f s))"

definition whenM :: "bool \<Rightarrow> ('s, unit) op \<Rightarrow> ('s, unit) op" where
  "whenM b m = (if b then m else ret ())"

definition inspect :: "('s \<Rightarrow> ('s, 'a) op) \<Rightarrow> ('s, 'a) op" where
  "inspect f = (\<lambda>s. f s s)"

text \<open>A block of statements, and a range-based loop.\<close>

fun stmts :: "('s, unit) op list \<Rightarrow> ('s, unit) op" where
  "stmts [] = ret ()"
| "stmts (m # ms) = andThen m (\<lambda>_. stmts ms)"

fun forM :: "'x list \<Rightarrow> ('x \<Rightarrow> ('s, unit) op) \<Rightarrow> ('s, unit) op" where
  "forM [] f = ret ()"
| "forM (x # xs) f = andThen (f x) (\<lambda>_. forM xs f)"

text \<open>A range-based loop over references: it leaves the elements as the rounds made them.\<close>

fun mapM :: "'x list \<Rightarrow> ('x \<Rightarrow> ('s, 'y) op) \<Rightarrow> ('s, 'y list) op" where
  "mapM [] f = ret []"
| "mapM (x # xs) f = andThen (f x) (\<lambda>y. andThen (mapM xs f) (\<lambda>ys. ret (y # ys)))"

text \<open>A value that a decoder outside the sources produced, or the exception it threw.\<close>

definition liftE :: "error + 'a \<Rightarrow> ('s, 'a) op" where
  "liftE r = (case r of Inl e \<Rightarrow> throw e | Inr a \<Rightarrow> ret a)"

text \<open>\<open>assert(b)\<close>: a failed one ends the process, or is undefined where it is compiled out.\<close>

definition assertM :: "bool \<Rightarrow> ('s, unit) op" where
  "assertM b = (\<lambda>s. if b then Return () s else Undefined)"

text \<open>\<open>try { m } catch (const exception& e) { h(e) }\<close>.\<close>

definition catching :: "('s, 'a) op \<Rightarrow> (error \<Rightarrow> ('s, 'a) op) \<Rightarrow> ('s, 'a) op" where
  "catching m h = (\<lambda>s. case m s of
      Return a t \<Rightarrow> Return a t
    | Throw e t \<Rightarrow> h e t
    | Diverge \<Rightarrow> Diverge
    | Undefined \<Rightarrow> Undefined)"

text \<open>A member function of one of two objects.\<close>

definition onFst :: "('s, 'a) op \<Rightarrow> ('s \<times> 'x, 'a) op" where
  "onFst m = (\<lambda>(s, x). case m s of
      Return a t \<Rightarrow> Return a (t, x)
    | Throw e t \<Rightarrow> Throw e (t, x)
    | Diverge \<Rightarrow> Diverge
    | Undefined \<Rightarrow> Undefined)"

definition onSnd :: "('s, 'a) op \<Rightarrow> ('x \<times> 's, 'a) op" where
  "onSnd m = (\<lambda>(x, s). case m s of
      Return a t \<Rightarrow> Return a (x, t)
    | Throw e t \<Rightarrow> Throw e (x, t)
    | Diverge \<Rightarrow> Diverge
    | Undefined \<Rightarrow> Undefined)"

lemmas op_defs = ret_def throw_def andThen_def reads_def updates_def whenM_def liftE_def
  catching_def inspect_def assertM_def

lemma andThen_ret [simp]: "andThen (ret a) f = f a"
  by (simp add: op_defs)

lemma andThen_assoc: "andThen (andThen m f) g = andThen m (\<lambda>a. andThen (f a) g)"
  by (rule ext) (simp add: andThen_def split: outcome.splits)

lemma andThen_ret_right [simp]: "andThen m ret = m"
  by (rule ext) (simp add: andThen_def ret_def split: outcome.splits)

lemma forM_append: "forM (xs @ ys) f = andThen (forM xs f) (\<lambda>_. forM ys f)"
  by (induction xs) (simp_all add: andThen_assoc)

subsection \<open>What a function keeps\<close>

text \<open>
  \<open>within R m\<close>: whether it returns or throws, \<open>m\<close> takes every state to a related one. With
  \<open>R\<close> reflexive and transitive this is closed under sequencing; an invariant \<open>P\<close> is the
  relation \<open>P s \<longrightarrow> P t\<close>, a frame is the equality of some fields.
\<close>

definition within :: "('s \<Rightarrow> 's \<Rightarrow> bool) \<Rightarrow> ('s, 'a) op \<Rightarrow> bool" where
  "within R m \<longleftrightarrow> (\<forall>s. case m s of Return a t \<Rightarrow> R s t | Throw e t \<Rightarrow> R s t | _ \<Rightarrow> True)"

named_theorems within_intros \<open>rules that show what an operation keeps\<close>

lemma withinD_Return: "within R m \<Longrightarrow> m s = Return a t \<Longrightarrow> R s t"
  by (auto simp: within_def dest: spec [of _ s])

lemma withinD_Throw: "within R m \<Longrightarrow> m s = Throw e t \<Longrightarrow> R s t"
  by (auto simp: within_def dest: spec [of _ s])

lemma within_ret [within_intros]: "reflp R \<Longrightarrow> within R (ret a)"
  by (simp add: within_def ret_def reflpD)

lemma within_throw [within_intros]: "reflp R \<Longrightarrow> within R (throw e)"
  by (simp add: within_def throw_def reflpD)

lemma within_reads [within_intros]: "reflp R \<Longrightarrow> within R (reads f)"
  by (simp add: within_def reads_def reflpD)

lemma within_updates [within_intros]: "(\<And>s. R s (f s)) \<Longrightarrow> within R (updates f)"
  by (simp add: within_def updates_def)

lemma within_andThen [within_intros]:
  assumes "transp R" and "within R m" and "\<And>a. within R (f a)"
  shows "within R (andThen m f)"
  unfolding within_def
proof
  fix s
  show "case andThen m f s of Return a t \<Rightarrow> R s t | Throw e t \<Rightarrow> R s t | _ \<Rightarrow> True"
  proof (cases "m s")
    case (Return a t)
    with assms(2) have "R s t" by (rule withinD_Return)
    moreover have "case f a t of Return b u \<Rightarrow> R t u | Throw e u \<Rightarrow> R t u | _ \<Rightarrow> True"
      using assms(3) [of a] by (simp add: within_def)
    ultimately show ?thesis using Return assms(1)
      by (auto simp: andThen_def split: outcome.splits dest: transpD)
  next
    case (Throw e t)
    with assms(2) show ?thesis by (simp add: andThen_def withinD_Throw)
  qed (simp_all add: andThen_def)
qed

lemma within_whenM [within_intros]:
  "reflp R \<Longrightarrow> (b \<Longrightarrow> within R m) \<Longrightarrow> within R (whenM b m)"
  by (cases b) (simp_all add: whenM_def within_ret)

lemma within_liftE [within_intros]: "reflp R \<Longrightarrow> within R (liftE r)"
  by (cases r) (simp_all add: liftE_def within_ret within_throw)

lemma within_forM [within_intros]:
  assumes "reflp R" and "transp R" and "\<And>x. x \<in> set xs \<Longrightarrow> within R (f x)"
  shows "within R (forM xs f)"
  using assms(3)
  by (induction xs) (auto intro!: within_ret within_andThen simp: assms(1,2))

lemma within_inspect [within_intros]: "(\<And>s. within R (f s)) \<Longrightarrow> within R (inspect f)"
  by (auto simp: within_def inspect_def)

lemma within_stmts [within_intros]:
  assumes "reflp R" and "transp R" and "\<And>m. m \<in> set ms \<Longrightarrow> within R m"
  shows "within R (stmts ms)"
  using assms(3)
  by (induction ms) (auto intro!: within_ret within_andThen simp: assms(1,2))

lemma within_mapM [within_intros]:
  assumes "reflp R" and "transp R" and "\<And>x. x \<in> set xs \<Longrightarrow> within R (f x)"
  shows "within R (mapM xs f)"
  using assms(3)
  by (induction xs) (auto intro!: within_ret within_andThen simp: assms(1,2))

lemma within_if [within_intros]:
  "(b \<Longrightarrow> within R m) \<Longrightarrow> (\<not> b \<Longrightarrow> within R n) \<Longrightarrow> within R (if b then m else n)"
  by simp

lemma within_catching [within_intros]:
  assumes "transp R" and "within R m" and "\<And>e. within R (h e)"
  shows "within R (catching m h)"
  unfolding within_def
proof
  fix s
  show "case catching m h s of Return a t \<Rightarrow> R s t | Throw e t \<Rightarrow> R s t | _ \<Rightarrow> True"
  proof (cases "m s")
    case (Return a t)
    with assms(2) show ?thesis by (simp add: catching_def withinD_Return)
  next
    case (Throw e t)
    with assms(2) have "R s t" by (rule withinD_Throw)
    moreover have "case h e t of Return b u \<Rightarrow> R t u | Throw e u \<Rightarrow> R t u | _ \<Rightarrow> True"
      using assms(3) [of e] by (simp add: within_def)
    ultimately show ?thesis using Throw assms(1)
      by (auto simp: catching_def split: outcome.splits dest: transpD)
  qed (simp_all add: catching_def)
qed

subsection \<open>Weakest preconditions\<close>

text \<open>
  \<open>wp D m Q X s\<close>: from \<open>s\<close>, \<open>m\<close> returns into \<open>Q\<close> or throws into \<open>X\<close>; when it does not return,
  or its behaviour is undefined, the value is \<open>D\<close>. So \<open>D = False\<close> is total correctness and
  \<open>D = True\<close> is partial correctness.
\<close>

definition wp :: "bool \<Rightarrow> ('s, 'a) op \<Rightarrow> ('a \<Rightarrow> 's \<Rightarrow> bool) \<Rightarrow> (error \<Rightarrow> 's \<Rightarrow> bool) \<Rightarrow> 's \<Rightarrow> bool" where
  "wp D m Q X s = (case m s of
      Return a t \<Rightarrow> Q a t
    | Throw e t \<Rightarrow> X e t
    | Diverge \<Rightarrow> D
    | Undefined \<Rightarrow> D)"

named_theorems wp_simps \<open>weakest preconditions of the statements\<close>

lemma wp_ret [wp_simps]: "wp D (ret a) Q X = Q a"
  by (rule ext) (simp add: wp_def ret_def)

lemma wp_throw [wp_simps]: "wp D (throw e) Q X = X e"
  by (rule ext) (simp add: wp_def throw_def)

lemma wp_reads [wp_simps]: "wp D (reads f) Q X s = Q (f s) s"
  by (simp add: wp_def reads_def)

lemma wp_reads_const [wp_simps]: "wp D (reads f) (\<lambda>_. Q) X = Q"
  by (rule ext) (simp add: wp_reads)

lemma wp_updates [wp_simps]: "wp D (updates f) Q X s = Q () (f s)"
  by (simp add: wp_def updates_def)

lemma wp_inspect [wp_simps]: "wp D (inspect f) Q X s = wp D (f s) Q X s"
  by (simp add: wp_def inspect_def)

lemma wp_andThen [wp_simps]: "wp D (andThen m f) Q X = wp D m (\<lambda>a. wp D (f a) Q X) X"
  by (rule ext) (simp add: wp_def andThen_def split: outcome.splits)

lemma wp_whenM [wp_simps]: "wp D (whenM b m) Q X s = (if b then wp D m Q X s else Q () s)"
  by (simp add: whenM_def wp_ret)

lemma wp_liftE [wp_simps]: "wp D (liftE r) Q X s = (case r of Inl e \<Rightarrow> X e s | Inr a \<Rightarrow> Q a s)"
  by (simp add: liftE_def wp_ret wp_throw split: sum.splits)

lemma wp_catching [wp_simps]: "wp D (catching m h) Q X = wp D m Q (\<lambda>e. wp D (h e) Q X)"
  by (rule ext) (simp add: wp_def catching_def split: outcome.splits)

lemma wp_assertM [wp_simps]: "wp D (assertM b) Q X s = (if b then Q () s else D)"
  by (simp add: wp_def assertM_def)

lemma wp_if [wp_simps]: "wp D (if b then m else n) Q X s = (if b then wp D m Q X s else wp D n Q X s)"
  by simp

lemma wp_onFst [wp_simps]: "wp D (onFst m) Q X (s, x) = wp D m (\<lambda>a t. Q a (t, x)) (\<lambda>e t. X e (t, x)) s"
  by (simp add: wp_def onFst_def split: outcome.splits)

lemma wp_onSnd [wp_simps]: "wp D (onSnd m) Q X (x, s) = wp D m (\<lambda>a t. Q a (x, t)) (\<lambda>e t. X e (x, t)) s"
  by (simp add: wp_def onSnd_def split: outcome.splits)

lemma wp_mono:
  "wp D m Q X s \<Longrightarrow> (\<And>a t. Q a t \<Longrightarrow> Q' a t) \<Longrightarrow> (\<And>e t. X e t \<Longrightarrow> X' e t) \<Longrightarrow> (D \<Longrightarrow> D') \<Longrightarrow> wp D' m Q' X' s"
  by (auto simp: wp_def split: outcome.splits)

lemma wp_conj:
  "wp D m Q X s \<Longrightarrow> wp D' m Q' X' s \<Longrightarrow> wp (D \<and> D') m (\<lambda>a t. Q a t \<and> Q' a t) (\<lambda>e t. X e t \<and> X' e t) s"
  by (auto simp: wp_def split: outcome.splits)

lemma wp_Return: "wp D m Q X s \<Longrightarrow> m s = Return a t \<Longrightarrow> Q a t"
  by (simp add: wp_def)

lemma wp_Throw: "wp D m Q X s \<Longrightarrow> m s = Throw e t \<Longrightarrow> X e t"
  by (simp add: wp_def)

lemma wp_within: "within R m \<Longrightarrow> wp True m (\<lambda>a t. R s t) (\<lambda>e t. R s t) s"
  by (auto simp: within_def wp_def dest: spec [of _ s] split: outcome.splits)

lemma wp_total: "m s = Return a t \<Longrightarrow> wp True m Q X s \<Longrightarrow> Q a t"
  by (simp add: wp_def)

text \<open>A block that returns is a sequence of statements that return.\<close>

lemma andThen_Return: "andThen m f s = Return b u \<longleftrightarrow> (\<exists>a t. m s = Return a t \<and> f a t = Return b u)"
  by (auto simp: andThen_def split: outcome.splits)

lemma stmts_Return: "stmts (m # ms) s = Return () u \<longleftrightarrow> (\<exists>t. m s = Return () t \<and> stmts ms t = Return () u)"
  by (simp add: andThen_Return)

text \<open>A loop keeps an invariant that every round keeps.\<close>

lemma wp_forM:
  assumes "I s" and "\<And>x t. x \<in> set xs \<Longrightarrow> I t \<Longrightarrow> wp D (f x) (\<lambda>_. I) X t"
  shows "wp D (forM xs f) (\<lambda>_. I) X s"
  using assms
proof (induction xs arbitrary: s)
  case (Cons x xs)
  have "wp D (f x) (\<lambda>_. wp D (forM xs f) (\<lambda>_. I) X) X s"
    by (rule wp_mono [OF Cons.prems(2)]) (use Cons in auto)
  then show ?case by (simp add: wp_andThen)
qed (simp add: wp_ret)

lemma wp_mapM:
  assumes "I s" and "\<And>x t. x \<in> set xs \<Longrightarrow> I t \<Longrightarrow> wp D (f x) (\<lambda>_. I) X t"
  shows "wp D (mapM xs f) (\<lambda>_. I) X s"
  using assms
proof (induction xs arbitrary: s)
  case (Cons x xs)
  have "wp D (f x) (\<lambda>_. wp D (mapM xs f) (\<lambda>_. I) X) X s"
    by (rule wp_mono [OF Cons.prems(2)]) (use Cons in auto)
  then show ?case by (simp add: wp_andThen wp_ret)
qed (simp add: wp_ret)

section \<open>Ordered unique indices\<close>

text \<open>
  A container with an \<open>ordered_unique\<close> index is the list of its rows in key order. The
  operations are those the receiver uses: \<open>find\<close>, \<open>lower_bound\<close> with the iteration that
  follows it, insertion (or overwriting through \<open>modify\<close>) and removal.
\<close>

abbreviation keys_sorted :: "('k::linorder \<times> 'v) list \<Rightarrow> bool" where
  "keys_sorted xs \<equiv> sorted_wrt (<) (map fst xs)"

fun put_row :: "'k::linorder \<Rightarrow> 'v \<Rightarrow> ('k \<times> 'v) list \<Rightarrow> ('k \<times> 'v) list" where
  "put_row k v [] = [(k, v)]"
| "put_row k v ((a, b) # xs) =
     (if k < a then (k, v) # (a, b) # xs
      else if k = a then (k, v) # xs
      else (a, b) # put_row k v xs)"

definition drop_row :: "'k \<Rightarrow> ('k \<times> 'v) list \<Rightarrow> ('k \<times> 'v) list" where
  "drop_row k xs = filter (\<lambda>(a, b). a \<noteq> k) xs"

definition lower_bound :: "'k::linorder \<Rightarrow> ('k \<times> 'v) list \<Rightarrow> ('k \<times> 'v) list" where
  "lower_bound k xs = dropWhile (\<lambda>(a, b). a < k) xs"

lemma set_put_row: "set (map fst (put_row k v xs)) = insert k (set (map fst xs))"
  by (induction k v xs rule: put_row.induct) auto

lemma keys_sorted_put_row [intro]: "keys_sorted xs \<Longrightarrow> keys_sorted (put_row k v xs)"
proof (induction k v xs rule: put_row.induct)
  case (2 k v a b xs)
  then show ?case
    using set_put_row [of k v xs] by (auto simp: set_put_row)
qed simp

lemma map_of_put_row [simp]: "map_of (put_row k v xs) = (map_of xs)(k \<mapsto> v)"
  by (induction k v xs rule: put_row.induct) auto

lemma keys_sorted_drop_row [intro]: "keys_sorted xs \<Longrightarrow> keys_sorted (drop_row k xs)"
  by (induction xs) (auto simp: drop_row_def)

lemma map_of_drop_row [simp]: "map_of (drop_row k xs) = (map_of xs)(k := None)"
  by (induction xs) (auto simp: drop_row_def)

lemma lower_bound_eq_filter:
  "keys_sorted xs \<Longrightarrow> lower_bound k xs = filter (\<lambda>(a, b). k \<le> a) xs"
proof (induction xs)
  case (Cons x xs)
  obtain a b where x: "x = (a, b)" by (cases x)
  show ?case
  proof (cases "a < k")
    case True
    then show ?thesis using Cons x by (auto simp: lower_bound_def)
  next
    case False
    with Cons.prems x have "\<forall>y \<in> set xs. k \<le> fst y" by fastforce
    then have "filter (\<lambda>(a, b). k \<le> a) xs = xs" by (auto simp: filter_id_conv)
    then show ?thesis using False x by (simp add: lower_bound_def)
  qed
qed (simp add: lower_bound_def)

lemma keys_sorted_unique:
  assumes xs: "keys_sorted xs" and ys: "keys_sorted ys" and eq: "set xs = set ys"
  shows "xs = ys"
proof (rule map_sorted_distinct_set_unique)
  show "inj_on fst (set xs \<union> set ys)"
    using xs eq by (simp add: strict_sorted_iff distinct_map)
qed (use xs ys eq in \<open>simp_all add: strict_sorted_iff\<close>)

end
