(* ===== verification/StateDb.thy ===== *)
theory StateDb
  imports Prelude
begin

text \<open>
  The state database of \<open>receiver_plugin.cpp\<close>: the four chainbase tables with their
  indices, and the interface of the chainbase undo database that holds them. Chainbase is a
  git submodule: its operations are the fields of \<open>chainbase\<close>, a parameter of the model,
  and its documented undo-stack behaviour is the locale \<open>undo_database\<close>.
\<close>

section \<open>Rows and index keys\<close>

record state_object =
  so_head :: u32
  so_head_id :: checksum256
  so_irreversible :: u32
  so_irreversible_id :: checksum256

text \<open>
  The two composite keys of the ABI history: \<open>by_name_and_block\<close> orders by account, then
  by block; \<open>by_name_and_block_rev\<close> by account, then by descending block.
\<close>

datatype hist_key = HistKey (hk_account: u64) (hk_block: u32)

datatype rev_key = RevKey (rk_account: u64) (rk_block: u32)

definition by_name_and_block :: "hist_key \<Rightarrow> hist_key \<Rightarrow> bool" where
  "by_name_and_block x y \<longleftrightarrow>
     hk_account x < hk_account y \<or> hk_account x = hk_account y \<and> hk_block x < hk_block y"

definition by_name_and_block_rev :: "rev_key \<Rightarrow> rev_key \<Rightarrow> bool" where
  "by_name_and_block_rev x y \<longleftrightarrow>
     rk_account x < rk_account y \<or> rk_account x = rk_account y \<and> rk_block y < rk_block x"

instantiation hist_key :: linorder
begin

definition less_eq_hist_key :: "hist_key \<Rightarrow> hist_key \<Rightarrow> bool" where
  "less_eq_hist_key x y \<longleftrightarrow>
     hk_account x < hk_account y \<or> hk_account x = hk_account y \<and> hk_block x \<le> hk_block y"

definition less_hist_key :: "hist_key \<Rightarrow> hist_key \<Rightarrow> bool" where
  "less_hist_key = by_name_and_block"

instance
proof
  fix x y :: hist_key
  show "x \<le> y \<Longrightarrow> y \<le> x \<Longrightarrow> x = y"
    by (cases x; cases y) (auto simp: less_eq_hist_key_def)
qed (auto simp: less_eq_hist_key_def less_hist_key_def by_name_and_block_def)

end

instantiation rev_key :: linorder
begin

definition less_eq_rev_key :: "rev_key \<Rightarrow> rev_key \<Rightarrow> bool" where
  "less_eq_rev_key x y \<longleftrightarrow>
     rk_account x < rk_account y \<or> rk_account x = rk_account y \<and> rk_block y \<le> rk_block x"

definition less_rev_key :: "rev_key \<Rightarrow> rev_key \<Rightarrow> bool" where
  "less_rev_key = by_name_and_block_rev"

instance
proof
  fix x y :: rev_key
  show "x \<le> y \<Longrightarrow> y \<le> x \<Longrightarrow> x = y"
    by (cases x; cases y) (auto simp: less_eq_rev_key_def)
qed (auto simp: less_eq_rev_key_def less_rev_key_def by_name_and_block_rev_def)

end

section \<open>The tables\<close>

text \<open>
  \<open>state_object\<close> has only the identity index, so its rows are in order of creation; the
  other tables are in the order of their unique index.
\<close>

record tables =
  state_rows :: "state_object list"
  received_rows :: "(u32 \<times> checksum256) list"
  abi_rows :: "(u64 \<times> bytes) list"
  hist_rows :: "(hist_key \<times> bytes) list"

definition empty_tables :: tables where
  "empty_tables = \<lparr>state_rows = [], received_rows = [], abi_rows = [], hist_rows = []\<rparr>"

definition wf_tables :: "tables \<Rightarrow> bool" where
  "wf_tables t \<longleftrightarrow> keys_sorted (received_rows t) \<and> keys_sorted (abi_rows t) \<and> keys_sorted (hist_rows t)"

text \<open>
  \<open>db->create\<close> refuses (chainbase throws) a row whose unique key is taken; \<open>db->modify\<close> and
  \<open>db->remove\<close> act on the row an iterator points to.
\<close>

definition create_received_block :: "u32 \<Rightarrow> checksum256 \<Rightarrow> tables \<Rightarrow> tables option" where
  "create_received_block b i t =
     (if map_of (received_rows t) b = None
      then Some (t\<lparr>received_rows := put_row b i (received_rows t)\<rparr>) else None)"

definition modify_received_block :: "u32 \<Rightarrow> checksum256 \<Rightarrow> tables \<Rightarrow> tables" where
  "modify_received_block b i t = t\<lparr>received_rows := put_row b i (received_rows t)\<rparr>"

definition remove_received_block :: "u32 \<Rightarrow> tables \<Rightarrow> tables" where
  "remove_received_block b t = t\<lparr>received_rows := drop_row b (received_rows t)\<rparr>"

definition create_contract_abi :: "u64 \<Rightarrow> bytes \<Rightarrow> tables \<Rightarrow> tables option" where
  "create_contract_abi a abi t =
     (if map_of (abi_rows t) a = None
      then Some (t\<lparr>abi_rows := put_row a abi (abi_rows t)\<rparr>) else None)"

definition modify_contract_abi :: "u64 \<Rightarrow> bytes \<Rightarrow> tables \<Rightarrow> tables" where
  "modify_contract_abi a abi t = t\<lparr>abi_rows := put_row a abi (abi_rows t)\<rparr>"

definition remove_contract_abi :: "u64 \<Rightarrow> tables \<Rightarrow> tables" where
  "remove_contract_abi a t = t\<lparr>abi_rows := drop_row a (abi_rows t)\<rparr>"

definition create_abi_history :: "hist_key \<Rightarrow> bytes \<Rightarrow> tables \<Rightarrow> tables option" where
  "create_abi_history k abi t =
     (if map_of (hist_rows t) k = None
      then Some (t\<lparr>hist_rows := put_row k abi (hist_rows t)\<rparr>) else None)"

definition modify_abi_history :: "hist_key \<Rightarrow> bytes \<Rightarrow> tables \<Rightarrow> tables" where
  "modify_abi_history k abi t = t\<lparr>hist_rows := put_row k abi (hist_rows t)\<rparr>"

definition remove_abi_history :: "hist_key \<Rightarrow> tables \<Rightarrow> tables" where
  "remove_abi_history k t = t\<lparr>hist_rows := drop_row k (hist_rows t)\<rparr>"

text \<open>\<open>create\<close> of the state table, whose only unique index is the identity.\<close>

definition create_state :: "state_object \<Rightarrow> tables \<Rightarrow> tables" where
  "create_state o' t = t\<lparr>state_rows := state_rows t @ [o']\<rparr>"

text \<open>The reverse index, and the first row at or after a key in it.\<close>

definition rev_rows :: "tables \<Rightarrow> (rev_key \<times> bytes) list" where
  "rev_rows t = foldr (\<lambda>(k, abi). put_row (RevKey (hk_account k) (hk_block k)) abi) (hist_rows t) []"

definition rev_lower_bound :: "u64 \<Rightarrow> u32 \<Rightarrow> tables \<Rightarrow> (rev_key \<times> bytes) option" where
  "rev_lower_bound account block t =
     (case lower_bound (RevKey account block) (rev_rows t) of [] \<Rightarrow> None | r # _ \<Rightarrow> Some r)"

subsection \<open>The interface of a table with a unique index\<close>

locale unique_table =
  fixes rows :: "'t \<Rightarrow> ('k::linorder \<times> 'v) list"
    and create :: "'k \<Rightarrow> 'v \<Rightarrow> 't \<Rightarrow> 't option"
    and modify :: "'k \<Rightarrow> 'v \<Rightarrow> 't \<Rightarrow> 't"
    and remove :: "'k \<Rightarrow> 't \<Rightarrow> 't"
  assumes create_fresh: "map_of (rows t) k = None \<Longrightarrow> \<exists>t'. create k v t = Some t' \<and> rows t' = put_row k v (rows t)"
    and create_taken: "map_of (rows t) k = Some w \<Longrightarrow> create k v t = None"
    and modify_rows: "rows (modify k v t) = put_row k v (rows t)"
    and remove_rows: "rows (remove k t) = drop_row k (rows t)"
begin

lemma create_Some: "create k v t = Some t' \<Longrightarrow> map_of (rows t) k = None \<and> rows t' = put_row k v (rows t)"
  using create_fresh [of t k v] create_taken [of t k] by (cases "map_of (rows t) k") auto

lemma find_after_create: "create k v t = Some t' \<Longrightarrow> map_of (rows t') = (map_of (rows t))(k \<mapsto> v)"
  by (simp add: create_Some)

lemma find_after_modify: "map_of (rows (modify k v t)) = (map_of (rows t))(k \<mapsto> v)"
  by (simp add: modify_rows)

lemma find_after_remove: "map_of (rows (remove k t)) = (map_of (rows t))(k := None)"
  by (simp add: remove_rows)

lemma create_sorted: "keys_sorted (rows t) \<Longrightarrow> create k v t = Some t' \<Longrightarrow> keys_sorted (rows t')"
  using create_Some by auto

lemma modify_sorted: "keys_sorted (rows t) \<Longrightarrow> keys_sorted (rows (modify k v t))"
  by (auto simp: modify_rows)

lemma remove_sorted: "keys_sorted (rows t) \<Longrightarrow> keys_sorted (rows (remove k t))"
  by (auto simp: remove_rows)

text \<open>Find, then modify or create: the idiom of \<open>save_contract_abi\<close>, which cannot throw.\<close>

lemma upsert:
  "\<exists>t'. (case map_of (rows t) k of None \<Rightarrow> create k v t | Some w \<Rightarrow> Some (modify k v t)) = Some t'
    \<and> rows t' = put_row k v (rows t)"
  using create_fresh [of t k v] by (cases "map_of (rows t) k") (auto simp: modify_rows)

end

interpretation received: unique_table received_rows create_received_block modify_received_block remove_received_block
  by unfold_locales
    (auto simp: create_received_block_def modify_received_block_def remove_received_block_def)

interpretation abis: unique_table abi_rows create_contract_abi modify_contract_abi remove_contract_abi
  by unfold_locales
    (auto simp: create_contract_abi_def modify_contract_abi_def remove_contract_abi_def)

interpretation history: unique_table hist_rows create_abi_history modify_abi_history remove_abi_history
  by unfold_locales
    (auto simp: create_abi_history_def modify_abi_history_def remove_abi_history_def)

lemmas table_op_defs =
  create_received_block_def modify_received_block_def remove_received_block_def
  create_contract_abi_def modify_contract_abi_def remove_contract_abi_def
  create_abi_history_def modify_abi_history_def remove_abi_history_def create_state_def

subsection \<open>The reverse index\<close>

lemma rev_rows_sorted: "keys_sorted (rev_rows t)"
proof -
  have "keys_sorted (foldr (\<lambda>(k, abi). put_row (RevKey (hk_account k) (hk_block k)) abi) xs [])"
    for xs :: "(hist_key \<times> bytes) list"
    by (induction xs) (auto simp: case_prod_beta)
  then show ?thesis by (simp add: rev_rows_def)
qed

lemma map_of_rev_rows: "map_of (rev_rows t) (RevKey a b) = map_of (hist_rows t) (HistKey a b)"
proof -
  have "map_of (foldr (\<lambda>(k, abi). put_row (RevKey (hk_account k) (hk_block k)) abi) xs []) (RevKey a b)
      = map_of xs (HistKey a b)" for xs :: "(hist_key \<times> bytes) list"
  proof (induction xs)
    case (Cons x xs)
    obtain c d v where "x = (HistKey c d, v)" by (metis hist_key.exhaust surj_pair)
    with Cons show ?case by simp
  qed simp
  then show ?thesis by (simp add: rev_rows_def)
qed

text \<open>The first row of the reverse index at or after a key is the least one.\<close>

lemma rev_lower_bound_None:
  "rev_lower_bound a h t = None \<longleftrightarrow> (\<forall>k. RevKey a h \<le> k \<longrightarrow> map_of (rev_rows t) k = None)"
proof -
  have "rev_lower_bound a h t = None \<longleftrightarrow> lower_bound (RevKey a h) (rev_rows t) = []"
    by (auto simp: rev_lower_bound_def split: list.splits)
  also have "\<dots> \<longleftrightarrow> (\<forall>k \<in> fst ` set (rev_rows t). \<not> RevKey a h \<le> k)"
    by (force simp: lower_bound_eq_filter [OF rev_rows_sorted] filter_empty_conv)
  finally show ?thesis by (auto simp: map_of_eq_None_iff)
qed

lemma rev_lower_bound_Some:
  assumes "rev_lower_bound a h t = Some (k, abi)"
  shows "map_of (rev_rows t) k = Some abi \<and> RevKey a h \<le> k
    \<and> (\<forall>k'. RevKey a h \<le> k' \<and> map_of (rev_rows t) k' \<noteq> None \<longrightarrow> k \<le> k')"
proof -
  let ?fs = "filter (\<lambda>(c, v). RevKey a h \<le> c) (rev_rows t)"
  obtain rest where fs: "?fs = (k, abi) # rest"
    using assms by (auto simp: rev_lower_bound_def lower_bound_eq_filter [OF rev_rows_sorted] split: list.splits)
  have mem: "(k, abi) \<in> set (rev_rows t)" "RevKey a h \<le> k"
    using fs by (auto simp: filter_eq_Cons_iff)
  have dist: "distinct (map fst (rev_rows t))" using rev_rows_sorted by (simp add: strict_sorted_iff)
  have sorted: "keys_sorted ((k, abi) # rest)"
    unfolding fs [symmetric] using rev_rows_sorted [of t]
    by (induction "rev_rows t" rule: list.induct) (auto simp: sorted_wrt_map intro: sorted_wrt_filter)
  have "k \<le> k'" if k': "RevKey a h \<le> k'" "map_of (rev_rows t) k' = Some v" for k' v
  proof -
    have "(k', v) \<in> set ?fs" using k' map_of_SomeD by fastforce
    then have "(k', v) \<in> set ((k, abi) # rest)" by (simp only: fs)
    then show ?thesis using sorted by (auto intro: less_imp_le)
  qed
  then show ?thesis using mem dist by auto
qed

section \<open>The undo database\<close>

text \<open>
  The operations of \<open>chainbase::database\<close> that the receiver calls. \<open>cb_write\<close> is the effect
  of \<open>create\<close>, \<open>modify\<close> and \<open>remove\<close> on the tables; \<open>cb_start_session\<close> is
  \<open>start_undo_session(true)\<close>, whose \<open>push\<close> keeps the new revision and whose destructor, when
  the session was not pushed, undoes it.
\<close>

record 'db chainbase =
  cb_tables :: "'db \<Rightarrow> tables"
  cb_write :: "tables \<Rightarrow> 'db \<Rightarrow> 'db"
  cb_revision :: "'db \<Rightarrow> int"
  cb_has_undo_session :: "'db \<Rightarrow> bool"
  cb_undo_range :: "'db \<Rightarrow> int \<times> int"
  cb_start_session :: "'db \<Rightarrow> 'db"
  cb_undo :: "'db \<Rightarrow> 'db"
  cb_commit :: "int \<Rightarrow> 'db \<Rightarrow> 'db"
  cb_set_revision :: "int \<Rightarrow> 'db \<Rightarrow> 'db option"

text \<open>
  The documented behaviour: \<open>stack\<close> is the undo stack, the tables as they were before each
  uncommitted revision, the newest first. \<open>undo\<close> on an empty stack does nothing;
  \<open>commit(r)\<close> forgets how to undo the revisions up to \<open>r\<close>; \<open>set_revision\<close> throws when
  there is an undo stack or when the revision would decrease.
\<close>

locale undo_database =
  fixes cb :: "'db chainbase"
    and stack :: "'db \<Rightarrow> tables list"
  assumes write_tables: "cb_tables cb (cb_write cb t d) = t"
    and write_stack: "stack (cb_write cb t d) = stack d"
    and write_revision: "cb_revision cb (cb_write cb t d) = cb_revision cb d"
    and has_undo_session: "cb_has_undo_session cb d \<longleftrightarrow> stack d \<noteq> []"
    and undo_range: "cb_undo_range cb d = (cb_revision cb d - int (length (stack d)), cb_revision cb d)"
    and start_tables: "cb_tables cb (cb_start_session cb d) = cb_tables cb d"
    and start_stack: "stack (cb_start_session cb d) = cb_tables cb d # stack d"
    and start_revision: "cb_revision cb (cb_start_session cb d) = cb_revision cb d + 1"
    and undo_empty: "stack d = [] \<Longrightarrow> cb_undo cb d = d"
    and undo_tables: "stack d = t # ts \<Longrightarrow> cb_tables cb (cb_undo cb d) = t"
    and undo_stack: "stack d = t # ts \<Longrightarrow> stack (cb_undo cb d) = ts"
    and undo_revision: "stack d = t # ts \<Longrightarrow> cb_revision cb (cb_undo cb d) = cb_revision cb d - 1"
    and commit_tables: "cb_tables cb (cb_commit cb r d) = cb_tables cb d"
    and commit_stack: "stack (cb_commit cb r d) = take (nat (cb_revision cb d - r)) (stack d)"
    and commit_revision: "cb_revision cb (cb_commit cb r d) = cb_revision cb d"
    and set_revision_busy: "stack d \<noteq> [] \<or> r < cb_revision cb d \<Longrightarrow> cb_set_revision cb r d = None"
    and set_revision_free: "stack d = [] \<Longrightarrow> cb_revision cb d \<le> r \<Longrightarrow>
        \<exists>d'. cb_set_revision cb r d = Some d' \<and> cb_revision cb d' = r \<and> stack d' = [] \<and> cb_tables cb d' = cb_tables cb d"
begin

lemmas laws =
  write_tables write_stack write_revision has_undo_session undo_range start_tables start_stack
  start_revision commit_tables commit_stack commit_revision

text \<open>The oldest revision the database can go back to; below it nothing can be undone.\<close>

lemma undo_floor:
  "cb_revision cb (cb_undo cb d) - int (length (stack (cb_undo cb d)))
     = cb_revision cb d - int (length (stack d))"
  by (cases "stack d") (auto simp: undo_empty undo_stack undo_revision)

lemma undo_session_round_trip:
  "cb_tables cb (cb_undo cb (cb_write cb t (cb_start_session cb d))) = cb_tables cb d"
  "stack (cb_undo cb (cb_write cb t (cb_start_session cb d))) = stack d"
  "cb_revision cb (cb_undo cb (cb_write cb t (cb_start_session cb d))) = cb_revision cb d"
  using undo_tables [of "cb_write cb t (cb_start_session cb d)"]
    undo_stack [of "cb_write cb t (cb_start_session cb d)"]
    undo_revision [of "cb_write cb t (cb_start_session cb d)"]
  by (simp_all add: write_stack start_stack write_revision start_revision)

end

text \<open>
  A database that keeps its undo stack as a list has this behaviour, so the laws are
  consistent; the concrete runs of this development use it.
\<close>

record undo_list =
  ul_tables :: tables
  ul_stack :: "tables list"
  ul_revision :: int

definition undo_list_db :: "undo_list chainbase" where
  "undo_list_db = \<lparr>
     cb_tables = ul_tables,
     cb_write = (\<lambda>t d. d\<lparr>ul_tables := t\<rparr>),
     cb_revision = ul_revision,
     cb_has_undo_session = (\<lambda>d. ul_stack d \<noteq> []),
     cb_undo_range = (\<lambda>d. (ul_revision d - int (length (ul_stack d)), ul_revision d)),
     cb_start_session = (\<lambda>d. d\<lparr>ul_stack := ul_tables d # ul_stack d, ul_revision := ul_revision d + 1\<rparr>),
     cb_undo = (\<lambda>d. case ul_stack d of [] \<Rightarrow> d
        | t # ts \<Rightarrow> \<lparr>ul_tables = t, ul_stack = ts, ul_revision = ul_revision d - 1\<rparr>),
     cb_commit = (\<lambda>r d. d\<lparr>ul_stack := take (nat (ul_revision d - r)) (ul_stack d)\<rparr>),
     cb_set_revision = (\<lambda>r d. if ul_stack d \<noteq> [] \<or> r < ul_revision d then None else Some (d\<lparr>ul_revision := r\<rparr>))\<rparr>"

interpretation undo_list: undo_database undo_list_db ul_stack
  by unfold_locales (auto simp: undo_list_db_def)

end
