(* ===== verification/ReceiverState.thy ===== *)
theory ReceiverState
  imports StateDb
begin

text \<open>
  The data of the receiver: the events of \<open>receiver_plugin.hpp\<close>, the state history values the
  sources read, the libraries they call (parameters of the model), the options fixed by
  \<open>plugin_initialize\<close>, and the members of \<open>receiver_plugin_impl\<close> that change while it runs.
\<close>

section \<open>State history values\<close>

text \<open>
  Values that the abieos library decodes. The records have the fields the sources read; what
  they only pass on is kept as the encoded bytes.
\<close>

record block_position =
  bp_block_num :: u32
  bp_block_id :: checksum256

record get_blocks_result =
  gbr_last_irreversible :: block_position
  gbr_this_block :: "block_position option"
  gbr_prev_block :: "block_position option"
  gbr_block :: "bytes option"
  gbr_traces :: "bytes option"
  gbr_deltas :: "bytes option"

record block_header =
  bh_timestamp :: u32
  bh_producer :: u64
  bh_previous :: checksum256
  bh_transaction_mroot :: checksum256
  bh_action_mroot :: checksum256

record signed_block = block_header +
  sb_transactions :: "bytes list"

record delta_row =
  dr_present :: bool
  dr_data :: bytes

record table_delta =
  td_name :: string
  td_rows :: "delta_row list"

record account_v0 =
  acc_name :: u64
  acc_abi :: bytes

record contract_row =
  kvo_code :: u64
  kvo_scope :: u64
  kvo_table :: u64
  kvo_primary_key :: u64
  kvo_payer :: u64
  kvo_value :: bytes

record permission_level =
  pl_actor :: u64
  pl_permission :: u64

record ship_action =
  act_account :: u64
  act_name :: u64
  act_authorization :: "permission_level list"
  act_data :: bytes

text \<open>An alternative of the \<open>action_trace\<close> variant that the sources do not know is its index.\<close>

datatype action_trace =
    Action_trace_v0 (at_receiver: u64) (at_act: ship_action)
  | Action_trace_v1 (at_receiver: u64) (at_act: ship_action)
  | Action_trace_other nat

record ship_trace =
  tt_id :: checksum256
  tt_action_traces :: "action_trace list"

text \<open>An \<open>abi_type\<close>, as far as \<open>as_variant\<close> and \<open>as_struct\<close> show it.\<close>

record abi_type =
  at_type_name :: string
  at_variant :: "(string \<times> bool) list option"

section \<open>Events\<close>

datatype fork_reason_val = Network | Restart | Resync

fun to_string :: "fork_reason_val \<Rightarrow> string" where
  "to_string Network = ''network''"
| "to_string Restart = ''restart''"
| "to_string Resync = ''resync''"

record fork_event =
  fe_block_num :: u32
  fe_depth :: u32
  fe_fork_reason :: fork_reason_val
  fe_last_irreversible :: u32

record block_begins =
  bb_block_num :: u32
  bb_block_id :: checksum256
  bb_block_timestamp :: u32
  bb_last_irreversible :: u32

record block =
  bl_block_num :: u32
  bl_block_id :: checksum256
  bl_last_irreversible :: u32
  bl_block :: signed_block

record block_table_delta =
  bltd_block_num :: u32
  bltd_block_timestamp :: u32
  bltd_table_delta :: table_delta

record transaction_trace =
  tr_block_num :: u32
  tr_block_timestamp :: u32
  tr_trace :: ship_trace
  tr_bin :: bytes

record abi_update =
  au_block_num :: u32
  au_block_timestamp :: u32
  au_account :: u64
  au_abi :: bytes
  au_binary :: bytes

record abi_removal =
  ar_block_num :: u32
  ar_block_timestamp :: u32
  ar_account :: u64

record abi_error =
  ae_block_num :: u32
  ae_block_timestamp :: u32
  ae_account :: u64
  ae_error :: string

record table_row_update =
  tru_block_num :: u32
  tru_block_timestamp :: u32
  tru_added :: bool
  tru_kvo :: contract_row

record permission_update =
  pu_block_num :: u32
  pu_block_timestamp :: u32
  pu_added :: bool
  pu_permission :: bytes

record permission_link_update =
  plu_block_num :: u32
  plu_block_timestamp :: u32
  plu_added :: bool
  plu_permission_link :: bytes

record account_metadata_update =
  amu_block_num :: u32
  amu_block_timestamp :: u32
  amu_account_metadata :: bytes

record receiver_pause =
  rp_head :: u32
  rp_acknowledged :: u32

record block_finished =
  bf_block_num :: u32
  bf_block_id :: checksum256
  bf_block_timestamp :: u32
  bf_producer :: u64
  bf_previous :: checksum256
  bf_transaction_mroot :: checksum256
  bf_action_mroot :: checksum256
  bf_trx_count :: u32
  bf_last_irreversible :: u32

record interactive_request =
  block_num_start :: u32
  block_num_end :: u32

text \<open>What \<open>publish\<close> puts on the channels, in the order of the calls.\<close>

datatype event =
    Fork fork_event
  | Block_started block_begins
  | Block block
  | Block_table_delta block_table_delta
  | Transaction_trace transaction_trace
  | Abi_update abi_update
  | Abi_removal abi_removal
  | Abi_error abi_error
  | Table_row_update table_row_update
  | Permission_update permission_update
  | Permission_link_update permission_link_update
  | Account_metadata_update account_metadata_update
  | Receiver_pause receiver_pause
  | Block_completed block_finished

datatype channel =
    Forks | Block_started_chan | Blocks | Block_table_deltas | Transaction_traces | Abi_updates
  | Abi_removals | Abi_errors | Table_row_updates | Permission_updates | Permission_link_updates
  | Account_metadata_updates | Receiver_pauses | Block_completed_chan

section \<open>Libraries\<close>

text \<open>
  The \<open>abieos\<close> C interface works on a context (\<open>None\<close> is the null pointer); \<open>ship\<close> has the
  \<open>from_bin\<close> of each type, which throws or gives the value and the rest of the input, and the
  \<open>json_to_bin\<close> of a request. \<open>abi_from_json\<close> gives the complaint of \<open>check_abi_version\<close>, if
  any, and the types.
\<close>

record 'ctx abieos =
  abieos_create :: 'ctx
  abieos_set_abi_bin :: "u64 \<Rightarrow> bytes \<Rightarrow> 'ctx option \<Rightarrow> 'ctx option \<times> bool"
  abieos_get_error :: "'ctx option \<Rightarrow> string"

record blocks_request =
  rq_start_block_num :: u32
  rq_end_block_num :: u32
  rq_max_messages_in_flight :: u32
  rq_have_positions :: "(u32 \<times> checksum256) list"
  rq_irreversible_only :: bool
  rq_fetch_block :: bool
  rq_fetch_traces :: bool
  rq_fetch_deltas :: bool

record ship =
  varuint32_from_bin :: "bytes \<Rightarrow> error + u32 \<times> bytes"
  result_from_bin :: "bytes \<Rightarrow> error + get_blocks_result \<times> bytes"
  signed_block_from_bin :: "bytes \<Rightarrow> error + signed_block \<times> bytes"
  table_delta_from_bin :: "bytes \<Rightarrow> error + table_delta \<times> bytes"
  account_from_bin :: "bytes \<Rightarrow> error + account_v0 \<times> bytes"
  contract_row_from_bin :: "bytes \<Rightarrow> error + contract_row \<times> bytes"
  permission_from_bin :: "bytes \<Rightarrow> error + bytes \<times> bytes"
  permission_link_from_bin :: "bytes \<Rightarrow> error + bytes \<times> bytes"
  account_metadata_from_bin :: "bytes \<Rightarrow> error + bytes \<times> bytes"
  abi_def_from_bin :: "bytes \<Rightarrow> error + bytes \<times> bytes"
  trace_from_bin :: "bytes \<Rightarrow> error + ship_trace \<times> bytes"
  abi_from_json :: "bytes \<Rightarrow> error + string option \<times> (string \<rightharpoonup> abi_type)"
  request_to_bin :: "abi_type \<Rightarrow> blocks_request \<Rightarrow> error + bytes"

section \<open>Options\<close>

record config =
  interactive_mode :: bool
  noexport_mode :: bool
  skip_block_events :: bool
  skip_table_deltas :: bool
  skip_traces :: bool
  skip_account_info :: bool
  irreversible_only :: bool
  start_block_num :: u32
  max_queue_size :: u32
  stale_check_deadline_msec :: u32
  enable_rcvr_filter :: bool
  rcvr_filter :: "u64 set"
  enable_auth_filter :: bool
  auth_filter :: "u64 set"
  blacklist_actions :: "u64 \<rightharpoonup> u64 set"
  enable_tables_filter :: bool
  tables_filter :: "u64 set"
  enable_tables_blacklist :: bool
  tables_blacklist :: "u64 set"
  do_trace_filter :: bool
  do_trace_blacklist :: bool

text \<open>
  What an operation is given besides the object: the libraries, the options and which
  channels have subscribers (fixed before the receiver starts).
\<close>

record ('db, 'ctx) env =
  cb :: "'db chainbase"
  abilib :: "'ctx abieos"
  ship :: ship
  cfg :: config
  has_subscribers :: "channel \<Rightarrow> bool"

section \<open>The receiver\<close>

text \<open>
  The members of \<open>receiver_plugin_impl\<close>. \<open>dblock\<close> tells whether this process holds the
  shared mutex (which is not recursive). \<open>reading\<close>, \<open>pause_timer\<close> and \<open>stale_timer\<close> are
  the asynchronous operations in flight; \<open>published\<close> and \<open>sent\<close> collect what left the
  object; \<open>quitting\<close> records \<open>app().quit()\<close>.
\<close>

record ('db, 'ctx) receiver =
  db :: 'db
  dblock :: bool
  stream_open :: bool
  aborting :: bool
  receiver_ready :: bool
  interactive_req_queue :: "interactive_request list"
  interactive_req_pending :: bool
  end_block_num :: u32
  head :: u32
  head_id :: checksum256
  irreversible :: u32
  irreversible_id :: checksum256
  block_header :: block_header
  trx_count :: u32
  received_blocks :: u32
  abi_types :: "string \<rightharpoonup> abi_type"
  contract_abi_ctxt :: "'ctx option"
  contract_abi_imported :: "u64 set"
  exporter_will_ack :: bool
  exporter_acked_block :: u32
  exporter_max_unconfirmed :: u32
  forked_at_block :: u32
  pause_time_msec :: u32
  slowdown_requested :: bool
  stale_check_last_head :: u32
  reading :: bool
  pause_timer :: "u32 option"
  stale_timer :: "u32 option"
  quitting :: bool
  published :: "event list"
  sent :: "blocks_request list"

type_synonym ('db, 'ctx, 'a) rop = "(('db, 'ctx) receiver, 'a) op"

definition publish :: "event \<Rightarrow> ('db, 'ctx, unit) rop" where
  "publish e = updates (\<lambda>s. s\<lparr>published := published s @ [e]\<rparr>)"

text \<open>
  The shared mutex. A process that locks it while it holds it waits for ever;
  \<open>bip::scoped_lock\<close> unlocks it on every exit of the block, exceptions included.
\<close>

definition lock_mutex :: "('db, 'ctx, unit) rop" where
  "lock_mutex = (\<lambda>s. if dblock s then Diverge else Return () (s\<lparr>dblock := True\<rparr>))"

definition unlock_mutex :: "('db, 'ctx, unit) rop" where
  "unlock_mutex = updates (\<lambda>s. s\<lparr>dblock := False\<rparr>)"

definition scoped_lock :: "('db, 'ctx, 'a) rop \<Rightarrow> ('db, 'ctx, 'a) rop" where
  "scoped_lock m = andThen lock_mutex (\<lambda>_. \<lambda>s. case m s of
        Return a t \<Rightarrow> Return a (t\<lparr>dblock := False\<rparr>)
      | Throw e t \<Rightarrow> Throw e (t\<lparr>dblock := False\<rparr>)
      | Diverge \<Rightarrow> Diverge
      | Undefined \<Rightarrow> Undefined)"

text \<open>Reading and writing the tables of the database.\<close>

abbreviation tables_of :: "('db, 'ctx) env \<Rightarrow> ('db, 'ctx) receiver \<Rightarrow> tables" where
  "tables_of E s \<equiv> cb_tables (cb E) (db s)"

definition write_tables :: "('db, 'ctx) env \<Rightarrow> (tables \<Rightarrow> tables) \<Rightarrow> ('db, 'ctx, unit) rop" where
  "write_tables E f = updates (\<lambda>s. s\<lparr>db := cb_write (cb E) (f (tables_of E s)) (db s)\<rparr>)"

text \<open>\<open>db->create\<close>, which throws when the unique key is taken.\<close>

definition create_row :: "('db, 'ctx) env \<Rightarrow> (tables \<Rightarrow> tables option) \<Rightarrow> ('db, 'ctx, unit) rop" where
  "create_row E f = (\<lambda>s. case f (tables_of E s) of
      None \<Rightarrow> Throw (Logic_error ''could not insert object, most likely a uniqueness constraint was violated'') s
    | Some t \<Rightarrow> Return () (s\<lparr>db := cb_write (cb E) t (db s)\<rparr>))"

section \<open>Weakest preconditions of the primitives\<close>

lemma wp_publish [wp_simps]: "wp D (publish e) Q X s = Q () (s\<lparr>published := published s @ [e]\<rparr>)"
  by (simp add: publish_def wp_simps)

lemma wp_lock_mutex [wp_simps]:
  "wp D lock_mutex Q X s = (if dblock s then D else Q () (s\<lparr>dblock := True\<rparr>))"
  by (simp add: lock_mutex_def wp_def)

lemma wp_unlock_mutex [wp_simps]: "wp D unlock_mutex Q X s = Q () (s\<lparr>dblock := False\<rparr>)"
  by (simp add: unlock_mutex_def wp_simps)

lemma wp_scoped_lock [wp_simps]:
  "wp D (scoped_lock m) Q X s = (if dblock s then D else
     wp D m (\<lambda>a t. Q a (t\<lparr>dblock := False\<rparr>)) (\<lambda>e t. X e (t\<lparr>dblock := False\<rparr>)) (s\<lparr>dblock := True\<rparr>))"
  by (simp add: scoped_lock_def wp_simps) (simp add: wp_def split: outcome.splits)

lemma wp_write_tables [wp_simps]:
  "wp D (write_tables E f) Q X s = Q () (s\<lparr>db := cb_write (cb E) (f (tables_of E s)) (db s)\<rparr>)"
  by (simp add: write_tables_def wp_simps)

lemma wp_create_row [wp_simps]:
  "wp D (create_row E f) Q X s = (case f (tables_of E s) of
      None \<Rightarrow> X (Logic_error ''could not insert object, most likely a uniqueness constraint was violated'') s
    | Some t \<Rightarrow> Q () (s\<lparr>db := cb_write (cb E) t (db s)\<rparr>))"
  by (simp add: create_row_def wp_def split: option.splits)

section \<open>Frames\<close>

text \<open>The receiver without its database, its ABI cache and what it published.\<close>

definition frozen :: "('db, 'ctx) receiver \<Rightarrow> ('db, 'ctx) receiver" where
  "frozen s = s\<lparr>db := undefined, published := [], contract_abi_ctxt := None, contract_abi_imported := {}\<rparr>"

lemma frozen_updates [simp]:
  "frozen (s\<lparr>db := d\<rparr>) = frozen s" "frozen (s\<lparr>published := p\<rparr>) = frozen s"
  "frozen (s\<lparr>contract_abi_ctxt := c\<rparr>) = frozen s" "frozen (s\<lparr>contract_abi_imported := i\<rparr>) = frozen s"
  by (simp_all add: frozen_def)

lemma frozenD:
  assumes "frozen s = frozen t"
  shows "dblock s = dblock t" "stream_open s = stream_open t" "aborting s = aborting t"
    "receiver_ready s = receiver_ready t" "interactive_req_queue s = interactive_req_queue t"
    "interactive_req_pending s = interactive_req_pending t" "end_block_num s = end_block_num t"
    "head s = head t" "head_id s = head_id t" "irreversible s = irreversible t"
    "irreversible_id s = irreversible_id t" "block_header s = block_header t" "trx_count s = trx_count t"
    "received_blocks s = received_blocks t" "abi_types s = abi_types t"
    "exporter_will_ack s = exporter_will_ack t" "exporter_acked_block s = exporter_acked_block t"
    "exporter_max_unconfirmed s = exporter_max_unconfirmed t" "forked_at_block s = forked_at_block t"
    "pause_time_msec s = pause_time_msec t" "slowdown_requested s = slowdown_requested t"
    "stale_check_last_head s = stale_check_last_head t" "reading s = reading t"
    "pause_timer s = pause_timer t" "stale_timer s = stale_timer t" "quitting s = quitting t"
    "sent s = sent t"
  using assms by (cases s; cases t; simp add: frozen_def)+

text \<open>
  What the ABI store and the deltas leave alone: every other member, the undo stack and
  revision of the database, and the rows of the other tables.
\<close>

definition abi_frame ::
    "('db, 'ctx) env \<Rightarrow> ('db \<Rightarrow> tables list) \<Rightarrow> ('db, 'ctx) receiver \<Rightarrow> ('db, 'ctx) receiver \<Rightarrow> bool" where
  "abi_frame E stack s t \<longleftrightarrow> frozen s = frozen t \<and> stack (db s) = stack (db t)
     \<and> cb_revision (cb E) (db s) = cb_revision (cb E) (db t)
     \<and> state_rows (tables_of E s) = state_rows (tables_of E t)
     \<and> received_rows (tables_of E s) = received_rows (tables_of E t)"

lemma abi_frame_refl [within_intros, simp]: "reflp (abi_frame E stack)" "abi_frame E stack s s"
  by (auto simp: abi_frame_def reflp_def)

lemma abi_frame_transp [within_intros, simp]: "transp (abi_frame E stack)"
  by (auto simp: abi_frame_def transp_def)

lemma within_case_prod [within_intros]:
  "(\<And>x y. p = (x, y) \<Longrightarrow> within R (f x y)) \<Longrightarrow> within R (case p of (x, y) \<Rightarrow> f x y)"
  by (cases p) simp

lemma within_case_option [within_intros]:
  "(p = None \<Longrightarrow> within R m) \<Longrightarrow> (\<And>x. p = Some x \<Longrightarrow> within R (f x)) \<Longrightarrow> within R (case p of None \<Rightarrow> m | Some x \<Rightarrow> f x)"
  by (cases p) simp_all

end
