(* ===== verification/AbiStore.thy ===== *)
theory AbiStore
  imports ReceiverState
begin

text \<open>
  The contract ABIs of \<open>receiver_plugin_impl\<close>: the latest ABI of every contract, the history
  of its ABIs, and the abieos context that holds the decoded ones.
\<close>

section \<open>Operations\<close>

definition init_contract_abi_ctxt :: "('db, 'ctx) env \<Rightarrow> ('db, 'ctx, unit) rop" where
  "init_contract_abi_ctxt E = stmts [
     inspect (\<lambda>s. whenM (contract_abi_ctxt s \<noteq> None)
       (updates (\<lambda>s. s\<lparr>contract_abi_ctxt := None, contract_abi_imported := {}\<rparr>))),
     updates (\<lambda>s. s\<lparr>contract_abi_ctxt := Some (abieos_create (abilib E))\<rparr>)]"

definition save_contract_abi_history :: "('db, 'ctx) env \<Rightarrow> u64 \<Rightarrow> bytes \<Rightarrow> ('db, 'ctx, unit) rop" where
  "save_contract_abi_history E account data = inspect (\<lambda>s.
     case map_of (hist_rows (tables_of E s)) (HistKey account (head s)) of
       Some _ \<Rightarrow> write_tables E (modify_abi_history (HistKey account (head s)) data)
     | None \<Rightarrow> create_row E (create_abi_history (HistKey account (head s)) data))"

definition clear_contract_abi :: "('db, 'ctx) env \<Rightarrow> u64 \<Rightarrow> ('db, 'ctx, unit) rop" where
  "clear_contract_abi E account = stmts [
     inspect (\<lambda>s. whenM (account \<in> contract_abi_imported s) (init_contract_abi_ctxt E)),
     inspect (\<lambda>s. case map_of (abi_rows (tables_of E s)) account of
         None \<Rightarrow> ret ()
       | Some _ \<Rightarrow> stmts [
           write_tables E (remove_contract_abi account),
           inspect (\<lambda>s. publish (Abi_removal \<lparr>
             ar_block_num = head s,
             ar_block_timestamp = bh_timestamp (block_header s),
             ar_account = account\<rparr>)),
           save_contract_abi_history E account []])]"

definition set_abi_bin :: "('db, 'ctx) env \<Rightarrow> u64 \<Rightarrow> bytes \<Rightarrow> ('db, 'ctx, bool) rop" where
  "set_abi_bin E account abi = (\<lambda>s.
     let (c, ok) = abieos_set_abi_bin (abilib E) account abi (contract_abi_ctxt s)
     in Return ok (s\<lparr>contract_abi_ctxt := c\<rparr>))"

definition save_contract_abi :: "('db, 'ctx) env \<Rightarrow> u64 \<Rightarrow> bytes \<Rightarrow> ('db, 'ctx, unit) rop" where
  "save_contract_abi E account data = stmts [
     inspect (\<lambda>s. whenM (account \<in> contract_abi_imported s) (init_contract_abi_ctxt E)),
     catching
       (stmts [
         andThen (set_abi_bin E account data) (\<lambda>ok. inspect (\<lambda>s.
           whenM (\<not> ok) (throw (Runtime_error (abieos_get_error (abilib E) (contract_abi_ctxt s)))))),
         updates (\<lambda>s. s\<lparr>contract_abi_imported := insert account (contract_abi_imported s)\<rparr>),
         inspect (\<lambda>s. case map_of (abi_rows (tables_of E s)) account of
             Some _ \<Rightarrow> write_tables E (modify_contract_abi account data)
           | None \<Rightarrow> create_row E (create_contract_abi account data)),
         whenM (has_subscribers E Abi_updates)
           (andThen (liftE (abi_def_from_bin (ship E) data)) (\<lambda>(abi, _). inspect (\<lambda>s.
             publish (Abi_update \<lparr>
               au_block_num = head s,
               au_block_timestamp = bh_timestamp (block_header s),
               au_account = account,
               au_abi = abi,
               au_binary = data\<rparr>))))])
       (\<lambda>e. inspect (\<lambda>s. publish (Abi_error \<lparr>
          ae_block_num = head s,
          ae_block_timestamp = bh_timestamp (block_header s),
          ae_account = account,
          ae_error = what e\<rparr>))),
     save_contract_abi_history E account data]"

text \<open>
  The result of \<open>abieos_set_abi_bin\<close> is not looked at here. \<open>lock\<close> tells whether the
  caller wants the mutex to be taken around the lookup.
\<close>

definition get_contract_abi_ready :: "('db, 'ctx) env \<Rightarrow> u64 \<Rightarrow> bool \<Rightarrow> ('db, 'ctx, bool) rop" where
  "get_contract_abi_ready E account lock = inspect (\<lambda>s.
     if account \<in> contract_abi_imported s then ret True
     else if interactive_mode (cfg E) then
       andThen (whenM lock lock_mutex) (\<lambda>_.
       andThen (reads (\<lambda>s. rev_lower_bound account (head s) (tables_of E s))) (\<lambda>itr.
       andThen (whenM lock unlock_mutex) (\<lambda>_.
         case itr of
           None \<Rightarrow> ret False
         | Some (_, abi) \<Rightarrow>
             andThen (set_abi_bin E account abi) (\<lambda>_.
             andThen (updates (\<lambda>s. s\<lparr>contract_abi_imported := insert account (contract_abi_imported s)\<rparr>)) (\<lambda>_.
               ret True)))))
     else
       andThen (whenM lock lock_mutex) (\<lambda>_.
       andThen (reads (\<lambda>s. map_of (abi_rows (tables_of E s)) account)) (\<lambda>itr.
       andThen (whenM lock unlock_mutex) (\<lambda>_.
         case itr of
           None \<Rightarrow> ret False
         | Some abi \<Rightarrow>
             andThen (set_abi_bin E account abi) (\<lambda>_.
             andThen (updates (\<lambda>s. s\<lparr>contract_abi_imported := insert account (contract_abi_imported s)\<rparr>)) (\<lambda>_.
               ret True))))))"

definition get_contract_abi_ctxt :: "('db, 'ctx) env \<Rightarrow> u64 \<Rightarrow> ('db, 'ctx, 'ctx option) rop" where
  "get_contract_abi_ctxt E account =
     andThen (get_contract_abi_ready E account True) (\<lambda>_. reads contract_abi_ctxt)"

section \<open>The interface of the abieos context\<close>

text \<open>
  A context maps accounts to the ABIs loaded into it. A new one is empty; loading a valid
  ABI binds the account to it, loading an invalid one fails and changes no binding.
\<close>

locale abi_library =
  fixes al :: "'ctx abieos"
    and loaded :: "'ctx \<Rightarrow> u64 \<rightharpoonup> bytes"
    and valid_abi :: "bytes \<Rightarrow> bool"
  assumes create_empty: "loaded (abieos_create al) = Map.empty"
    and set_valid: "valid_abi abi \<Longrightarrow>
      \<exists>d. abieos_set_abi_bin al a abi (Some c) = (Some d, True) \<and> loaded d = (loaded c)(a \<mapsto> abi)"
    and set_invalid: "\<not> valid_abi abi \<Longrightarrow>
      \<exists>d. abieos_set_abi_bin al a abi (Some c) = (Some d, False) \<and> loaded d = loaded c"
begin

lemma set_cases:
  obtains d where "abieos_set_abi_bin al a abi (Some c) = (Some d, valid_abi abi)"
    and "loaded d = (if valid_abi abi then (loaded c)(a \<mapsto> abi) else loaded c)"
  using set_valid [of abi a c] set_invalid [of abi a c] by (cases "valid_abi abi") auto

end

text \<open>A context that is the list of its bindings satisfies the laws; runs below use it.\<close>

definition abi_list_lib :: "(bytes \<Rightarrow> bool) \<Rightarrow> (u64 \<times> bytes) list abieos" where
  "abi_list_lib valid = \<lparr>
     abieos_create = [],
     abieos_set_abi_bin = (\<lambda>a abi c. case c of
        None \<Rightarrow> (None, False)
      | Some d \<Rightarrow> if valid abi then (Some ((a, abi) # d), True) else (Some d, False)),
     abieos_get_error = (\<lambda>_. ''invalid abi'')\<rparr>"

interpretation abi_list: abi_library "abi_list_lib valid" map_of valid for valid
  by unfold_locales (auto simp: abi_list_lib_def)

section \<open>What the operations do\<close>

text \<open>Find, then modify or create: both branches write the same row, so nothing is thrown.\<close>

lemma create_abi_history_fresh:
  "map_of (hist_rows t) k = None \<Longrightarrow> create_abi_history k abi t = Some (modify_abi_history k abi t)"
  by (simp add: table_op_defs)

lemma create_contract_abi_fresh:
  "map_of (abi_rows t) a = None \<Longrightarrow> create_contract_abi a abi t = Some (modify_contract_abi a abi t)"
  by (simp add: table_op_defs)

lemma wp_init_contract_abi_ctxt [wp_simps]:
  "wp D (init_contract_abi_ctxt E) Q X s = Q () (s\<lparr>
     contract_abi_imported := if contract_abi_ctxt s \<noteq> None then {} else contract_abi_imported s,
     contract_abi_ctxt := Some (abieos_create (abilib E))\<rparr>)"
  by (cases "contract_abi_ctxt s") (simp_all add: init_contract_abi_ctxt_def wp_simps)

lemma wp_save_contract_abi_history [wp_simps]:
  "wp D (save_contract_abi_history E account data) Q X s = Q () (s\<lparr>
     db := cb_write (cb E) (modify_abi_history (HistKey account (head s)) data (tables_of E s)) (db s)\<rparr>)"
  by (simp add: save_contract_abi_history_def wp_simps create_abi_history_fresh split: option.splits)

lemma wp_set_abi_bin [wp_simps]:
  "wp D (set_abi_bin E account abi) Q X s =
     Q (snd (abieos_set_abi_bin (abilib E) account abi (contract_abi_ctxt s)))
       (s\<lparr>contract_abi_ctxt := fst (abieos_set_abi_bin (abilib E) account abi (contract_abi_ctxt s))\<rparr>)"
  by (simp add: set_abi_bin_def wp_def split: prod.splits)

text \<open>
  The cache is coherent: every account whose ABI the context is believed to hold has a row,
  the context holds the ABI of that row, and every row is an ABI that abieos accepts.
\<close>

definition abi_cache_coherent ::
    "('db, 'ctx) env \<Rightarrow> ('ctx \<Rightarrow> u64 \<rightharpoonup> bytes) \<Rightarrow> (bytes \<Rightarrow> bool) \<Rightarrow> ('db, 'ctx) receiver \<Rightarrow> bool" where
  "abi_cache_coherent E loaded valid s \<longleftrightarrow>
     (\<exists>c. contract_abi_ctxt s = Some c \<and>
        (\<forall>a \<in> contract_abi_imported s. \<exists>abi.
            map_of (abi_rows (tables_of E s)) a = Some abi \<and> loaded c a = Some abi)) \<and>
     (\<forall>a abi. map_of (abi_rows (tables_of E s)) a = Some abi \<longrightarrow> valid abi)"

lemma coherent_publish [simp]:
  "abi_cache_coherent E loaded valid (s\<lparr>published := p\<rparr>) = abi_cache_coherent E loaded valid s"
  by (simp add: abi_cache_coherent_def)

text \<open>The laws both operations rest on, in the form the proofs below use them.\<close>

locale abi_store =
  undo_database "cb E" stack + abi_library "abilib E" loaded valid_abi
  for E :: "('db, 'ctx) env" and stack loaded valid_abi
begin

lemma within_write [within_intros]:
  assumes "\<And>t. state_rows (f t) = state_rows t \<and> received_rows (f t) = received_rows t"
  shows "within (abi_frame E stack) (write_tables E f)"
  using assms unfolding write_tables_def
  by (intro within_intros) (simp add: abi_frame_def write_tables write_stack write_revision)

lemma within_create [within_intros]:
  assumes "\<And>t u. f t = Some u \<Longrightarrow> state_rows u = state_rows t \<and> received_rows u = received_rows t"
  shows "within (abi_frame E stack) (create_row E f)"
  using assms unfolding create_row_def within_def
  by (auto simp: abi_frame_def write_tables write_stack write_revision split: option.splits)

lemma within_publish [within_intros]: "within (abi_frame E stack) (publish e)"
  unfolding publish_def by (intro within_intros) (simp add: abi_frame_def)

lemma within_init [within_intros]: "within (abi_frame E stack) (init_contract_abi_ctxt E)"
  unfolding init_contract_abi_ctxt_def
  by (intro within_intros) (auto intro!: within_intros simp: abi_frame_def)

lemma within_save_history [within_intros]:
  "within (abi_frame E stack) (save_contract_abi_history E account data)"
  unfolding save_contract_abi_history_def
  by (intro within_intros) (auto simp: table_op_defs split: if_splits)

lemma within_set_abi_bin [within_intros]: "within (abi_frame E stack) (set_abi_bin E account abi)"
  by (auto simp: within_def set_abi_bin_def abi_frame_def split: prod.splits)

lemma within_clear [within_intros]: "within (abi_frame E stack) (clear_contract_abi E account)"
  unfolding clear_contract_abi_def
  by (intro within_intros) (auto intro!: within_intros simp: table_op_defs)

lemma within_imported [within_intros]:
  "within (abi_frame E stack) (updates (\<lambda>s. s\<lparr>contract_abi_imported := f s\<rparr>))"
  by (intro within_intros) (simp add: abi_frame_def)

lemma within_save [within_intros]: "within (abi_frame E stack) (save_contract_abi E account data)"
  unfolding save_contract_abi_def
  by (intro within_intros)
    (auto intro!: within_intros simp: table_op_defs split: if_splits)

lemma save_contract_abi_runs:
  assumes "contract_abi_ctxt s = Some c"
  shows "wp False (save_contract_abi E account data)
    (\<lambda>_ t. \<exists>d. contract_abi_ctxt t = Some d
      \<and> loaded d = (let l = if account \<in> contract_abi_imported s then Map.empty else loaded c
                   in if valid_abi data then l(account \<mapsto> data) else l)
      \<and> contract_abi_imported t = (let i = if account \<in> contract_abi_imported s then {} else contract_abi_imported s
                   in if valid_abi data then insert account i else i)
      \<and> tables_of E t = modify_abi_history (HistKey account (head s)) data
           (if valid_abi data then modify_contract_abi account data (tables_of E s) else tables_of E s)
      \<and> stack (db t) = stack (db s) \<and> cb_revision (cb E) (db t) = cb_revision (cb E) (db s)) (\<lambda>_ _. False) s"
proof -
  obtain d where d: "abieos_set_abi_bin (abilib E) account data
      (Some (if account \<in> contract_abi_imported s then abieos_create (abilib E) else c)) = (Some d, valid_abi data)"
    "loaded d = (if valid_abi data
       then (loaded (if account \<in> contract_abi_imported s then abieos_create (abilib E) else c))(account \<mapsto> data)
       else loaded (if account \<in> contract_abi_imported s then abieos_create (abilib E) else c))"
    by (rule set_cases)
  show ?thesis
    using assms d
    by (cases "account \<in> contract_abi_imported s"; cases "valid_abi data")
      (simp_all add: save_contract_abi_def wp_simps create_contract_abi_fresh create_empty
        write_tables write_stack write_revision split: option.splits sum.splits)
qed

lemma clear_contract_abi_runs:
  assumes "contract_abi_ctxt s = Some c"
  shows "wp False (clear_contract_abi E account)
    (\<lambda>_ t. \<exists>d. contract_abi_ctxt t = Some d
      \<and> loaded d = (if account \<in> contract_abi_imported s then Map.empty else loaded c)
      \<and> contract_abi_imported t = (if account \<in> contract_abi_imported s then {} else contract_abi_imported s)
      \<and> tables_of E t = (if map_of (abi_rows (tables_of E s)) account = None then tables_of E s
           else modify_abi_history (HistKey account (head s)) [] (remove_contract_abi account (tables_of E s)))
      \<and> stack (db t) = stack (db s) \<and> cb_revision (cb E) (db t) = cb_revision (cb E) (db s)) (\<lambda>_ _. False) s"
  using assms
  by (simp add: clear_contract_abi_def wp_simps create_empty write_tables write_stack write_revision
      split: option.splits)

lemma get_contract_abi_ready_runs:
  assumes "contract_abi_ctxt s = Some c" and "\<not> interactive_mode (cfg E)" and "lock \<Longrightarrow> \<not> dblock s"
    and "account \<notin> contract_abi_imported s"
  shows "wp False (get_contract_abi_ready E account lock)
    (\<lambda>ready t. case map_of (abi_rows (tables_of E s)) account of
        None \<Rightarrow> \<not> ready \<and> t = s
      | Some abi \<Rightarrow> ready \<and> db t = db s \<and> contract_abi_imported t = insert account (contract_abi_imported s)
          \<and> (\<exists>d. contract_abi_ctxt t = Some d
          \<and> loaded d = (if valid_abi abi then (loaded c)(account \<mapsto> abi) else loaded c))) (\<lambda>_ _. False) s"
proof (cases "map_of (abi_rows (tables_of E s)) account")
  case None
  with assms show ?thesis by (simp add: get_contract_abi_ready_def wp_simps)
next
  case (Some abi)
  obtain d where "abieos_set_abi_bin (abilib E) account abi (Some c) = (Some d, valid_abi abi)"
    "loaded d = (if valid_abi abi then (loaded c)(account \<mapsto> abi) else loaded c)"
    by (rule set_cases)
  with assms Some show ?thesis by (cases lock) (simp_all add: get_contract_abi_ready_def wp_simps)
qed

lemma coherent_init:
  "abi_cache_coherent E loaded valid_abi s \<Longrightarrow> 
    wp False (init_contract_abi_ctxt E) (\<lambda>_. abi_cache_coherent E loaded valid_abi) X s"
  by (auto simp: wp_simps abi_cache_coherent_def)

lemma coherent_save:
  assumes "abi_cache_coherent E loaded valid_abi s"
  shows "wp False (save_contract_abi E account data) (\<lambda>_. abi_cache_coherent E loaded valid_abi) X s"
proof -
  obtain c where c: "contract_abi_ctxt s = Some c" using assms by (auto simp: abi_cache_coherent_def)
  show ?thesis
    by (rule wp_mono [OF save_contract_abi_runs [OF c]])
      (use assms c in \<open>auto simp: abi_cache_coherent_def table_op_defs Let_def split: if_splits\<close>)
qed

lemma coherent_clear:
  assumes "abi_cache_coherent E loaded valid_abi s"
  shows "wp False (clear_contract_abi E account) (\<lambda>_. abi_cache_coherent E loaded valid_abi) X s"
proof -
  obtain c where c: "contract_abi_ctxt s = Some c" using assms by (auto simp: abi_cache_coherent_def)
  show ?thesis
    by (rule wp_mono [OF clear_contract_abi_runs [OF c]])
      (use assms c in \<open>auto simp: abi_cache_coherent_def table_op_defs split: if_splits\<close>)
qed

text \<open>In scan mode the context then holds exactly the ABI of the row.\<close>

lemma coherent_ready:
  assumes "abi_cache_coherent E loaded valid_abi s" and "\<not> interactive_mode (cfg E)" and "lock \<Longrightarrow> \<not> dblock s"
  shows "wp False (get_contract_abi_ready E account lock)
    (\<lambda>ready t. abi_cache_coherent E loaded valid_abi t \<and> db t = db s
       \<and> (ready \<longleftrightarrow> map_of (abi_rows (tables_of E s)) account \<noteq> None)
       \<and> (ready \<longrightarrow> loaded (the (contract_abi_ctxt t)) account = map_of (abi_rows (tables_of E s)) account))
    X s"
proof -
  obtain c where c: "contract_abi_ctxt s = Some c" using assms by (auto simp: abi_cache_coherent_def)
  show ?thesis
  proof (cases "account \<in> contract_abi_imported s")
    case True
    with assms c show ?thesis
      by (auto simp: get_contract_abi_ready_def wp_simps abi_cache_coherent_def)
  next
    case False
    show ?thesis
      by (rule wp_mono [OF get_contract_abi_ready_runs [OF c assms(2,3) False]])
        (use assms(1) c in \<open>auto simp: abi_cache_coherent_def split: option.splits if_splits\<close>)
  qed
qed

end

section \<open>A concrete environment and a new receiver\<close>

text \<open>
  The members as their initialisers leave them; those without an initialiser hold whatever
  the memory held, which is an argument.
\<close>

definition new_receiver :: "'db \<Rightarrow> u32 \<Rightarrow> block_header \<Rightarrow> u32 \<Rightarrow> ('db, 'ctx) receiver" where
  "new_receiver d end_block junk_header junk = \<lparr>
     db = d, dblock = False, stream_open = False, aborting = False, receiver_ready = False,
     interactive_req_queue = [], interactive_req_pending = False, end_block_num = end_block,
     head = 0, head_id = 0, irreversible = 0, irreversible_id = 0,
     block_header = junk_header, trx_count = junk, received_blocks = 0,
     abi_types = Map.empty, contract_abi_ctxt = None, contract_abi_imported = {},
     exporter_will_ack = False, exporter_acked_block = 0, exporter_max_unconfirmed = junk,
     forked_at_block = 0, pause_time_msec = 0, slowdown_requested = False,
     stale_check_last_head = junk, reading = False, pause_timer = None, stale_timer = None,
     quitting = False, published = [], sent = []\<rparr>"

definition default_config :: config where
  "default_config = \<lparr>
     interactive_mode = False, noexport_mode = False, skip_block_events = False,
     skip_table_deltas = False, skip_traces = False, skip_account_info = False,
     irreversible_only = False, start_block_num = 0, max_queue_size = 10000,
     stale_check_deadline_msec = 10000,
     enable_rcvr_filter = False, rcvr_filter = {}, enable_auth_filter = False, auth_filter = {},
     blacklist_actions = Map.empty, enable_tables_filter = False, tables_filter = {},
     enable_tables_blacklist = False, tables_blacklist = {},
     do_trace_filter = False, do_trace_blacklist = False\<rparr>"

type_synonym run_db = "(undo_list, (u64 \<times> bytes) list) env"

text \<open>Decoders that refuse everything; a concrete run replaces those it uses.\<close>

definition past_end :: "bytes \<Rightarrow> error + 'a" where
  "past_end b = Inl (Runtime_error ''read past end'')"

definition no_decoders :: ship where
  "no_decoders = \<lparr>
     varuint32_from_bin = past_end, result_from_bin = past_end, signed_block_from_bin = past_end,
     table_delta_from_bin = past_end, account_from_bin = past_end, contract_row_from_bin = past_end,
     permission_from_bin = past_end, permission_link_from_bin = past_end,
     account_metadata_from_bin = past_end, abi_def_from_bin = past_end, trace_from_bin = past_end,
     abi_from_json = past_end,
     request_to_bin = (\<lambda>_ _. Inl (Runtime_error ''cannot encode''))\<rparr>"

text \<open>The environment of the concrete runs: an ABI is valid when it starts with a 1.\<close>

definition starts_with_1 :: "bytes \<Rightarrow> bool" where
  "starts_with_1 b = (case b of [] \<Rightarrow> False | x # _ \<Rightarrow> x = 1)"

definition run_env :: "ship \<Rightarrow> config \<Rightarrow> run_db" where
  "run_env sh c = \<lparr>cb = undo_list_db, abilib = abi_list_lib starts_with_1, ship = sh, cfg = c,
     has_subscribers = (\<lambda>_. True)\<rparr>"

lemma run_env_simps [simp]:
  "cb (run_env sh c) = undo_list_db" "abilib (run_env sh c) = abi_list_lib starts_with_1"
  "ship (run_env sh c) = sh" "cfg (run_env sh c) = c" "has_subscribers (run_env sh c) ch"
  by (simp_all add: run_env_def)

interpretation run_store: abi_store "run_env sh c" ul_stack map_of starts_with_1 for sh c
  unfolding abi_store_def by (simp add: undo_list.undo_database_axioms abi_list.abi_library_axioms)

section \<open>Looking an ABI up in the history\<close>

text \<open>The reverse index starts, for a block, with the latest entry at or before it.\<close>

lemma rev_lower_bound_latest:
  assumes "map_of (hist_rows t) (HistKey a b) = Some abi" and "b \<le> h"
    and latest: "\<And>b'. b < b' \<Longrightarrow> b' \<le> h \<Longrightarrow> map_of (hist_rows t) (HistKey a b') = None"
  shows "rev_lower_bound a h t = Some (RevKey a b, abi)"
proof (cases "rev_lower_bound a h t")
  case None
  have "map_of (rev_rows t) (RevKey a b) = Some abi" using assms(1) by (simp add: map_of_rev_rows)
  moreover have "RevKey a h \<le> RevKey a b" using assms(2) by (simp add: less_eq_rev_key_def)
  ultimately show ?thesis using None by (auto simp: rev_lower_bound_None)
next
  case (Some r)
  obtain a' b' abi' where r: "r = (RevKey a' b', abi')" by (metis rev_key.exhaust surj_pair)
  note least = rev_lower_bound_Some [OF Some [unfolded r]]
  have upper: "RevKey a' b' \<le> RevKey a b"
  proof -
    have "RevKey a h \<le> RevKey a b" using assms(2) by (simp add: less_eq_rev_key_def)
    moreover have "map_of (rev_rows t) (RevKey a b) \<noteq> None" using assms(1) by (simp add: map_of_rev_rows)
    ultimately show ?thesis using least by blast
  qed
  have lower: "RevKey a h \<le> RevKey a' b'" using least by simp
  from upper lower have "a' = a" and "b \<le> b'" and "b' \<le> h"
    by (auto simp: less_eq_rev_key_def)
  moreover from least have "map_of (hist_rows t) (HistKey a' b') = Some abi'" by (simp add: map_of_rev_rows)
  ultimately have "b' = b" using latest [of b'] by force
  with Some r \<open>a' = a\<close> least assms(1) show ?thesis by (simp add: map_of_rev_rows)
qed

text \<open>
  C16: In interactive mode, when the history has an entry for the account at or before the
  block being decoded, the lookup succeeds and loads the latest such entry into the context;
  the database is not touched and the mutex is released. An entry made in the block itself
  counts, where \<open>docs/overview.md\<close> speaks of the latest copy from a block below it.
\<close>

theorem interactive_abi_lookup:
  assumes "interactive_mode (cfg E)" and "account \<notin> contract_abi_imported s" and "lock \<longrightarrow> \<not> dblock s"
    and "map_of (hist_rows (tables_of E s)) (HistKey account b) = Some abi" and "b \<le> head s"
    and "\<forall>b'. b < b' \<and> b' \<le> head s \<longrightarrow> map_of (hist_rows (tables_of E s)) (HistKey account b') = None"
  shows "get_contract_abi_ready E account lock s = Return True (s\<lparr>
     contract_abi_ctxt := fst (abieos_set_abi_bin (abilib E) account abi (contract_abi_ctxt s)),
     contract_abi_imported := insert account (contract_abi_imported s)\<rparr>)"
proof -
  have "rev_lower_bound account (head s) (tables_of E s) = Some (RevKey account b, abi)"
    by (rule rev_lower_bound_latest) (use assms in auto)
  with assms show ?thesis
    by (cases lock)
      (simp_all add: get_contract_abi_ready_def op_defs lock_mutex_def unlock_mutex_def set_abi_bin_def
        case_prod_beta)
qed

text \<open>A history with two versions of one contract's ABI and one of another's.\<close>

definition history_example :: tables where
  "history_example = empty_tables\<lparr>hist_rows :=
     [(HistKey 5 10, [1, 7]), (HistKey 5 20, [1, 8]), (HistKey 9 3, [1, 9])]\<rparr>"

definition interactive_example :: "ship \<Rightarrow> u32 \<Rightarrow> (undo_list, (u64 \<times> bytes) list) receiver" where
  "interactive_example sh h = (new_receiver
     \<lparr>ul_tables = history_example, ul_stack = [], ul_revision = 30\<rparr> 100
     \<lparr>bh_timestamp = 0, bh_producer = 0, bh_previous = 0, bh_transaction_mroot = 0, bh_action_mroot = 0\<rparr> 0)
     \<lparr>head := h, contract_abi_ctxt := Some []\<rparr>"

theorem interactive_abi_lookup_witness:
  "\<forall>sh. get_contract_abi_ready (run_env sh (default_config\<lparr>interactive_mode := True\<rparr>)) 5 True (interactive_example sh 15)
     = Return True ((interactive_example sh 15)\<lparr>contract_abi_ctxt := Some [(5, [1, 7])], contract_abi_imported := {5}\<rparr>)"
proof
  fix sh
  show "get_contract_abi_ready (run_env sh (default_config\<lparr>interactive_mode := True\<rparr>)) 5 True (interactive_example sh 15)
     = Return True ((interactive_example sh 15)\<lparr>contract_abi_ctxt := Some [(5, [1, 7])], contract_abi_imported := {5}\<rparr>)"
    using interactive_abi_lookup [of "run_env sh (default_config\<lparr>interactive_mode := True\<rparr>)" 5
        "interactive_example sh 15" True 10 "[1, 7]"]
    by (auto simp: interactive_example_def new_receiver_def history_example_def empty_tables_def
        undo_list_db_def abi_list_lib_def starts_with_1_def default_config_def word_less_nat_alt word_le_nat_alt)
qed

text \<open>
  C17: The lookup compares the key as a whole. For an account without an entry at or before the
  block it therefore reports that there is no ABI only when no account with a greater name has
  an entry either; when one has, it reports success and loads an ABI of another account as this
  account's.
\<close>

theorem interactive_abi_lookup_other_account:
  assumes "interactive_mode (cfg E)" and "account \<notin> contract_abi_imported s" and "lock \<longrightarrow> \<not> dblock s"
    and "\<forall>b \<le> head s. map_of (hist_rows (tables_of E s)) (HistKey account b) = None"
  shows "if \<exists>a b. account < a \<and> map_of (hist_rows (tables_of E s)) (HistKey a b) \<noteq> None
    then \<exists>a b abi. account < a \<and> map_of (hist_rows (tables_of E s)) (HistKey a b) = Some abi
      \<and> get_contract_abi_ready E account lock s = Return True (s\<lparr>
         contract_abi_ctxt := fst (abieos_set_abi_bin (abilib E) account abi (contract_abi_ctxt s)),
         contract_abi_imported := insert account (contract_abi_imported s)\<rparr>)
    else get_contract_abi_ready E account lock s = Return False s"
proof (cases "rev_lower_bound account (head s) (tables_of E s)")
  case None
  then have "map_of (hist_rows (tables_of E s)) (HistKey a b) = None" if "account < a" for a b
    using that unfolding rev_lower_bound_None map_of_rev_rows [symmetric] by (simp add: less_eq_rev_key_def)
  moreover have "get_contract_abi_ready E account lock s = Return False s"
    using assms(1-3) None
    by (cases lock; cases s) (simp_all add: get_contract_abi_ready_def op_defs lock_mutex_def unlock_mutex_def)
  ultimately show ?thesis by auto
next
  case (Some r)
  obtain a b abi where "r = (RevKey a b, abi)" by (metis rev_key.exhaust surj_pair)
  note r = Some [unfolded this]
  note least = rev_lower_bound_Some [OF r]
  then have entry: "map_of (hist_rows (tables_of E s)) (HistKey a b) = Some abi" by (simp add: map_of_rev_rows)
  have "account < a"
  proof -
    have "RevKey account (head s) \<le> RevKey a b" using least by simp
    then show ?thesis using assms(4) entry by (auto simp: less_eq_rev_key_def)
  qed
  moreover have "get_contract_abi_ready E account lock s = Return True (s\<lparr>
       contract_abi_ctxt := fst (abieos_set_abi_bin (abilib E) account abi (contract_abi_ctxt s)),
       contract_abi_imported := insert account (contract_abi_imported s)\<rparr>)"
    using assms(1,2,3) r
    by (cases lock)
      (simp_all add: get_contract_abi_ready_def op_defs lock_mutex_def unlock_mutex_def set_abi_bin_def
        case_prod_beta)
  ultimately show ?thesis using entry by auto
qed

theorem interactive_abi_lookup_other_account_witness:
  "\<forall>sh. \<exists>a b abi. 6 < a \<and> map_of (hist_rows history_example) (HistKey a b) = Some abi
    \<and> get_contract_abi_ready (run_env sh (default_config\<lparr>interactive_mode := True\<rparr>)) 6 True (interactive_example sh 2)
      = Return True ((interactive_example sh 2)\<lparr>contract_abi_ctxt := Some [(6, abi)], contract_abi_imported := {6}\<rparr>)"
proof
  fix sh
  let ?E = "run_env sh (default_config\<lparr>interactive_mode := True\<rparr>)"
  let ?s = "interactive_example sh 2"
  have t: "cb_tables undo_list_db (db ?s) = history_example" "contract_abi_ctxt ?s = Some []" "contract_abi_imported ?s = {}"
    "head ?s = 2" "\<not> dblock ?s"
    by (simp_all add: interactive_example_def new_receiver_def undo_list_db_def)
  have hist: "map_of (hist_rows history_example) k = (if k = HistKey 5 10 then Some [1, 7]
      else if k = HistKey 5 20 then Some [1, 8] else if k = HistKey 9 3 then Some [1, 9] else None)" for k
    by (simp add: history_example_def)
  have "\<exists>a b abi. 6 < a \<and> map_of (hist_rows (tables_of ?E ?s)) (HistKey a b) = Some abi
    \<and> get_contract_abi_ready ?E 6 True ?s = Return True (?s\<lparr>
       contract_abi_ctxt := fst (abieos_set_abi_bin (abilib ?E) 6 abi (contract_abi_ctxt ?s)),
       contract_abi_imported := insert 6 (contract_abi_imported ?s)\<rparr>)"
  proof -
    have "\<exists>a b. 6 < a \<and> map_of (hist_rows (tables_of ?E ?s)) (HistKey a b) \<noteq> None"
      by (rule exI [of _ 9], rule exI [of _ 3]) (simp add: t hist word_less_nat_alt)
    moreover have "\<forall>b \<le> head ?s. map_of (hist_rows (tables_of ?E ?s)) (HistKey 6 b) = None" by (simp add: t hist)
    ultimately show ?thesis
      using interactive_abi_lookup_other_account [of ?E 6 ?s True] by (simp add: t default_config_def)
  qed
  then obtain a b abi where r: "6 < a" "map_of (hist_rows history_example) (HistKey a b) = Some abi"
    "get_contract_abi_ready ?E 6 True ?s = Return True (?s\<lparr>
       contract_abi_ctxt := fst (abieos_set_abi_bin (abilib ?E) 6 abi (Some [])), contract_abi_imported := {6}\<rparr>)"
    by (auto simp: t)
  moreover have "starts_with_1 abi" using r(2) by (auto simp: hist starts_with_1_def split: if_splits)
  ultimately show "\<exists>a b abi. 6 < a \<and> map_of (hist_rows history_example) (HistKey a b) = Some abi
    \<and> get_contract_abi_ready ?E 6 True ?s = Return True (?s\<lparr>contract_abi_ctxt := Some [(6, abi)], contract_abi_imported := {6}\<rparr>)"
    by (intro exI [of _ a] exI [of _ b] exI [of _ abi]) (simp add: abi_list_lib_def)
qed

end
