(* ===== verification/Revisions.thy ===== *)
theory Revisions
  imports AbiStore
begin

text \<open>
  The receiver's state in the undo database: saving and loading it, reverting what was not
  committed, rolling back at a fork, and committing what can no longer be rolled back.
\<close>

section \<open>Operations\<close>

text \<open>\<open>while (cond) db->undo()\<close>, which may not end.\<close>

definition undo_while :: "('db, 'ctx) env \<Rightarrow> ('db \<Rightarrow> bool) \<Rightarrow> ('db, 'ctx, unit) rop" where
  "undo_while E cond = (\<lambda>s. case while_option cond (cb_undo (cb E)) (db s) of
      None \<Rightarrow> Diverge
    | Some d \<Rightarrow> Return () (s\<lparr>db := d\<rparr>))"

text \<open>Gives the number of revisions it reverted.\<close>

definition revert_uncommitted_revisions :: "('db, 'ctx) env \<Rightarrow> ('db, 'ctx, u32) rop" where
  "revert_uncommitted_revisions E = scoped_lock (inspect (\<lambda>s.
     if cb_has_undo_session (cb E) (db s) then
       let range = cb_undo_range (cb E) (db s);
           depth = word_of_int (snd range - fst range)
       in andThen (undo_while E (cb_has_undo_session (cb E))) (\<lambda>_. ret depth)
     else ret 0))"

definition issue_fork :: "fork_event \<Rightarrow> ('db, 'ctx, unit) rop" where
  "issue_fork fe = stmts [
     updates (\<lambda>s. s\<lparr>forked_at_block := fe_block_num fe\<rparr>),
     publish (Fork fe)]"

definition load_state :: "('db, 'ctx) env \<Rightarrow> ('db, 'ctx, unit) rop" where
  "load_state E = andThen (revert_uncommitted_revisions E) (\<lambda>depth. stmts [
     inspect (\<lambda>s. case state_rows (tables_of E s) of
         o' # _ \<Rightarrow> stmts [
           updates (\<lambda>s. s\<lparr>head := so_head o', head_id := so_head_id o', irreversible := so_irreversible o',
             irreversible_id := so_irreversible_id o'\<rparr>),
           whenM (start_block_num (cfg E) > 0)
             (throw (Runtime_error ''start-block can only be specified for initial startup. This Chronicle instance has its state database already''))]
       | [] \<Rightarrow> stmts [
           whenM (start_block_num (cfg E) > 0)
             (updates (\<lambda>s. s\<lparr>head := start_block_num (cfg E) - 1\<rparr>)),
           inspect (\<lambda>s. issue_fork \<lparr>fe_block_num = head s + 1, fe_depth = 0, fe_fork_reason = Resync,
             fe_last_irreversible = 0\<rparr>)]),
     whenM (depth > 0) (inspect (\<lambda>s. issue_fork \<lparr>fe_block_num = head s + 1, fe_depth = depth,
       fe_fork_reason = Restart, fe_last_irreversible = irreversible s\<rparr>)),
     inspect (\<lambda>s. whenM (exporter_will_ack s) (updates (\<lambda>s. s\<lparr>exporter_acked_block := head s\<rparr>))),
     inspect (\<lambda>s. whenM (head s \<ge> end_block_num s)
       (throw (Runtime_error ''Head is already at or past end block number''))),
     init_contract_abi_ctxt E])"

definition save_state :: "('db, 'ctx) env \<Rightarrow> ('db, 'ctx, unit) rop" where
  "save_state E = inspect (\<lambda>s.
     let o' = \<lparr>so_head = head s, so_head_id = head_id s, so_irreversible = irreversible s,
               so_irreversible_id = irreversible_id s\<rparr>
     in write_tables E (\<lambda>t. case state_rows t of
          [] \<Rightarrow> create_state o' t
        | _ # rest \<Rightarrow> t\<lparr>state_rows := o' # rest\<rparr>))"

definition commit_db :: "('db, 'ctx) env \<Rightarrow> ('db, 'ctx, unit) rop" where
  "commit_db E = updates (\<lambda>s.
     let commit_rev = (if exporter_will_ack s \<and> exporter_acked_block s < irreversible s
                       then exporter_acked_block s else irreversible s)
     in s\<lparr>db := cb_commit (cb E) (uint commit_rev) (db s)\<rparr>)"

text \<open>The rollback at a fork.\<close>

definition rollback :: "('db, 'ctx) env \<Rightarrow> u32 \<Rightarrow> ('db, 'ctx, unit) rop" where
  "rollback E block_num = stmts [
     undo_while E (\<lambda>d. cb_revision (cb E) d \<ge> uint block_num),
     inspect (\<lambda>s. whenM (cb_revision (cb E) (db s) \<le> 0)
       (throw (Runtime_error (''Cannot rollback, no undo stack at revision '' @
          decimal_int (cb_revision (cb E) (db s))))))]"

text \<open>
  \<open>db->start_undo_session(true)\<close> at the head of a block that ends with \<open>push()\<close>: leaving the
  block by an exception undoes the session.
\<close>

definition undo_session :: "('db, 'ctx) env \<Rightarrow> ('db, 'ctx, unit) rop \<Rightarrow> ('db, 'ctx, unit) rop" where
  "undo_session E body = (\<lambda>s.
     case body (s\<lparr>db := cb_start_session (cb E) (db s)\<rparr>) of
       Return a t \<Rightarrow> Return a t
     | Throw e t \<Rightarrow> Throw e (t\<lparr>db := cb_undo (cb E) (db t)\<rparr>)
     | Diverge \<Rightarrow> Diverge
     | Undefined \<Rightarrow> Undefined)"

section \<open>The versions of the database\<close>

text \<open>
  The abstract state: the tables at the current revision, followed by those at each earlier
  revision that can still be restored. Undoing drops the first, a session pushes one,
  committing drops the last ones.
\<close>

definition versions :: "'db chainbase \<Rightarrow> ('db \<Rightarrow> tables list) \<Rightarrow> 'db \<Rightarrow> tables list" where
  "versions c stack d = cb_tables c d # stack d"

text \<open>The oldest revision that can be restored.\<close>

definition oldest :: "'db chainbase \<Rightarrow> ('db \<Rightarrow> tables list) \<Rightarrow> 'db \<Rightarrow> int" where
  "oldest c stack d = cb_revision c d - int (length (stack d))"

context undo_database
begin

lemma versions_undo: "stack d \<noteq> [] \<Longrightarrow> versions cb stack (cb_undo cb d) = tl (versions cb stack d)"
  by (cases "stack d") (simp_all add: versions_def undo_tables undo_stack)

lemma oldest_undo [simp]: "oldest cb stack (cb_undo cb d) = oldest cb stack d"
  using undo_floor by (simp add: oldest_def)

lemma versions_start: "versions cb stack (cb_start_session cb d) = cb_tables cb d # versions cb stack d"
  by (simp add: versions_def start_tables start_stack)

lemma oldest_start [simp]: "oldest cb stack (cb_start_session cb d) = oldest cb stack d"
  by (simp add: oldest_def start_stack start_revision)

lemma versions_write: "versions cb stack (cb_write cb t d) = t # tl (versions cb stack d)"
  by (simp add: versions_def write_tables write_stack)

lemma oldest_write [simp]: "oldest cb stack (cb_write cb t d) = oldest cb stack d"
  by (simp add: oldest_def write_stack write_revision)

lemma versions_commit:
  "versions cb stack (cb_commit cb r d) = take (Suc (nat (cb_revision cb d - r))) (versions cb stack d)"
  by (simp add: versions_def commit_tables commit_stack)

lemma oldest_commit:
  "oldest cb stack (cb_commit cb r d) = max (oldest cb stack d) (min r (cb_revision cb d))"
  by (auto simp: oldest_def commit_stack commit_revision)

text \<open>Undoing down to below a revision ends exactly when that revision is above the floor.\<close>

lemma undo_loop:
  assumes "oldest cb stack d < b"
  shows "\<exists>d'. while_option (\<lambda>d. b \<le> cb_revision cb d) (cb_undo cb) d = Some d'
    \<and> cb_revision cb d' = min (cb_revision cb d) (b - 1)
    \<and> versions cb stack d' = drop (nat (cb_revision cb d - (b - 1))) (versions cb stack d)
    \<and> oldest cb stack d' = oldest cb stack d"
  using assms
proof (induction "stack d" arbitrary: d)
  case Nil
  then have "cb_revision cb d < b" by (simp add: oldest_def)
  then show ?case by (subst while_option_unfold) (simp add: min_def)
next
  case (Cons t ts)
  show ?case
  proof (cases "b \<le> cb_revision cb d")
    case True
    let ?u = "cb_undo cb d"
    have u: "stack ?u = ts" "cb_revision cb ?u = cb_revision cb d - 1" "versions cb stack ?u = tl (versions cb stack d)"
      using Cons.hyps(2) undo_stack undo_revision versions_undo by (metis list.distinct(1))+
    obtain d' where d': "while_option (\<lambda>d. b \<le> cb_revision cb d) (cb_undo cb) ?u = Some d'"
      "cb_revision cb d' = min (cb_revision cb ?u) (b - 1)"
      "versions cb stack d' = drop (nat (cb_revision cb ?u - (b - 1))) (versions cb stack ?u)"
      "oldest cb stack d' = oldest cb stack d"
      using Cons.hyps(1) [of ?u] Cons.prems u(1) by auto
    have "nat (cb_revision cb d - (b - 1)) = Suc (nat (cb_revision cb d - 1 - (b - 1)))" using True by simp
    then have "versions cb stack d' = drop (nat (cb_revision cb d - (b - 1))) (versions cb stack d)"
      using d'(3) u by (simp add: drop_Suc)
    then show ?thesis using d' u True by (subst while_option_unfold) auto
  qed (subst while_option_unfold, simp add: min_def)
qed

lemma undo_loop_diverges:
  assumes "b \<le> oldest cb stack d"
  shows "while_option (\<lambda>d. b \<le> cb_revision cb d) (cb_undo cb) d = None"
proof (rule ccontr)
  assume "while_option (\<lambda>d. b \<le> cb_revision cb d) (cb_undo cb) d \<noteq> None"
  then obtain d' where d': "while_option (\<lambda>d. b \<le> cb_revision cb d) (cb_undo cb) d = Some d'" by blast
  have "b \<le> oldest cb stack d'"
    by (rule while_option_rule [where P = "\<lambda>d. b \<le> oldest cb stack d", OF _ d' assms]) simp
  then have "b \<le> cb_revision cb d'" by (simp add: oldest_def)
  moreover have "\<not> b \<le> cb_revision cb d'" using while_option_stop [OF d'] by simp
  ultimately show False by simp
qed

lemma revert_loop:
  "\<exists>d'. while_option (cb_has_undo_session cb) (cb_undo cb) d = Some d'
    \<and> stack d' = [] \<and> cb_tables cb d' = last (versions cb stack d) \<and> cb_revision cb d' = oldest cb stack d"
proof (induction "stack d" arbitrary: d)
  case Nil
  then show ?case
    by (subst while_option_unfold) (simp add: has_undo_session versions_def oldest_def)
next
  case (Cons t ts)
  then have "stack (cb_undo cb d) = ts" by (metis undo_stack)
  with Cons.hyps(1) [of "cb_undo cb d"] obtain d' where
    "while_option (cb_has_undo_session cb) (cb_undo cb) (cb_undo cb d) = Some d'"
    "stack d' = []" "cb_tables cb d' = last (versions cb stack (cb_undo cb d))"
    "cb_revision cb d' = oldest cb stack (cb_undo cb d)" by auto
  then show ?case
    using Cons.hyps(2) by (subst while_option_unfold)
      (auto simp: has_undo_session versions_undo, auto simp: versions_def)
qed

end

section \<open>Rolling back at a fork\<close>

lemma wp_undo_while [wp_simps]:
  "wp D (undo_while E cond) Q X s = (case while_option cond (cb_undo (cb E)) (db s) of
      None \<Rightarrow> D | Some d \<Rightarrow> Q () (s\<lparr>db := d\<rparr>))"
  by (simp add: undo_while_def wp_def split: option.splits)

text \<open>
  C3: A rollback to a block above the oldest restorable revision (and above block 1) ends; it
  leaves the database at the revision before that block, with the tables as they were at that
  revision and every older version still restorable, and changes nothing else.
\<close>

theorem rollback_restores:
  assumes "undo_database (cb E) stack" and "oldest (cb E) stack (db s) < uint block_num"
    and "uint block_num \<le> cb_revision (cb E) (db s)" and "1 < block_num"
  shows "\<exists>d. rollback E block_num s = Return () (s\<lparr>db := d\<rparr>)
    \<and> cb_revision (cb E) d = uint block_num - 1
    \<and> versions (cb E) stack d =
        drop (nat (cb_revision (cb E) (db s) - (uint block_num - 1))) (versions (cb E) stack (db s))
    \<and> oldest (cb E) stack d = oldest (cb E) stack (db s)"
proof -
  obtain d where d: "while_option (\<lambda>d. uint block_num \<le> cb_revision (cb E) d) (cb_undo (cb E)) (db s) = Some d"
    "cb_revision (cb E) d = uint block_num - 1"
    "versions (cb E) stack d =
        drop (nat (cb_revision (cb E) (db s) - (uint block_num - 1))) (versions (cb E) stack (db s))"
    "oldest (cb E) stack d = oldest (cb E) stack (db s)"
    using undo_database.undo_loop [OF assms(1,2)] assms(3) by auto
  have "1 < uint block_num" using assms(4) by (simp add: word_less_def)
  then have "rollback E block_num s = Return () (s\<lparr>db := d\<rparr>)"
    using d(1,2) by (simp add: rollback_def undo_while_def op_defs)
  with d show ?thesis by blast
qed

definition rollback_run :: "(undo_list, (u64 \<times> bytes) list) receiver" where
  "rollback_run = new_receiver \<lparr>ul_tables = empty_tables\<lparr>abi_rows := [(1, [3])]\<rparr>,
       ul_stack = [empty_tables\<lparr>abi_rows := [(1, [2])]\<rparr>, empty_tables\<lparr>abi_rows := [(1, [1])]\<rparr>], ul_revision = 12\<rparr> 4294967295
     \<lparr>bh_timestamp = 0, bh_producer = 0, bh_previous = 0, bh_transaction_mroot = 0, bh_action_mroot = 0\<rparr> 0"

theorem rollback_restores_witness:
  "\<exists>d. rollback (run_env no_decoders default_config) 12 rollback_run = Return () (rollback_run\<lparr>db := d\<rparr>)
    \<and> ul_revision d = 11
    \<and> versions undo_list_db ul_stack d = [empty_tables\<lparr>abi_rows := [(1, [2])]\<rparr>, empty_tables\<lparr>abi_rows := [(1, [1])]\<rparr>]"
  using rollback_restores [of "run_env no_decoders default_config" ul_stack rollback_run 12,
      OF _ _ _ , simplified run_env_simps, OF undo_list.undo_database_axioms]
  by (simp add: rollback_run_def new_receiver_def oldest_def versions_def undo_list_db_def word_less_def) blast

text \<open>
  C4: A rollback to a block at or below the oldest restorable revision never ends: the undo
  on an empty stack leaves the revision where it is, and the check for a missing undo stack
  comes only after the loop.
\<close>

theorem rollback_hangs:
  assumes "undo_database (cb E) stack" and "uint block_num \<le> oldest (cb E) stack (db s)"
  shows "rollback E block_num s = Diverge"
proof -
  show ?thesis
    using undo_database.undo_loop_diverges [OF assms(1,2)] by (simp add: rollback_def undo_while_def op_defs)
qed

theorem rollback_hangs_witness:
  "rollback (run_env no_decoders default_config) 10 rollback_run = Diverge"
  using rollback_hangs [of "run_env no_decoders default_config" ul_stack 10 rollback_run,
      simplified run_env_simps, OF undo_list.undo_database_axioms]
  by (simp add: rollback_run_def new_receiver_def oldest_def undo_list_db_def)

section \<open>Restarting\<close>

lemma revert_result:
  assumes "undo_database (cb E) stack"
  shows "\<exists>d. revert_uncommitted_revisions E s = (if dblock s then Diverge else
      Return (word_of_nat (length (stack (db s)))) (s\<lparr>db := d\<rparr>))
    \<and> cb_tables (cb E) d = last (versions (cb E) stack (db s)) \<and> stack d = []
    \<and> cb_revision (cb E) d = oldest (cb E) stack (db s)"
proof -
  note has_undo_session = undo_database.has_undo_session [OF assms]
  note undo_range = undo_database.undo_range [OF assms]
  obtain d where d: "while_option (cb_has_undo_session (cb E)) (cb_undo (cb E)) (db s) = Some d"
    "stack d = []" "cb_tables (cb E) d = last (versions (cb E) stack (db s))"
    "cb_revision (cb E) d = oldest (cb E) stack (db s)"
    using undo_database.revert_loop [OF assms] by blast
  show ?thesis
  proof (cases "dblock s")
    case free: False
    show ?thesis
    proof (cases "stack (db s) = []")
      case True
      then have "d = db s" using d(1) while_option_unfold [of "cb_has_undo_session (cb E)"]
        by (simp add: has_undo_session)
      then show ?thesis
        using d True free
        by (intro exI [of _ d]) (simp add: revert_uncommitted_revisions_def scoped_lock_def lock_mutex_def
            op_defs has_undo_session)
    next
      case False
      then show ?thesis
        using d free
        by (intro exI [of _ d]) (simp add: revert_uncommitted_revisions_def scoped_lock_def lock_mutex_def
            op_defs has_undo_session undo_while_def undo_range Let_def)
    qed
  qed (use d in \<open>auto simp: revert_uncommitted_revisions_def scoped_lock_def lock_mutex_def op_defs\<close>)
qed

text \<open>
  C5: A restart drops every uncommitted revision and resumes from the state saved with the
  oldest one: head and irreversible are those of its state row, the exporter is taken to have
  acknowledged that head, and when anything was dropped an explicit fork event with the
  number of dropped revisions tells the exporters to go back to the block after it, whose
  predecessor must be acknowledged before blocks flow again.
\<close>

theorem load_state_restarts:
  fixes E :: "('db, 'ctx) env"
  assumes "undo_database (cb E) stack" and "\<not> dblock s" and "length (stack (db s)) < 2 ^ 32"
    and "state_rows (last (versions (cb E) stack (db s))) = row # rest"
    and "start_block_num (cfg E) = 0" and "so_head row < end_block_num s"
  shows "\<exists>t. load_state E s = Return () t
    \<and> tables_of E t = last (versions (cb E) stack (db s)) \<and> stack (db t) = []
    \<and> cb_revision (cb E) (db t) = oldest (cb E) stack (db s)
    \<and> (head t, head_id t, irreversible t, irreversible_id t) =
        (so_head row, so_head_id row, so_irreversible row, so_irreversible_id row)
    \<and> exporter_acked_block t = (if exporter_will_ack s then so_head row else exporter_acked_block s)
    \<and> contract_abi_ctxt t = Some (abieos_create (abilib E))
    \<and> forked_at_block t = (if stack (db s) = [] then forked_at_block s else so_head row + 1)
    \<and> published t = published s @ (if stack (db s) = [] then [] else
        [Fork \<lparr>fe_block_num = so_head row + 1, fe_depth = word_of_nat (length (stack (db s))),
           fe_fork_reason = Restart, fe_last_irreversible = so_irreversible row\<rparr>])"
proof -
  obtain d where d: "revert_uncommitted_revisions E s =
      Return (word_of_nat (length (stack (db s)))) (s\<lparr>db := d\<rparr>)"
    "cb_tables (cb E) d = last (versions (cb E) stack (db s))" "stack d = []"
    "cb_revision (cb E) d = oldest (cb E) stack (db s)"
    using revert_result [OF assms(1), of s] assms(2) by auto
  have depth: "(0 :: u32) < word_of_nat (length (stack (db s))) \<longleftrightarrow> stack (db s) \<noteq> []"
    using assms(3) by (simp add: word_less_nat_alt unsigned_of_nat take_bit_nat_eq_self)
  have "wp False (load_state E) (\<lambda>_ t.
    tables_of E t = last (versions (cb E) stack (db s)) \<and> stack (db t) = []
    \<and> cb_revision (cb E) (db t) = oldest (cb E) stack (db s)
    \<and> (head t, head_id t, irreversible t, irreversible_id t) =
        (so_head row, so_head_id row, so_irreversible row, so_irreversible_id row)
    \<and> exporter_acked_block t = (if exporter_will_ack s then so_head row else exporter_acked_block s)
    \<and> contract_abi_ctxt t = Some (abieos_create (abilib E))
    \<and> forked_at_block t = (if stack (db s) = [] then forked_at_block s else so_head row + 1)
    \<and> published t = published s @ (if stack (db s) = [] then [] else
        [Fork \<lparr>fe_block_num = so_head row + 1, fe_depth = word_of_nat (length (stack (db s))),
           fe_fork_reason = Restart, fe_last_irreversible = so_irreversible row\<rparr>])) (\<lambda>_ _. False) s"
    using assms(4,5) d(2,3,4) assms(6)[folded not_le]
    by (simp add: load_state_def wp_simps wp_def [of _ "revert_uncommitted_revisions E"] d(1) depth
        issue_fork_def)
  then show ?thesis by (auto simp: wp_def split: outcome.splits)
qed

definition restart_run :: "(undo_list, (u64 \<times> bytes) list) receiver" where
  "restart_run = new_receiver \<lparr>ul_tables = empty_tables,
       ul_stack = [empty_tables, empty_tables\<lparr>state_rows := [\<lparr>so_head = 10, so_head_id = 110, so_irreversible = 9, so_irreversible_id = 109\<rparr>]\<rparr>],
       ul_revision = 12\<rparr> 4294967295
     \<lparr>bh_timestamp = 0, bh_producer = 0, bh_previous = 0, bh_transaction_mroot = 0, bh_action_mroot = 0\<rparr> 0
     \<lparr>exporter_will_ack := True\<rparr>"

theorem load_state_restarts_witness:
  "\<exists>t. load_state (run_env no_decoders default_config) restart_run = Return () t \<and> head t = 10
    \<and> exporter_acked_block t = 10 \<and> forked_at_block t = 11
    \<and> published t = [Fork \<lparr>fe_block_num = 11, fe_depth = 2, fe_fork_reason = Restart, fe_last_irreversible = 9\<rparr>]"
  using load_state_restarts [of "run_env no_decoders default_config" ul_stack restart_run
      "\<lparr>so_head = 10, so_head_id = 110, so_irreversible = 9, so_irreversible_id = 109\<rparr>" "[]",
      simplified run_env_simps, OF undo_list.undo_database_axioms]
  by (simp add: restart_run_def new_receiver_def versions_def undo_list_db_def default_config_def
      empty_tables_def) blast

end
