(* ===== verification/Deltas.thy ===== *)
theory Deltas
  imports AbiStore
begin

text \<open>
  \<open>receive_deltas\<close> of \<open>receiver_plugin.cpp\<close>, with the type lookups it uses: the account deltas
  maintain the contract ABIs, the other deltas become events.
\<close>

section \<open>Types and variants\<close>

definition get_type :: "string \<Rightarrow> ('db, 'ctx, abi_type) rop" where
  "get_type name = inspect (\<lambda>s. case abi_types s name of
      None \<Rightarrow> throw (Runtime_error (''unknown type '' @ name))
    | Some type \<Rightarrow> ret type)"

text \<open>\<open>vector::at\<close>.\<close>

definition vector_at :: "'a list \<Rightarrow> nat \<Rightarrow> error + 'a" where
  "vector_at xs i = (if i < length xs then Inr (xs ! i) else Inl (Out_of_range ''vector::_M_range_check''))"

text \<open>The two overloads of \<open>check_variant\<close>: they leave the rest of the input.\<close>

definition check_variant_index :: "ship \<Rightarrow> bytes \<Rightarrow> abi_type \<Rightarrow> u32 \<Rightarrow> error + bytes" where
  "check_variant_index sh bin type expected = (case varuint32_from_bin sh bin of
      Inl e \<Rightarrow> Inl e
    | Inr (index, rest) \<Rightarrow> (case at_variant type of
        None \<Rightarrow> Inl (Runtime_error (at_type_name type @ '' is not a variant''))
      | Some var \<Rightarrow>
          if unat index \<ge> length var then
            Inl (Runtime_error (''expected '' @ decimal (unat expected) @ '' got '' @ decimal (unat index)))
          else if index \<noteq> expected then (case vector_at var (unat expected) of
              Inl e \<Rightarrow> Inl e
            | Inr (name, _) \<Rightarrow>
                Inl (Runtime_error (''expected '' @ name @ '' got '' @ fst (var ! unat index))))
          else Inr rest))"

definition check_variant_name :: "ship \<Rightarrow> bytes \<Rightarrow> abi_type \<Rightarrow> string \<Rightarrow> error + bytes" where
  "check_variant_name sh bin type expected = (case varuint32_from_bin sh bin of
      Inl e \<Rightarrow> Inl e
    | Inr (index, rest) \<Rightarrow> (case at_variant type of
        None \<Rightarrow> Inl (Runtime_error (at_type_name type @ '' is not a variant''))
      | Some var \<Rightarrow>
          if unat index \<ge> length var then
            Inl (Runtime_error (''expected '' @ expected @ '' got '' @ decimal (unat index)))
          else if fst (var ! unat index) \<noteq> expected then
            Inl (Runtime_error (''expected '' @ expected @ '' got '' @ fst (var ! unat index)))
          else Inr rest))"

section \<open>The rows of a delta\<close>

text \<open>
  Each function is the body of one \<open>for\<close> loop. It returns the row, whose input stream it has
  advanced.
\<close>

definition account_row :: "('db, 'ctx) env \<Rightarrow> abi_type \<Rightarrow> delta_row \<Rightarrow> ('db, 'ctx, delta_row) rop" where
  "account_row E variant_type row =
     andThen (liftE (check_variant_index (ship E) (dr_data row) variant_type 0)) (\<lambda>data.
       if dr_present row then
         andThen (liftE (account_from_bin (ship E) data)) (\<lambda>(acc, rest).
         andThen (if length (acc_abi acc) = 0 then clear_contract_abi E (acc_name acc)
                  else save_contract_abi E (acc_name acc) (acc_abi acc)) (\<lambda>_.
           ret (row\<lparr>dr_data := rest\<rparr>)))
       else ret (row\<lparr>dr_data := data\<rparr>))"

definition take_row :: "config \<Rightarrow> contract_row \<Rightarrow> bool" where
  "take_row c kvo =
     (let take_it = True;
          take_it = (if enable_tables_filter c \<and> kvo_code kvo \<notin> tables_filter c then False else take_it);
          take_it = (if enable_tables_blacklist c \<and> kvo_code kvo \<in> tables_blacklist c then False else take_it)
      in take_it)"

definition contract_table_row :: "('db, 'ctx) env \<Rightarrow> abi_type \<Rightarrow> delta_row \<Rightarrow> ('db, 'ctx, delta_row) rop" where
  "contract_table_row E variant_type row =
     andThen (liftE (check_variant_index (ship E) (dr_data row) variant_type 0)) (\<lambda>data.
     andThen (liftE (contract_row_from_bin (ship E) data)) (\<lambda>(kvo, rest).
     andThen (whenM (take_row (cfg E) kvo)
       (andThen (get_contract_abi_ready E (kvo_code kvo) (interactive_mode (cfg E))) (\<lambda>ready.
          if ready then inspect (\<lambda>s. publish (Table_row_update \<lparr>
            tru_block_num = head s,
            tru_block_timestamp = bh_timestamp (block_header s),
            tru_added = dr_present row,
            tru_kvo = kvo\<rparr>))
          else inspect (\<lambda>s. publish (Abi_error \<lparr>
            ae_block_num = head s,
            ae_block_timestamp = bh_timestamp (block_header s),
            ae_account = kvo_code kvo,
            ae_error = ''cannot decode table delta because of missing ABI''\<rparr>))))) (\<lambda>_.
       ret (row\<lparr>dr_data := rest\<rparr>))))"

definition permission_row :: "('db, 'ctx) env \<Rightarrow> abi_type \<Rightarrow> delta_row \<Rightarrow> ('db, 'ctx, delta_row) rop" where
  "permission_row E variant_type row =
     andThen (liftE (check_variant_index (ship E) (dr_data row) variant_type 0)) (\<lambda>data.
     andThen (liftE (permission_from_bin (ship E) data)) (\<lambda>(p, rest).
     andThen (inspect (\<lambda>s. publish (Permission_update \<lparr>
       pu_block_num = head s,
       pu_block_timestamp = bh_timestamp (block_header s),
       pu_added = dr_present row,
       pu_permission = p\<rparr>))) (\<lambda>_. ret (row\<lparr>dr_data := rest\<rparr>))))"

definition permission_link_row :: "('db, 'ctx) env \<Rightarrow> abi_type \<Rightarrow> delta_row \<Rightarrow> ('db, 'ctx, delta_row) rop" where
  "permission_link_row E variant_type row =
     andThen (liftE (check_variant_index (ship E) (dr_data row) variant_type 0)) (\<lambda>data.
     andThen (liftE (permission_link_from_bin (ship E) data)) (\<lambda>(p, rest).
     andThen (inspect (\<lambda>s. publish (Permission_link_update \<lparr>
       plu_block_num = head s,
       plu_block_timestamp = bh_timestamp (block_header s),
       plu_added = dr_present row,
       plu_permission_link = p\<rparr>))) (\<lambda>_. ret (row\<lparr>dr_data := rest\<rparr>))))"

definition account_metadata_row :: "('db, 'ctx) env \<Rightarrow> abi_type \<Rightarrow> delta_row \<Rightarrow> ('db, 'ctx, delta_row) rop" where
  "account_metadata_row E variant_type row =
     andThen (liftE (check_variant_index (ship E) (dr_data row) variant_type 0)) (\<lambda>data.
     andThen (liftE (account_metadata_from_bin (ship E) data)) (\<lambda>(m, rest).
     andThen (inspect (\<lambda>s. publish (Account_metadata_update \<lparr>
       amu_block_num = head s,
       amu_block_timestamp = bh_timestamp (block_header s),
       amu_account_metadata = m\<rparr>))) (\<lambda>_. ret (row\<lparr>dr_data := rest\<rparr>))))"

section \<open>The deltas of a block\<close>

text \<open>Which loop runs for a delta, by its name, the options and the subscribers.\<close>

definition delta_rows :: "('db, 'ctx) env \<Rightarrow> abi_type \<Rightarrow> table_delta \<Rightarrow> ('db, 'ctx, delta_row list) rop" where
  "delta_rows E variant_type td =
     (let name = td_name td; rows = td_rows td in
      if \<not> interactive_mode (cfg E) \<and> name = ''account'' then
        mapM rows (account_row E variant_type)
      else if \<not> noexport_mode (cfg E) \<and> \<not> skip_table_deltas (cfg E) then
        if name = ''contract_row'' \<and>
            (has_subscribers E Table_row_updates \<or> has_subscribers E Abi_errors) then
          mapM rows (contract_table_row E variant_type)
        else if \<not> skip_account_info (cfg E) then
          if name = ''permission'' \<and> has_subscribers E Permission_updates then
            mapM rows (permission_row E variant_type)
          else if name = ''permission_link'' \<and> has_subscribers E Permission_link_updates then
            mapM rows (permission_link_row E variant_type)
          else if name = ''account_metadata'' \<and> has_subscribers E Account_metadata_updates then
            mapM rows (account_metadata_row E variant_type)
          else ret rows
        else ret rows
      else ret rows)"

text \<open>
  One round of the loop: the rest of the input after the delta. The event's block number is
  not assigned; \<open>make_shared\<close> leaves it zero.
\<close>

definition receive_delta :: "('db, 'ctx) env \<Rightarrow> bytes \<Rightarrow> ('db, 'ctx, bytes) rop" where
  "receive_delta E bin =
     andThen (get_type ''table_delta'') (\<lambda>delta_type.
     andThen (liftE (check_variant_name (ship E) bin delta_type ''table_delta_v0'')) (\<lambda>data.
     andThen (reads (\<lambda>s. bh_timestamp (block_header s))) (\<lambda>timestamp.
     andThen (liftE (table_delta_from_bin (ship E) data)) (\<lambda>(td, rest).
     andThen (get_type (td_name td)) (\<lambda>variant_type.
     andThen (case at_variant variant_type of
         None \<Rightarrow> throw (Runtime_error (''don't know how to proccess '' @ at_type_name variant_type))
       | Some var \<Rightarrow> andThen (liftE (vector_at var 0)) (\<lambda>(_, is_struct).
           whenM (\<not> is_struct)
             (throw (Runtime_error (''don't know how to proccess '' @ at_type_name variant_type))))) (\<lambda>_.
     andThen (delta_rows E variant_type td) (\<lambda>rows.
     andThen (whenM (has_subscribers E Block_table_deltas) (publish (Block_table_delta \<lparr>
         bltd_block_num = 0,
         bltd_block_timestamp = timestamp,
         bltd_table_delta = td\<lparr>td_rows := rows\<rparr>\<rparr>))) (\<lambda>_.
       ret rest))))))))"

fun receive_deltas_loop :: "('db, 'ctx) env \<Rightarrow> nat \<Rightarrow> bytes \<Rightarrow> ('db, 'ctx, unit) rop" where
  "receive_deltas_loop E 0 bin = ret ()"
| "receive_deltas_loop E (Suc n) bin = andThen (receive_delta E bin) (receive_deltas_loop E n)"

definition receive_deltas :: "('db, 'ctx) env \<Rightarrow> bytes \<Rightarrow> ('db, 'ctx, unit) rop" where
  "receive_deltas E bin = andThen (liftE (varuint32_from_bin (ship E) bin)) (\<lambda>(num, rest).
     receive_deltas_loop E (unat num) rest)"

section \<open>What the deltas keep\<close>

text \<open>
  A function that, called with the mutex free when it may lock it, never waits for ever nor
  runs into undefined behaviour, stays within the frame of the ABI store, and, in scan mode,
  keeps the ABI cache coherent when it returns.
\<close>

definition delta_safe ::
    "('db, 'ctx) env \<Rightarrow> ('db \<Rightarrow> tables list) \<Rightarrow> ('ctx \<Rightarrow> u64 \<rightharpoonup> bytes) \<Rightarrow> (bytes \<Rightarrow> bool) \<Rightarrow> ('db, 'ctx, 'a) rop \<Rightarrow> bool" where
  "delta_safe E stack loaded valid m \<longleftrightarrow> (\<forall>s. (interactive_mode (cfg E) \<longrightarrow> \<not> dblock s) \<longrightarrow>
     wp False m
       (\<lambda>_ t. abi_frame E stack s t \<and>
          (\<not> interactive_mode (cfg E) \<and> abi_cache_coherent E loaded valid s \<longrightarrow> abi_cache_coherent E loaded valid t))
       (\<lambda>_ t. abi_frame E stack s t) s)"

named_theorems delta_intros \<open>safety of the statements of the deltas\<close>

lemma delta_safe_ret [delta_intros]: "delta_safe E stack loaded valid (ret a)"
  by (simp add: delta_safe_def wp_simps)

lemma delta_safe_throw [delta_intros]: "delta_safe E stack loaded valid (throw e)"
  by (simp add: delta_safe_def wp_simps)

lemma delta_safe_liftE [delta_intros]: "delta_safe E stack loaded valid (liftE r)"
  by (simp add: delta_safe_def wp_simps split: sum.splits)

lemma delta_safe_reads [delta_intros]: "delta_safe E stack loaded valid (reads f)"
  by (simp add: delta_safe_def wp_simps)

lemma delta_safe_publish [delta_intros]: "delta_safe E stack loaded valid (publish e)"
  by (simp add: delta_safe_def wp_simps abi_frame_def)

lemma delta_safe_andThen [delta_intros]:
  fixes E :: "('db, 'ctx) env"
  assumes m: "delta_safe E stack loaded valid m" and f: "\<And>a. delta_safe E stack loaded valid (f a)"
  shows "delta_safe E stack loaded valid (andThen m f)"
  unfolding delta_safe_def wp_simps
proof (intro allI impI)
  fix s :: "('db, 'ctx) receiver" assume s: "interactive_mode (cfg E) \<longrightarrow> \<not> dblock s"
  let ?Q = "\<lambda>s t. abi_frame E stack s t \<and>
     (\<not> interactive_mode (cfg E) \<and> abi_cache_coherent E loaded valid s \<longrightarrow> abi_cache_coherent E loaded valid t)"
  have step: "wp False (f a) (\<lambda>_. ?Q s) (\<lambda>_ t. abi_frame E stack s t) t" if t: "?Q s t" for a and t :: "('db, 'ctx) receiver"
  proof -
    have "interactive_mode (cfg E) \<longrightarrow> \<not> dblock t" using s t by (auto simp: abi_frame_def dest: frozenD)
    then have "wp False (f a) (\<lambda>_. ?Q t) (\<lambda>_. abi_frame E stack t) t"
      using f [of a] by (auto simp: delta_safe_def)
    then show ?thesis
      by (rule wp_mono) (use t transpD [OF abi_frame_transp] in blast)+
  qed
  have "wp False m (\<lambda>_. ?Q s) (\<lambda>_ t. abi_frame E stack s t) s" using m s by (auto simp: delta_safe_def)
  then show "wp False m (\<lambda>a. wp False (f a) (\<lambda>_. ?Q s) (\<lambda>_ t. abi_frame E stack s t)) (\<lambda>_ t. abi_frame E stack s t) s"
    by (rule wp_mono) (use step in auto)
qed

lemma delta_safe_inspect [delta_intros]:
  "(\<And>s. delta_safe E stack loaded valid (f s)) \<Longrightarrow> delta_safe E stack loaded valid (inspect f)"
  by (simp add: delta_safe_def wp_simps)

lemma delta_safe_whenM [delta_intros]:
  "(b \<Longrightarrow> delta_safe E stack loaded valid m) \<Longrightarrow> delta_safe E stack loaded valid (whenM b m)"
  by (simp add: delta_safe_def wp_simps)

lemma delta_safe_if [delta_intros]:
  "(b \<Longrightarrow> delta_safe E stack loaded valid m) \<Longrightarrow> (\<not> b \<Longrightarrow> delta_safe E stack loaded valid n) \<Longrightarrow>
   delta_safe E stack loaded valid (if b then m else n)"
  by simp

lemma delta_safe_case_prod [delta_intros]:
  "(\<And>x y. delta_safe E stack loaded valid (f x y)) \<Longrightarrow>
   delta_safe E stack loaded valid (case p of (x, y) \<Rightarrow> f x y)"
  by (cases p) simp

lemma delta_safe_case_option [delta_intros]:
  "delta_safe E stack loaded valid m \<Longrightarrow> (\<And>x. delta_safe E stack loaded valid (f x)) \<Longrightarrow>
   delta_safe E stack loaded valid (case p of None \<Rightarrow> m | Some x \<Rightarrow> f x)"
  by (cases p) simp_all

lemma delta_safe_mapM [delta_intros]:
  "(\<And>x. delta_safe E stack loaded valid (f x)) \<Longrightarrow> delta_safe E stack loaded valid (mapM xs f)"
  by (induction xs) (auto intro!: delta_intros)

context abi_store
begin

lemma delta_safe_init [delta_intros]: "delta_safe E stack loaded valid_abi (init_contract_abi_ctxt E)"
  unfolding delta_safe_def
  using wp_within [OF within_init] coherent_init
  by (auto simp: wp_simps abi_frame_def)

lemma delta_safe_save [delta_intros]: "delta_safe E stack loaded valid_abi (save_contract_abi E account data)"
  unfolding delta_safe_def
proof (intro allI impI)
  fix s :: "('db, 'ctx) receiver"
  let ?m = "save_contract_abi E account data"
  have runs: "wp False ?m (\<lambda>_ t. abi_cache_coherent E loaded valid_abi s \<longrightarrow> abi_cache_coherent E loaded valid_abi t) (\<lambda>_ _. True) s"
  proof (cases "abi_cache_coherent E loaded valid_abi s")
    case True
    then show ?thesis by (auto intro: wp_mono [OF coherent_save])
  next
    case False
    then show ?thesis
      by (simp add: save_contract_abi_def wp_simps split: option.splits sum.splits)
  qed
  show "wp False ?m
       (\<lambda>_ t. abi_frame E stack s t \<and>
          (\<not> interactive_mode (cfg E) \<and> abi_cache_coherent E loaded valid_abi s \<longrightarrow> abi_cache_coherent E loaded valid_abi t))
       (\<lambda>_ t. abi_frame E stack s t) s"
    by (rule wp_mono [OF wp_conj [OF runs wp_within [OF within_save]]]) auto
qed

lemma delta_safe_clear [delta_intros]: "delta_safe E stack loaded valid_abi (clear_contract_abi E account)"
  unfolding delta_safe_def
proof (intro allI impI)
  fix s :: "('db, 'ctx) receiver"
  let ?m = "clear_contract_abi E account"
  have runs: "wp False ?m (\<lambda>_ t. abi_cache_coherent E loaded valid_abi s \<longrightarrow> abi_cache_coherent E loaded valid_abi t) (\<lambda>_ _. True) s"
  proof (cases "abi_cache_coherent E loaded valid_abi s")
    case True
    then show ?thesis by (auto intro: wp_mono [OF coherent_clear])
  next
    case False
    then show ?thesis
      by (simp add: clear_contract_abi_def wp_simps split: option.splits)
  qed
  show "wp False ?m
       (\<lambda>_ t. abi_frame E stack s t \<and>
          (\<not> interactive_mode (cfg E) \<and> abi_cache_coherent E loaded valid_abi s \<longrightarrow> abi_cache_coherent E loaded valid_abi t))
       (\<lambda>_ t. abi_frame E stack s t) s"
    by (rule wp_mono [OF wp_conj [OF runs wp_within [OF within_clear]]]) auto
qed

lemma get_ready_frame:
  assumes "lock \<longrightarrow> \<not> dblock s"
  shows "wp False (get_contract_abi_ready E account lock) (\<lambda>_. abi_frame E stack s) X s"
  using assms
  by (cases lock)
    (auto simp: get_contract_abi_ready_def wp_simps abi_frame_def frozen_def split: option.splits)

lemma delta_safe_ready [delta_intros]:
  "delta_safe E stack loaded valid_abi (get_contract_abi_ready E account (interactive_mode (cfg E)))"
  unfolding delta_safe_def
proof (intro allI impI)
  fix s :: "('db, 'ctx) receiver" assume s: "interactive_mode (cfg E) \<longrightarrow> \<not> dblock s"
  let ?m = "get_contract_abi_ready E account (interactive_mode (cfg E))"
  have frame: "wp False ?m (\<lambda>_. abi_frame E stack s) (\<lambda>_ _. False) s"
    by (rule get_ready_frame) (use s in auto)
  have coh: "wp False ?m (\<lambda>_ t. \<not> interactive_mode (cfg E) \<and> abi_cache_coherent E loaded valid_abi s
      \<longrightarrow> abi_cache_coherent E loaded valid_abi t) (\<lambda>_ _. False) s"
  proof (cases "\<not> interactive_mode (cfg E) \<and> abi_cache_coherent E loaded valid_abi s")
    case True
    then show ?thesis by (auto intro!: wp_mono [OF coherent_ready])
  next
    case False
    then show ?thesis using frame by (auto intro: wp_mono)
  qed
  show "wp False ?m
       (\<lambda>_ t. abi_frame E stack s t \<and>
          (\<not> interactive_mode (cfg E) \<and> abi_cache_coherent E loaded valid_abi s \<longrightarrow> abi_cache_coherent E loaded valid_abi t))
       (\<lambda>_ t. abi_frame E stack s t) s"
    by (rule wp_mono [OF wp_conj [OF frame coh]]) auto
qed

lemma delta_safe_delta [delta_intros]: "delta_safe E stack loaded valid_abi (receive_delta E bin)"
  unfolding receive_delta_def get_type_def delta_rows_def Let_def account_row_def contract_table_row_def
    permission_row_def permission_link_row_def account_metadata_row_def
  by (intro delta_intros)

lemma receive_deltas_safe: "delta_safe E stack loaded valid_abi (receive_deltas E bin)"
proof -
  have "delta_safe E stack loaded valid_abi (receive_deltas_loop E n b)" for n b
    by (induction n arbitrary: b) (auto intro!: delta_intros)
  then show ?thesis unfolding receive_deltas_def by (intro delta_intros)
qed

end

lemma take_row_iff:
  "take_row c kvo \<longleftrightarrow> (enable_tables_filter c \<longrightarrow> kvo_code kvo \<in> tables_filter c)
     \<and> (enable_tables_blacklist c \<longrightarrow> kvo_code kvo \<notin> tables_blacklist c)"
  by (auto simp: take_row_def)

lemma get_ready_published:
  assumes "\<not> interactive_mode (cfg E)"
  shows "wp True (get_contract_abi_ready E account lock) (\<lambda>_ t. published t = published s) X s"
  using assms by (auto simp: get_contract_abi_ready_def wp_simps split: option.splits)

text \<open>
  C15: In scan mode, with a coherent ABI cache, a contract row that decodes leads to exactly
  one of three outcomes: no event when the include list or the blacklist excludes its
  contract; a table row event, with the row's presence flag, the current block and the ABI of
  the contract's row loaded in the context, when the contract has an ABI; an ABI error event
  otherwise. In that last case the row itself is exported in no form, where
  \<open>docs/overview.md\<close> says that data without a valid ABI is presented as a hex string, beside the error event. It
  never throws and leaves the database alone.
\<close>

theorem contract_row_event:
  fixes E :: "('db, 'ctx) env"
  assumes "abi_store E stack loaded valid" and "abi_cache_coherent E loaded valid s"
    and "\<not> interactive_mode (cfg E)"
    and "check_variant_index (ship E) (dr_data row) vt 0 = Inr data"
    and "contract_row_from_bin (ship E) data = Inr (kvo, rest)"
  shows "\<exists>t. contract_table_row E vt row s = Return (row\<lparr>dr_data := rest\<rparr>) t \<and> db t = db s
    \<and> (let included = (enable_tables_filter (cfg E) \<longrightarrow> kvo_code kvo \<in> tables_filter (cfg E))
             \<and> (enable_tables_blacklist (cfg E) \<longrightarrow> kvo_code kvo \<notin> tables_blacklist (cfg E));
           abi = map_of (abi_rows (tables_of E s)) (kvo_code kvo) in
       published t = published s @
         (if \<not> included then []
          else if abi \<noteq> None then [Table_row_update \<lparr>tru_block_num = head s,
             tru_block_timestamp = bh_timestamp (block_header s), tru_added = dr_present row, tru_kvo = kvo\<rparr>]
          else [Abi_error \<lparr>ae_block_num = head s, ae_block_timestamp = bh_timestamp (block_header s),
             ae_account = kvo_code kvo, ae_error = ''cannot decode table delta because of missing ABI''\<rparr>])
       \<and> (included \<and> abi \<noteq> None \<longrightarrow> loaded (the (contract_abi_ctxt t)) (kvo_code kvo) = abi))"
proof -
  have "wp False (get_contract_abi_ready E (kvo_code kvo) False)
    (\<lambda>ready t. (abi_cache_coherent E loaded valid t \<and> db t = db s
       \<and> (ready \<longleftrightarrow> map_of (abi_rows (tables_of E s)) (kvo_code kvo) \<noteq> None)
       \<and> (ready \<longrightarrow> loaded (the (contract_abi_ctxt t)) (kvo_code kvo) = map_of (abi_rows (tables_of E s)) (kvo_code kvo)))
      \<and> published t = published s \<and> abi_frame E stack s t) (\<lambda>_ _. False) s"
    by (rule wp_mono [OF wp_conj [OF abi_store.coherent_ready [OF assms(1,2,3), where X = "\<lambda>_ _. False"]
        wp_conj [OF get_ready_published [OF assms(3), where X = "\<lambda>_ _. False"]
          abi_store.get_ready_frame [OF assms(1), of False, where X = "\<lambda>_ _. False"]]]]) auto
  then obtain ready t where t: "get_contract_abi_ready E (kvo_code kvo) False s = Return ready t"
    "ready \<longleftrightarrow> map_of (abi_rows (tables_of E s)) (kvo_code kvo) \<noteq> None"
    "ready \<longrightarrow> loaded (the (contract_abi_ctxt t)) (kvo_code kvo) = map_of (abi_rows (tables_of E s)) (kvo_code kvo)"
    "published t = published s" "frozen s = frozen t" "db t = db s"
    by (auto simp: wp_def abi_frame_def split: outcome.splits)
  show ?thesis
    using assms(3,4,5) t frozenD [OF t(5)]
    by (simp add: contract_table_row_def op_defs publish_def Let_def flip: take_row_iff)
qed

text \<open>A run with one contract that has an ABI; a row is the number of its contract.\<close>

definition row_codec :: ship where
  "row_codec = no_decoders\<lparr>
     varuint32_from_bin := (\<lambda>b. case b of [] \<Rightarrow> past_end b | x # r \<Rightarrow> Inr (ucast x, r)),
     contract_row_from_bin := (\<lambda>b. case b of [] \<Rightarrow> past_end b | x # r \<Rightarrow>
       Inr (\<lparr>kvo_code = ucast x, kvo_scope = 0, kvo_table = 0, kvo_primary_key = 0, kvo_payer = 0, kvo_value = r\<rparr>, []))\<rparr>"

definition row_run :: "(undo_list, (u64 \<times> bytes) list) receiver" where
  "row_run = new_receiver \<lparr>ul_tables = empty_tables\<lparr>abi_rows := [(5, [1, 2])]\<rparr>, ul_stack = [], ul_revision = 0\<rparr> 4294967295
     \<lparr>bh_timestamp = 77, bh_producer = 0, bh_previous = 0, bh_transaction_mroot = 0, bh_action_mroot = 0\<rparr> 0
     \<lparr>contract_abi_ctxt := Some [], head := 9\<rparr>"

theorem contract_row_event_witness:
  "\<exists>t. contract_table_row (run_env row_codec default_config) \<lparr>at_type_name = ''row'', at_variant = Some [(''v0'', True)]\<rparr>
      \<lparr>dr_present = False, dr_data = [0, 5, 6]\<rparr> row_run = Return \<lparr>dr_present = False, dr_data = []\<rparr> t
    \<and> published t = [Table_row_update \<lparr>tru_block_num = 9, tru_block_timestamp = 77, tru_added = False,
        tru_kvo = \<lparr>kvo_code = 5, kvo_scope = 0, kvo_table = 0, kvo_primary_key = 0, kvo_payer = 0, kvo_value = [6]\<rparr>\<rparr>]
    \<and> map_of (the (contract_abi_ctxt t)) 5 = Some [1, 2]"
proof -
  have coh: "abi_cache_coherent (run_env row_codec default_config) map_of starts_with_1 row_run"
    by (auto simp: abi_cache_coherent_def row_run_def new_receiver_def undo_list_db_def starts_with_1_def)
  show ?thesis
    using contract_row_event [OF run_store.abi_store_axioms coh,
        of "\<lparr>dr_present = False, dr_data = [0, 5, 6]\<rparr>" "\<lparr>at_type_name = ''row'', at_variant = Some [(''v0'', True)]\<rparr>"
          "[5, 6]" "\<lparr>kvo_code = 5, kvo_scope = 0, kvo_table = 0, kvo_primary_key = 0, kvo_payer = 0, kvo_value = [6]\<rparr>" "[]"]
    by (simp add: check_variant_index_def row_codec_def default_config_def row_run_def new_receiver_def
        undo_list_db_def Let_def) blast
qed

end
