(* ===== verification/Flow.thy ===== *)
theory Flow
  imports Revisions Deltas
begin

text \<open>
  The flow control of \<open>receiver_plugin.cpp\<close>: what it requests from the node, when it pauses
  and when it stops, and the acknowledgements of the exporter.
\<close>

section \<open>Closing and failing\<close>

definition close :: "('db, 'ctx, unit) rop" where
  "close = inspect (\<lambda>s. whenM (\<not> aborting s \<and> stream_open s)
     (updates (\<lambda>s. s\<lparr>stream_open := False, aborting := True\<rparr>)))"

definition abort_receiver :: "('db, 'ctx, unit) rop" where
  "abort_receiver = stmts [close, updates (\<lambda>s. s\<lparr>quitting := True\<rparr>)]"

definition catch_and_close :: "('db, 'ctx, unit) rop \<Rightarrow> ('db, 'ctx, unit) rop" where
  "catch_and_close f = catching f (\<lambda>_. close)"

definition on_fail :: "('db, 'ctx, unit) rop" where
  "on_fail = stmts [close, abort_receiver]"

definition callback :: "bool \<Rightarrow> ('db, 'ctx, unit) rop \<Rightarrow> ('db, 'ctx, unit) rop" where
  "callback ec f = (if ec then on_fail else catch_and_close f)"

section \<open>Requests\<close>

definition receive_abi :: "('db, 'ctx) env \<Rightarrow> bytes \<Rightarrow> ('db, 'ctx, unit) rop" where
  "receive_abi E p = andThen (liftE (abi_from_json (ship E) p)) (\<lambda>(complaint, types).
     case complaint of
       Some err \<Rightarrow> throw (Runtime_error (''abi version error: '' @ err))
     | None \<Rightarrow> updates (\<lambda>s. s\<lparr>abi_types := types\<rparr>))"

definition send_request :: "('db, 'ctx) env \<Rightarrow> blocks_request \<Rightarrow> ('db, 'ctx, unit) rop" where
  "send_request E rq = andThen (get_type ''request'') (\<lambda>type.
     andThen (liftE (request_to_bin (ship E) type rq)) (\<lambda>_.
       updates (\<lambda>s. s\<lparr>sent := sent s @ [rq]\<rparr>)))"

definition have_positions :: "('db, 'ctx) env \<Rightarrow> ('db, 'ctx) receiver \<Rightarrow> (u32 \<times> checksum256) list" where
  "have_positions E s =
     takeWhile (\<lambda>(b, _). b \<le> head s) (lower_bound (irreversible s) (received_rows (tables_of E s)))"

definition request_blocks :: "('db, 'ctx) env \<Rightarrow> ('db, 'ctx, unit) rop" where
  "request_blocks E =
     andThen (scoped_lock (reads (have_positions E))) (\<lambda>positions.
     inspect (\<lambda>s. send_request E \<lparr>
       rq_start_block_num = head s + 1,
       rq_end_block_num = end_block_num s,
       rq_max_messages_in_flight = 4294967295,
       rq_have_positions = positions,
       rq_irreversible_only = irreversible_only (cfg E),
       rq_fetch_block = \<not> noexport_mode (cfg E),
       rq_fetch_traces = (\<not> (skip_traces (cfg E) \<or> noexport_mode (cfg E))),
       rq_fetch_deltas = True\<rparr>))"

definition process_interactive_reqs :: "('db, 'ctx) env \<Rightarrow> ('db, 'ctx, unit) rop" where
  "process_interactive_reqs E = inspect (\<lambda>s.
     if receiver_ready s \<and> \<not> interactive_req_pending s then
       (case interactive_req_queue s of
          [] \<Rightarrow> ret ()
        | req # queue \<Rightarrow> stmts [
            updates (\<lambda>s. s\<lparr>interactive_req_queue := queue, end_block_num := block_num_end req\<rparr>),
            init_contract_abi_ctxt E,
            updates (\<lambda>s. s\<lparr>interactive_req_pending := True\<rparr>),
            send_request E \<lparr>
              rq_start_block_num = block_num_start req,
              rq_end_block_num = block_num_end req,
              rq_max_messages_in_flight = 4294967295,
              rq_have_positions = [],
              rq_irreversible_only = False,
              rq_fetch_block = True,
              rq_fetch_traces = (\<not> skip_traces (cfg E)),
              rq_fetch_deltas = (\<not> skip_table_deltas (cfg E))\<rparr>])
     else ret ())"

text \<open>A request beyond the head, or before any block was processed, is dropped.\<close>

definition on_block_req :: "('db, 'ctx) env \<Rightarrow> interactive_request \<Rightarrow> ('db, 'ctx, unit) rop" where
  "on_block_req E req =
     andThen (scoped_lock (reads (\<lambda>s. case state_rows (tables_of E s) of
         [] \<Rightarrow> False
       | row # _ \<Rightarrow> if block_num_start req > so_head row then False
                    else if block_num_end req > so_head row then False
                    else True))) (\<lambda>accepted.
     whenM accepted (stmts [
       updates (\<lambda>s. s\<lparr>interactive_req_queue := interactive_req_queue s @ [req]\<rparr>),
       process_interactive_reqs E]))"

section \<open>Pausing and stopping\<close>

text \<open>\<open>queue_size\<close> is the size of appbase's priority queue at the call.\<close>

definition pause_needed :: "('db, 'ctx) env \<Rightarrow> nat \<Rightarrow> ('db, 'ctx) receiver \<Rightarrow> bool" where
  "pause_needed E queue_size s \<longleftrightarrow>
     slowdown_requested s \<or>
     (exporter_will_ack s \<and>
       (forked_at_block s > 0 \<or> head s - exporter_acked_block s \<ge> exporter_max_unconfirmed s)) \<or>
     queue_size > unat (max_queue_size (cfg E)) \<or>
     (\<not> interactive_mode (cfg E) \<and> head s = end_block_num s - 1)"

definition end_reached :: "('db, 'ctx) receiver \<Rightarrow> bool" where
  "end_reached s \<longleftrightarrow> head s = end_block_num s - 1 \<and> irreversible s \<ge> head s \<and>
     (\<not> exporter_will_ack s \<or> exporter_acked_block s = head s)"

definition next_pause :: "u32 \<Rightarrow> u32" where
  "next_pause t = (if t = 0 then 50 else if t < 500 then t + 50 else t)"

definition check_pause :: "('db, 'ctx) env \<Rightarrow> nat \<Rightarrow> ('db, 'ctx, bool) rop" where
  "check_pause E queue_size = inspect (\<lambda>s.
     if pause_needed E queue_size s then
       if end_reached s then
         andThen (stmts [commit_db E, abort_receiver]) (\<lambda>_. ret False)
       else
         andThen (stmts [
           updates (\<lambda>s. s\<lparr>pause_time_msec := next_pause (pause_time_msec s)\<rparr>),
           inspect (\<lambda>s. publish (Receiver_pause \<lparr>
             rp_head = head s, rp_acknowledged = exporter_acked_block s\<rparr>)),
           updates (\<lambda>s. s\<lparr>pause_timer := Some (pause_time_msec s)\<rparr>)]) (\<lambda>_. ret False)
     else ret True)"

definition continue_read :: "('db, 'ctx) env \<Rightarrow> nat \<Rightarrow> ('db, 'ctx, unit) rop" where
  "continue_read E queue_size = andThen (check_pause E queue_size) (\<lambda>ok.
     whenM ok (updates (\<lambda>s. s\<lparr>pause_time_msec := 0, reading := True\<rparr>)))"

definition check_stale_head :: "('db, 'ctx) env \<Rightarrow> ('db, 'ctx, unit) rop" where
  "check_stale_head E = inspect (\<lambda>s.
     if stale_check_last_head s = head s \<and> pause_time_msec s = 0 \<and> received_blocks s > 0 then
       abort_receiver
     else updates (\<lambda>s. s\<lparr>stale_check_last_head := head s,
       stale_timer := Some (stale_check_deadline_msec (cfg E))\<rparr>))"

text \<open>\<open>start_read\<close> starts the first read and the stale timer; its completion is the next function.\<close>

definition start_read :: "('db, 'ctx) env \<Rightarrow> ('db, 'ctx, unit) rop" where
  "start_read E = updates (\<lambda>s. s\<lparr>reading := True, stale_check_last_head := head s,
     stale_timer := Some (stale_check_deadline_msec (cfg E))\<rparr>)"

definition first_read :: "('db, 'ctx) env \<Rightarrow> nat \<Rightarrow> bytes \<Rightarrow> ('db, 'ctx, unit) rop" where
  "first_read E queue_size p = stmts [
     receive_abi E p,
     updates (\<lambda>s. s\<lparr>receiver_ready := True\<rparr>),
     if interactive_mode (cfg E) then process_interactive_reqs E else request_blocks E,
     continue_read E queue_size]"

section \<open>The interface for the exporter\<close>

definition exporter_will_ack_blocks :: "('db, 'ctx) env \<Rightarrow> u32 \<Rightarrow> ('db, 'ctx, unit) rop" where
  "exporter_will_ack_blocks E max_unconfirmed = stmts [
     inspect (\<lambda>s. assertM (\<not> exporter_will_ack s)),
     assertM (max_unconfirmed > 0),
     whenM (interactive_mode (cfg E))
       (throw (Runtime_error ''Exporter must not acknowledge blocks in interactive mode'')),
     whenM (noexport_mode (cfg E))
       (throw (Runtime_error ''Exporter must not acknowledge blocks in noexport mode'')),
     updates (\<lambda>s. s\<lparr>exporter_will_ack := True, exporter_max_unconfirmed := max_unconfirmed\<rparr>)]"

definition ack_block :: "u32 \<Rightarrow> ('db, 'ctx, unit) rop" where
  "ack_block block_num = stmts [
     inspect (\<lambda>s. assertM (exporter_will_ack s)),
     inspect (\<lambda>s.
       if forked_at_block s > 0 then
         let wait_for_ack = forked_at_block s - 1 in
         if block_num > wait_for_ack then ret ()
         else stmts [
           whenM (block_num = wait_for_ack) (updates (\<lambda>s. s\<lparr>forked_at_block := 0\<rparr>)),
           updates (\<lambda>s. s\<lparr>exporter_acked_block := block_num\<rparr>)]
       else if block_num < exporter_acked_block s then abort_receiver
       else updates (\<lambda>s. s\<lparr>exporter_acked_block := block_num\<rparr>))]"

definition slowdown :: "bool \<Rightarrow> ('db, 'ctx, unit) rop" where
  "slowdown pause = updates (\<lambda>s. s\<lparr>slowdown_requested := pause\<rparr>)"

section \<open>Acknowledgements\<close>

lemma wp_close [wp_simps]:
  "wp D close Q X s = (if \<not> aborting s \<and> stream_open s
     then Q () (s\<lparr>stream_open := False, aborting := True\<rparr>) else Q () s)"
  by (simp add: close_def wp_simps)

lemma abort_receiver_eq:
  "abort_receiver s = Return () (if \<not> aborting s \<and> stream_open s
     then s\<lparr>stream_open := False, aborting := True, quitting := True\<rparr> else s\<lparr>quitting := True\<rparr>)"
  by (simp add: abort_receiver_def close_def op_defs)

text \<open>
  C6: While the receiver waits after a fork at block b, acknowledgements other than that of
  block b-1 never resume the flow, in whatever number and order they come: those above b-1
  are ignored, those below only lower the acknowledged block, none aborts the receiver, and
  the receiver keeps pausing.
\<close>

theorem fork_waits_for_ack:
  assumes "exporter_will_ack s" and "forked_at_block s = b" and "0 < b" and "b - 1 \<notin> set acks"
  shows "forM acks ack_block s =
     Return () (s\<lparr>exporter_acked_block := last (exporter_acked_block s # filter (\<lambda>n. n < b - 1) acks)\<rparr>)
   \<and> pause_needed E q (s\<lparr>exporter_acked_block := last (exporter_acked_block s # filter (\<lambda>n. n < b - 1) acks)\<rparr>)"
proof
  show "forM acks ack_block s =
     Return () (s\<lparr>exporter_acked_block := last (exporter_acked_block s # filter (\<lambda>n. n < b - 1) acks)\<rparr>)"
    using assms
  proof (induction acks arbitrary: s)
    case (Cons n acks)
    have "n < b - 1 \<or> n > b - 1" using Cons.prems(4) by auto
    then show ?case
      using Cons.prems Cons.IH [of s] Cons.IH [of "s\<lparr>exporter_acked_block := n\<rparr>"]
      by (auto simp: ack_block_def op_defs Let_def)
  qed (simp add: op_defs)
qed (use assms in \<open>simp add: pause_needed_def\<close>)

definition flow_run :: "u32 \<Rightarrow> u32 \<Rightarrow> u32 \<Rightarrow> (undo_list, (u64 \<times> bytes) list) receiver" where
  "flow_run h acked forked = new_receiver \<lparr>ul_tables = empty_tables, ul_stack = [], ul_revision = 0\<rparr> 101
     \<lparr>bh_timestamp = 0, bh_producer = 0, bh_previous = 0, bh_transaction_mroot = 0, bh_action_mroot = 0\<rparr> 0
     \<lparr>exporter_will_ack := True, exporter_max_unconfirmed := 10, head := h, exporter_acked_block := acked,
      forked_at_block := forked, stream_open := True\<rparr>"

theorem fork_waits_for_ack_witness:
  "forM [25, 17, 30, 18] ack_block (flow_run 25 20 20) = Return () (flow_run 25 18 20)
   \<and> pause_needed (run_env no_decoders default_config) 0 (flow_run 25 18 20)"
  using fork_waits_for_ack [of "flow_run 25 20 20" 20 "[25, 17, 30, 18]" "run_env no_decoders default_config" 0]
  by (simp add: flow_run_def new_receiver_def)

lemma ack_block_free:
  "exporter_will_ack s \<Longrightarrow> forked_at_block s = 0 \<Longrightarrow> ack_block n s =
     (if n < exporter_acked_block s then abort_receiver s else Return () (s\<lparr>exporter_acked_block := n\<rparr>))"
  by (simp add: ack_block_def op_defs abort_receiver_eq)

text \<open>
  C7: Outside a fork, a sequence of acknowledgements that never goes back, starting from the
  last acknowledged block, moves the acknowledged block to its last member and nothing else
  changes; a sequence that goes back somewhere ends with the application told to quit.
\<close>

theorem acks_monotone_or_quit:
  assumes "exporter_will_ack s" and "forked_at_block s = 0"
  shows "if sorted (exporter_acked_block s # acks)
    then forM acks ack_block s = Return () (s\<lparr>exporter_acked_block := last (exporter_acked_block s # acks)\<rparr>)
    else \<exists>t. forM acks ack_block s = Return () t \<and> quitting t"
proof -
  have quit: "\<exists>t. forM acks ack_block s = Return () t \<and> quitting t"
    if "exporter_will_ack s" "forked_at_block s = 0" "quitting s" for s :: "('db, 'ctx) receiver" and acks
    using that
  proof (induction acks arbitrary: s)
    case (Cons n acks)
    then show ?case
      using Cons.IH [of "s\<lparr>exporter_acked_block := n\<rparr>"] Cons.IH
      by (simp add: andThen_def ack_block_free abort_receiver_eq)
  qed (simp add: op_defs)
  show ?thesis
    using assms
  proof (induction acks arbitrary: s)
    case (Cons n acks)
    show ?case
    proof (cases "n < exporter_acked_block s")
      case True
      then show ?thesis
        using Cons.prems by (auto intro!: quit simp: andThen_def ret_def ack_block_free abort_receiver_eq)
    next
      case False
      then have eq: "sorted (exporter_acked_block s # n # acks) = sorted (n # acks)" by auto
      have step: "forM (n # acks) ack_block s = forM acks ack_block (s\<lparr>exporter_acked_block := n\<rparr>)"
        using False Cons.prems by (simp add: andThen_def ack_block_free)
      show ?thesis
        unfolding eq step
        using Cons.prems Cons.IH [of "s\<lparr>exporter_acked_block := n\<rparr>"]
        by (cases "sorted (n # acks)") (simp_all del: sorted_wrt.simps(2))
    qed
  qed (simp add: op_defs)
qed

theorem acks_monotone_or_quit_witness:
  "forM [20, 22, 22] ack_block (flow_run 25 20 0) = Return () (flow_run 25 22 0)
   \<and> (\<exists>t. forM [22, 21] ack_block (flow_run 25 20 0) = Return () t \<and> quitting t)"
  using acks_monotone_or_quit [of "flow_run 25 20 0" "[20, 22, 22]"]
    acks_monotone_or_quit [of "flow_run 25 20 0" "[22, 21]"]
  by (simp add: flow_run_def new_receiver_def)

section \<open>The read loop\<close>

lemma next_pause_bounds:
  assumes "t \<le> 500" and "50 dvd unat t"
  shows "50 \<le> next_pause t \<and> next_pause t \<le> 500 \<and> 50 dvd unat (next_pause t)"
proof -
  obtain k where k: "unat t = 50 * k" using assms(2) by blast
  have "unat t \<le> 500" using assms(1) by (simp add: word_le_nat_alt)
  then have "k \<le> 10" using k by simp
  have "unat (t + 50) = unat t + 50" if "unat t < 500" using that by (simp add: unat_word_ariths)
  then show ?thesis
    using k \<open>k \<le> 10\<close> assms
    by (auto simp: next_pause_def word_le_nat_alt word_less_nat_alt unat_eq_0)
qed

text \<open>
  C9: When the read loop continues, exactly one of three things happens: the next read is
  started and the pause length is reset; or, when a pause is needed, a timer of 50 to 500
  milliseconds is started, no read is, and the pause event tells the head and the
  acknowledged block; or, when a pause is needed and the end block is reached, irreversible
  and acknowledged, the database is committed and the receiver closes and quits.
\<close>

theorem continue_read_trichotomy:
  assumes "\<not> reading s" and "pause_timer s = None"
    and "pause_time_msec s \<le> 500" and "50 dvd unat (pause_time_msec s)" and "stream_open s" and "\<not> aborting s"
  shows "\<exists>t. continue_read E q s = Return () t \<and>
    (if \<not> pause_needed E q s then
       t = s\<lparr>reading := True, pause_time_msec := 0\<rparr>
     else if end_reached s then
       \<not> reading t \<and> pause_timer t = None \<and> aborting t \<and> \<not> stream_open t \<and> quitting t
       \<and> db t = cb_commit (cb E) (uint (if exporter_will_ack s then min (irreversible s) (exporter_acked_block s)
           else irreversible s)) (db s)
     else
       \<not> reading t \<and> (\<exists>ms. pause_timer t = Some ms \<and> 50 \<le> ms \<and> ms \<le> 500 \<and> 50 dvd unat ms \<and> pause_time_msec t = ms)
       \<and> published t = published s @ [Receiver_pause \<lparr>rp_head = head s, rp_acknowledged = exporter_acked_block s\<rparr>]
       \<and> db t = db s \<and> \<not> aborting t \<and> stream_open t)"
proof (cases "pause_needed E q s")
  case False
  then show ?thesis by (simp add: continue_read_def check_pause_def op_defs)
next
  case paused: True
  show ?thesis
  proof (cases "end_reached s")
    case True
    then show ?thesis
      using paused assms
      by (auto simp: continue_read_def check_pause_def op_defs commit_db_def abort_receiver_eq Let_def min_def not_less)
  next
    case False
    have "50 \<le> next_pause (pause_time_msec s) \<and> next_pause (pause_time_msec s) \<le> 500
      \<and> 50 dvd unat (next_pause (pause_time_msec s))"
      by (rule next_pause_bounds [OF assms(3,4)])
    then show ?thesis
      using paused False assms
      by (simp add: continue_read_def check_pause_def op_defs publish_def)
  qed
qed

theorem continue_read_trichotomy_witness:
  "(\<exists>t. continue_read (run_env no_decoders default_config) 0 (flow_run 25 10 0) = Return () t
      \<and> \<not> reading t \<and> pause_timer t \<noteq> None)
   \<and> continue_read (run_env no_decoders default_config) 0 (flow_run 25 20 0)
       = Return () ((flow_run 25 20 0)\<lparr>reading := True, pause_time_msec := 0\<rparr>)
   \<and> (\<exists>t. continue_read (run_env no_decoders default_config) 0 ((flow_run 100 100 0)\<lparr>irreversible := 100\<rparr>) = Return () t
      \<and> quitting t)"
  using continue_read_trichotomy [of "flow_run 25 10 0" "run_env no_decoders default_config" 0]
    continue_read_trichotomy [of "flow_run 25 20 0" "run_env no_decoders default_config" 0]
    continue_read_trichotomy [of "(flow_run 100 100 0)\<lparr>irreversible := 100\<rparr>" "run_env no_decoders default_config" 0]
  by (simp add: flow_run_def new_receiver_def pause_needed_def end_reached_def default_config_def) blast

text \<open>
  C10: The test for the end block does not look at the mode. In interactive mode, where the
  end block is that of the request just served and nothing is acknowledged, any pause, such
  as a slow exporter's, that follows the last block of an irreversible range closes the
  receiver and quits the application.
\<close>

theorem interactive_pause_quits:
  assumes "interactive_mode (cfg E)" and "slowdown_requested s" and "\<not> exporter_will_ack s"
    and "head s = end_block_num s - 1" and "head s \<le> irreversible s"
  shows "\<exists>t. continue_read E q s = Return () t \<and> quitting t \<and> \<not> reading t = (\<not> reading s)
    \<and> (stream_open s \<and> \<not> aborting s \<longrightarrow> \<not> stream_open t \<and> aborting t)"
  using assms
  by (auto simp: continue_read_def check_pause_def pause_needed_def end_reached_def op_defs commit_db_def
      abort_receiver_eq Let_def)

theorem interactive_pause_quits_witness:
  "\<exists>t. continue_read (run_env no_decoders (default_config\<lparr>interactive_mode := True\<rparr>)) 0
     ((flow_run 100 0 0)\<lparr>exporter_will_ack := False, irreversible := 500, slowdown_requested := True\<rparr>) = Return () t
     \<and> quitting t"
  using interactive_pause_quits [of "run_env no_decoders (default_config\<lparr>interactive_mode := True\<rparr>)"
      "(flow_run 100 0 0)\<lparr>exporter_will_ack := False, irreversible := 500, slowdown_requested := True\<rparr>" 0]
  by (simp add: flow_run_def new_receiver_def) blast

section \<open>What is requested\<close>

lemma takeWhile_upto:
  "keys_sorted xs \<Longrightarrow> takeWhile (\<lambda>(b, _). b \<le> h) xs = filter (\<lambda>(b, _). b \<le> h) xs"
proof (induction xs)
  case (Cons x xs)
  obtain a b where x: "x = (a, b)" by (cases x)
  show ?case
  proof (cases "a \<le> h")
    case False
    then have "\<forall>y \<in> set xs. \<not> fst y \<le> h" using Cons.prems x by fastforce
    then have "filter (\<lambda>(b, _). b \<le> h) xs = []" by (auto simp: filter_empty_conv)
    then show ?thesis using False x by simp
  qed (use Cons x in simp)
qed simp

text \<open>
  C11: After a (re)connection in scan mode the receiver asks for the blocks from the one after
  its head up to the end block, and offers as common ancestors exactly the received blocks
  between the irreversible one and the head, in order; the request is the only effect.
\<close>

theorem request_blocks_sends:
  assumes "\<not> dblock s" and "keys_sorted (received_rows (tables_of E s))"
    and "abi_types s ''request'' = Some ty"
    and "\<forall>rq. \<exists>b. request_to_bin (ship E) ty rq = Inr b"
  shows "request_blocks E s = Return () (s\<lparr>sent := sent s @ [\<lparr>
       rq_start_block_num = head s + 1, rq_end_block_num = end_block_num s,
       rq_max_messages_in_flight = 4294967295,
       rq_have_positions = filter (\<lambda>(b, _). irreversible s \<le> b \<and> b \<le> head s) (received_rows (tables_of E s)),
       rq_irreversible_only = irreversible_only (cfg E),
       rq_fetch_block = \<not> noexport_mode (cfg E),
       rq_fetch_traces = (\<not> skip_traces (cfg E) \<and> \<not> noexport_mode (cfg E)),
       rq_fetch_deltas = True\<rparr>]\<rparr>)"
proof -
  have "have_positions E s = filter (\<lambda>(b, _). irreversible s \<le> b \<and> b \<le> head s) (received_rows (tables_of E s))"
    unfolding have_positions_def lower_bound_eq_filter [OF assms(2)]
    by (subst takeWhile_upto) (use assms(2) in \<open>auto simp: sorted_wrt_map case_prod_beta conj_commute intro: sorted_wrt_filter intro!: filter_cong\<close>)
  moreover have "have_positions E (s\<lparr>dblock := True\<rparr>) = have_positions E s" by (simp add: have_positions_def)
  moreover obtain f where "request_to_bin (ship E) ty rq = Inr (f rq)" for rq using assms(4) by metis
  ultimately show ?thesis
    using assms(1,3)
    by (simp add: request_blocks_def send_request_def get_type_def scoped_lock_def lock_mutex_def op_defs)
qed

theorem request_blocks_sends_witness:
  "\<exists>s t. request_blocks (run_env (no_decoders\<lparr>request_to_bin := \<lambda>_ _. Inr []\<rparr>) default_config) s = Return () t
     \<and> received_rows (ul_tables (db s)) = [(5, 105), (6, 106), (7, 107), (9, 109)]
     \<and> map rq_have_positions (sent t) = [[(6, 106), (7, 107)]] \<and> map rq_start_block_num (sent t) = [8]"
proof -
  let ?E = "run_env (no_decoders\<lparr>request_to_bin := \<lambda>_ _. Inr []\<rparr>) default_config"
  let ?s = "(flow_run 7 0 0)\<lparr>irreversible := 6, abi_types := [''request'' \<mapsto> \<lparr>at_type_name = ''request'', at_variant = None\<rparr>],
    db := \<lparr>ul_tables = empty_tables\<lparr>received_rows := [(5, 105), (6, 106), (7, 107), (9, 109)]\<rparr>, ul_stack = [], ul_revision = 0\<rparr>\<rparr>"
  note run = request_blocks_sends [of ?s ?E "\<lparr>at_type_name = ''request'', at_variant = None\<rparr>"]
  show ?thesis
    by (rule exI [of _ ?s], subst run)
      (simp_all add: flow_run_def new_receiver_def undo_list_db_def word_less_def)
qed

end
