(* ===== verification/Traces.thy ===== *)
theory Traces
  imports AbiStore
begin

text \<open>
  \<open>receive_traces\<close> of \<open>receiver_plugin.cpp\<close>: decoding the transaction traces of a block and
  deciding by the blacklist, the receiver filter and the authorizer filter which are published.
\<close>

section \<open>The code\<close>

text \<open>The three flags of the matching loop.\<close>

record trace_match =
  matched_blacklist :: bool
  matched_rcvr_filter :: bool
  matched_auth_filter :: bool

definition no_match :: trace_match where
  "no_match = \<lparr>matched_blacklist = False, matched_rcvr_filter = False, matched_auth_filter = False\<rparr>"

definition blacklisted :: "config \<Rightarrow> ship_action \<Rightarrow> bool" where
  "blacklisted c act = (case blacklist_actions c (act_account act) of
      None \<Rightarrow> False
    | Some names \<Rightarrow> act_name act \<in> names)"

definition authorized_match :: "config \<Rightarrow> ship_action \<Rightarrow> bool" where
  "authorized_match c act = list_ex (\<lambda>auth. pl_actor auth \<in> auth_filter c) (act_authorization act)"

definition match_action :: "config \<Rightarrow> u64 \<Rightarrow> ship_action \<Rightarrow> trace_match option" where
  "match_action c receiver act =
     (if do_trace_blacklist c \<and> blacklisted c act then Some (no_match\<lparr>matched_blacklist := True\<rparr>)
      else if enable_rcvr_filter c \<and> receiver \<in> rcvr_filter c then Some (no_match\<lparr>matched_rcvr_filter := True\<rparr>)
      else if enable_auth_filter c \<and> authorized_match c act then Some (no_match\<lparr>matched_auth_filter := True\<rparr>)
      else None)"

text \<open>The loop over the action traces; \<open>Some\<close> of \<open>match_action\<close> is the \<open>break\<close>.\<close>

fun match_actions :: "config \<Rightarrow> action_trace list \<Rightarrow> error + trace_match" where
  "match_actions c [] = Inr no_match"
| "match_actions c (Action_trace_v0 receiver act # atraces) =
     (case match_action c receiver act of Some m \<Rightarrow> Inr m | None \<Rightarrow> match_actions c atraces)"
| "match_actions c (Action_trace_v1 receiver act # atraces) =
     (case match_action c receiver act of Some m \<Rightarrow> Inr m | None \<Rightarrow> match_actions c atraces)"
| "match_actions c (Action_trace_other index # atraces) =
     Inl (Runtime_error (''Invalid variant option in action_trace: '' @ decimal index))"

definition filter_trace :: "config \<Rightarrow> ship_trace \<Rightarrow> error + bool" where
  "filter_trace c trace =
     (case (if do_trace_filter c \<or> do_trace_blacklist c then match_actions c (tt_action_traces trace)
            else Inr no_match) of
        Inl e \<Rightarrow> Inl e
      | Inr m \<Rightarrow> Inr (\<not> matched_blacklist m \<and>
          (\<not> do_trace_filter c \<or> (enable_rcvr_filter c \<and> matched_rcvr_filter m) \<or>
           (enable_auth_filter c \<and> matched_auth_filter m))))"

fun receive_traces_loop :: "('db, 'ctx) env \<Rightarrow> nat \<Rightarrow> bytes \<Rightarrow> ('db, 'ctx, unit) rop" where
  "receive_traces_loop E 0 bin = ret ()"
| "receive_traces_loop E (Suc n) bin =
     andThen (liftE (trace_from_bin (ship E) bin)) (\<lambda>(trace, rest). stmts [
       andThen (liftE (filter_trace (cfg E) trace)) (\<lambda>take_it. inspect (\<lambda>s.
         whenM take_it (publish (Transaction_trace \<lparr>
           tr_block_num = head s,
           tr_block_timestamp = bh_timestamp (block_header s),
           tr_trace = trace,
           tr_bin = take (length bin - length rest) bin\<rparr>)))),
       receive_traces_loop E n rest])"

definition receive_traces :: "('db, 'ctx) env \<Rightarrow> bytes \<Rightarrow> ('db, 'ctx, unit) rop" where
  "receive_traces E bin = whenM (has_subscribers E Transaction_traces)
     (andThen (liftE (varuint32_from_bin (ship E) bin)) (\<lambda>(num, rest).
       receive_traces_loop E (unat num) rest))"

section \<open>Which traces are published\<close>

text \<open>
  The specification. An action decides when it is blacklisted or passes a filter; a trace is
  wanted when the first action that decides is not a blacklisted one, and, with a filter
  enabled, there is such an action.
\<close>

fun known_action :: "action_trace \<Rightarrow> bool" where
  "known_action (Action_trace_other _) = False"
| "known_action _ = True"

definition black :: "config \<Rightarrow> action_trace \<Rightarrow> bool" where
  "black c a \<longleftrightarrow> do_trace_blacklist c \<and> blacklisted c (at_act a)"

definition passes_filter :: "config \<Rightarrow> action_trace \<Rightarrow> bool" where
  "passes_filter c a \<longleftrightarrow> (enable_rcvr_filter c \<and> at_receiver a \<in> rcvr_filter c) \<or>
     (enable_auth_filter c \<and> (\<exists>auth \<in> set (act_authorization (at_act a)). pl_actor auth \<in> auth_filter c))"

definition wanted :: "config \<Rightarrow> ship_trace \<Rightarrow> bool" where
  "wanted c trace \<longleftrightarrow>
     (case filter (\<lambda>a. black c a \<or> passes_filter c a) (tt_action_traces trace) of
        [] \<Rightarrow> \<not> do_trace_filter c
      | a # _ \<Rightarrow> \<not> black c a)"

text \<open>
  \<open>docs/advanced-config.md\<close> gives another rule: the blacklist has absolute precedence, so a
  trace with a blacklisted action is dropped, and otherwise an enabled filter has to match. The
  code differs in one case, \<open>overtaken\<close>: an action that passes a filter comes before the
  first blacklisted one. The two predicates say what is blacklisted and what passes.
\<close>

definition documented :: "('a \<Rightarrow> bool) \<Rightarrow> ('a \<Rightarrow> bool) \<Rightarrow> bool \<Rightarrow> 'a list \<Rightarrow> bool" where
  "documented blacklist passes filtering as \<longleftrightarrow>
     (\<forall>a \<in> set as. \<not> blacklist a) \<and> (filtering \<longrightarrow> (\<exists>a \<in> set as. passes a))"

definition overtaken :: "('a \<Rightarrow> bool) \<Rightarrow> ('a \<Rightarrow> bool) \<Rightarrow> 'a list \<Rightarrow> bool" where
  "overtaken blacklist passes as \<longleftrightarrow> (\<exists>a \<in> set as. blacklist a) \<and>
     (case filter (\<lambda>a. blacklist a \<or> passes a) as of [] \<Rightarrow> False | a # _ \<Rightarrow> \<not> blacklist a)"

lemma documented_or_overtaken:
  assumes "\<And>a. passes a \<Longrightarrow> filtering"
  shows "(case filter (\<lambda>a. blacklist a \<or> passes a) as of [] \<Rightarrow> \<not> filtering | a # _ \<Rightarrow> \<not> blacklist a)
    \<longleftrightarrow> documented blacklist passes filtering as \<or> overtaken blacklist passes as"
proof (cases "filter (\<lambda>a. blacklist a \<or> passes a) as")
  case Nil
  then show ?thesis by (auto simp: documented_def overtaken_def filter_empty_conv)
next
  case (Cons a rest)
  then have "a \<in> set as" "blacklist a \<or> passes a" by (auto simp: filter_eq_Cons_iff)
  then show ?thesis using Cons assms [of a] by (auto simp: documented_def overtaken_def)
qed

text \<open>What is published of the traces of a block, in these terms.\<close>

definition exported :: "config \<Rightarrow> ship_trace \<Rightarrow> bool" where
  "exported c trace \<longleftrightarrow>
     documented (black c) (passes_filter c) (do_trace_filter c) (tt_action_traces trace)
     \<or> overtaken (black c) (passes_filter c) (tt_action_traces trace)"

text \<open>What \<open>plugin_initialize\<close> guarantees of the flags.\<close>

definition filters_consistent :: "config \<Rightarrow> bool" where
  "filters_consistent c \<longleftrightarrow> (do_trace_filter c \<longleftrightarrow> enable_rcvr_filter c \<or> enable_auth_filter c)"

lemma wanted_exported: "filters_consistent c \<Longrightarrow> wanted c trace = exported c trace"
  unfolding wanted_def exported_def
  by (rule documented_or_overtaken) (auto simp: filters_consistent_def passes_filter_def)

lemma match_action_None:
  "match_action c (at_receiver a) (at_act a) = None \<longleftrightarrow> \<not> black c a \<and> \<not> passes_filter c a"
  by (auto simp: match_action_def black_def passes_filter_def authorized_match_def list_ex_iff)

lemma match_action_Some:
  "match_action c (at_receiver a) (at_act a) = Some m \<Longrightarrow>
     matched_blacklist m = black c a \<and>
     (\<not> black c a \<longrightarrow> enable_rcvr_filter c \<and> matched_rcvr_filter m \<or> enable_auth_filter c \<and> matched_auth_filter m)"
  by (auto simp: match_action_def black_def no_match_def split: if_splits)

lemma match_actions_known:
  "list_all known_action as \<Longrightarrow> match_actions c as = Inr
     (case filter (\<lambda>a. black c a \<or> passes_filter c a) as of
        [] \<Rightarrow> no_match
      | a # _ \<Rightarrow> the (match_action c (at_receiver a) (at_act a)))"
proof (induction as)
  case (Cons a as)
  then have "match_actions c (a # as) =
      (case match_action c (at_receiver a) (at_act a) of Some m \<Rightarrow> Inr m | None \<Rightarrow> match_actions c as)"
    by (cases a) simp_all
  then show ?case
    using Cons match_action_None [of c a]
    by (cases "match_action c (at_receiver a) (at_act a)") simp_all
qed simp

lemma filter_trace_wanted:
  assumes "filters_consistent c" and "list_all known_action (tt_action_traces trace)"
  shows "filter_trace c trace = Inr (wanted c trace)"
proof (cases "filter (\<lambda>a. black c a \<or> passes_filter c a) (tt_action_traces trace)")
  case Nil
  then show ?thesis
    using assms by (simp add: filter_trace_def wanted_def match_actions_known no_match_def)
next
  case (Cons a as)
  then have "black c a \<or> passes_filter c a" by (auto simp: filter_eq_Cons_iff)
  then obtain m where m: "match_action c (at_receiver a) (at_act a) = Some m"
    using match_action_None [of c a] by fastforce
  have "do_trace_filter c \<or> do_trace_blacklist c"
    using \<open>black c a \<or> passes_filter c a\<close> assms(1)
    by (auto simp: black_def passes_filter_def filters_consistent_def)
  then show ?thesis
    using Cons assms(2) m match_action_Some [OF m]
    by (cases "black c a") (simp_all add: filter_trace_def wanted_def match_actions_known)
qed

text \<open>The traces of a block, with the bytes each was read from.\<close>

fun decode_traces :: "ship \<Rightarrow> nat \<Rightarrow> bytes \<Rightarrow> error + (ship_trace \<times> bytes) list" where
  "decode_traces sh 0 bin = Inr []"
| "decode_traces sh (Suc n) bin = (case trace_from_bin sh bin of
      Inl e \<Rightarrow> Inl e
    | Inr (trace, rest) \<Rightarrow> (case decode_traces sh n rest of
        Inl e \<Rightarrow> Inl e
      | Inr ts \<Rightarrow> Inr ((trace, take (length bin - length rest) bin) # ts)))"

definition trace_event :: "('db, 'ctx) receiver \<Rightarrow> ship_trace \<times> bytes \<Rightarrow> event" where
  "trace_event s t = Transaction_trace \<lparr>tr_block_num = head s,
     tr_block_timestamp = bh_timestamp (block_header s), tr_trace = fst t, tr_bin = snd t\<rparr>"

lemma receive_traces_loop_spec:
  assumes "filters_consistent (cfg E)" and "decode_traces (ship E) n bin = Inr ts"
    and "\<forall>(trace, b) \<in> set ts. list_all known_action (tt_action_traces trace)"
  shows "receive_traces_loop E n bin s = Return ()
    (s\<lparr>published := published s @ map (trace_event s) (filter (\<lambda>(trace, b). wanted (cfg E) trace) ts)\<rparr>)"
  using assms(2,3)
proof (induction n arbitrary: bin ts s)
  case (Suc n)
  then obtain trace rest ts' where d: "trace_from_bin (ship E) bin = Inr (trace, rest)"
    "decode_traces (ship E) n rest = Inr ts'" "ts = (trace, take (length bin - length rest) bin) # ts'"
    by (auto split: sum.splits)
  have w: "filter_trace (cfg E) trace = Inr (wanted (cfg E) trace)"
    using Suc.prems(2) d(3) by (intro filter_trace_wanted [OF assms(1)]) auto
  have IH: "receive_traces_loop E n rest u = Return ()
    (u\<lparr>published := published u @ map (trace_event u) (filter (\<lambda>(trace, b). wanted (cfg E) trace) ts')\<rparr>)" for u
    using Suc.IH [OF d(2)] Suc.prems(2) d(3) by simp
  show ?case
    by (simp add: d w op_defs publish_def IH trace_event_def)
qed (simp add: op_defs)

text \<open>
  C12: When the traces of a block decode, \<open>receive_traces\<close> publishes, in their order, exactly
  those that the documented rule lets through (no action is blacklisted, and an enabled filter
  matches), and, contrary to \<open>docs/advanced-config.md\<close>, also those with a blacklisted action
  where an action before it passes a filter, since the loop stops at the first match; each is
  stamped with the current block and with the bytes it was read from; nothing else of the
  receiver changes.
\<close>

theorem receive_traces_publishes:
  assumes "filters_consistent (cfg E)" and "has_subscribers E Transaction_traces"
    and "varuint32_from_bin (ship E) bin = Inr (num, rest)"
    and "decode_traces (ship E) (unat num) rest = Inr ts"
    and "\<forall>(trace, b) \<in> set ts. list_all known_action (tt_action_traces trace)"
  shows "receive_traces E bin s = Return ()
    (s\<lparr>published := published s @ map (trace_event s) (filter (\<lambda>(trace, b). exported (cfg E) trace) ts)\<rparr>)"
  using assms
  by (simp add: receive_traces_def op_defs receive_traces_loop_spec flip: wanted_exported [OF assms(1)])

text \<open>A codec for runs: a count, then one byte per trace, which is its receiver and action.\<close>

definition run_trace :: "u8 \<Rightarrow> ship_trace" where
  "run_trace x = \<lparr>tt_id = 0, tt_action_traces =
     [Action_trace_v0 (ucast x) \<lparr>act_account = 1, act_name = ucast x, act_authorization = [], act_data = []\<rparr>]\<rparr>"

definition trace_codec :: ship where
  "trace_codec = no_decoders\<lparr>
     varuint32_from_bin := (\<lambda>b. case b of [] \<Rightarrow> past_end b | x # r \<Rightarrow> Inr (ucast x, r)),
     trace_from_bin := (\<lambda>b. case b of [] \<Rightarrow> past_end b | x # r \<Rightarrow> Inr (run_trace x, r))\<rparr>"

definition trace_config :: config where
  "trace_config = default_config\<lparr>enable_rcvr_filter := True, rcvr_filter := {5, 6}, do_trace_filter := True,
     do_trace_blacklist := True, blacklist_actions := [1 \<mapsto> {6}]\<rparr>"

definition start_of_run :: "(undo_list, (u64 \<times> bytes) list) receiver" where
  "start_of_run = new_receiver \<lparr>ul_tables = empty_tables, ul_stack = [], ul_revision = 0\<rparr> 4294967295
     \<lparr>bh_timestamp = 77, bh_producer = 0, bh_previous = 0, bh_transaction_mroot = 0, bh_action_mroot = 0\<rparr> 0"

lemmas run_defs = run_env_simps start_of_run_def new_receiver_def default_config_def no_decoders_def past_end_def
  empty_tables_def undo_list_db_def

theorem receive_traces_publishes_witness:
  "receive_traces (run_env trace_codec trace_config) [3, 4, 5, 6] start_of_run =
     Return () (start_of_run\<lparr>published := [trace_event start_of_run (run_trace 5, [5])]\<rparr>)"
proof -
  have "decode_traces trace_codec (Suc (Suc (Suc 0))) [4, 5, 6] =
    Inr [(run_trace 4, [4]), (run_trace 5, [5]), (run_trace 6, [6])]"
    by (simp add: trace_codec_def)
  then have three: "decode_traces trace_codec 3 [4, 5, 6] =
    Inr [(run_trace 4, [4]), (run_trace 5, [5]), (run_trace 6, [6])]"
    by (simp add: numeral_3_eq_3)
  have "receive_traces (run_env trace_codec trace_config) [3, 4, 5, 6] start_of_run =
    Return () (start_of_run\<lparr>published := published start_of_run @ map (trace_event start_of_run)
      (filter (\<lambda>(trace, b). exported (cfg (run_env trace_codec trace_config)) trace)
        [(run_trace 4, [4]), (run_trace 5, [5]), (run_trace 6, [6])])\<rparr>)"
    by (rule receive_traces_publishes [where num = 3 and rest = "[4, 5, 6]"])
      (simp_all add: three, simp_all add: trace_codec_def trace_config_def filters_consistent_def
        run_trace_def default_config_def)
  then show ?thesis
    by (simp add: exported_def documented_def overtaken_def trace_config_def run_trace_def black_def passes_filter_def blacklisted_def
        run_defs)
qed

text \<open>
  With no filter enabled, the blacklist is absolute: a trace is published when none of its
  actions is blacklisted, and only then.
\<close>

theorem blacklist_without_filter:
  assumes "filters_consistent c" and "\<not> do_trace_filter c"
    and "list_all known_action (tt_action_traces trace)"
  shows "filter_trace c trace =
    Inr (\<forall>a \<in> set (tt_action_traces trace). \<not> (do_trace_blacklist c \<and> blacklisted c (at_act a)))"
proof -
  have "passes_filter c = (\<lambda>a. False)"
    using assms(1,2) by (auto simp: passes_filter_def filters_consistent_def)
  then have "wanted c trace \<longleftrightarrow> (\<forall>a \<in> set (tt_action_traces trace). \<not> black c a)"
    using assms(2)
    by (auto simp: wanted_def filter_empty_conv filter_eq_Cons_iff split: list.splits)
  then show ?thesis by (simp add: filter_trace_wanted [OF assms(1,3)] black_def)
qed

theorem blacklist_without_filter_witness:
  "filter_trace (trace_config\<lparr>do_trace_filter := False, enable_rcvr_filter := False\<rparr>) (run_trace 6) = Inr False"
  using blacklist_without_filter [of "trace_config\<lparr>do_trace_filter := False, enable_rcvr_filter := False\<rparr>" "run_trace 6"]
  by (simp add: trace_config_def filters_consistent_def run_trace_def blacklisted_def default_config_def)

text \<open>
  With the receiver filter enabled the blacklist is not absolute: a first action whose
  receiver is listed ends the loop, and the trace is published whatever actions follow it,
  blacklisted ones included.
\<close>

theorem blacklist_after_match_ignored:
  assumes "do_trace_filter c" and "enable_rcvr_filter c" and "receiver \<in> rcvr_filter c"
    and "\<not> blacklisted c act"
  shows "filter_trace c \<lparr>tt_id = i, tt_action_traces = Action_trace_v1 receiver act # later\<rparr> = Inr True"
  using assms by (simp add: filter_trace_def match_action_def no_match_def)

theorem blacklist_after_match_ignored_witness:
  "filter_trace trace_config \<lparr>tt_id = 0, tt_action_traces =
     [Action_trace_v1 5 \<lparr>act_account = 2, act_name = 9, act_authorization = [], act_data = []\<rparr>,
      Action_trace_v1 5 \<lparr>act_account = 1, act_name = 6, act_authorization = [], act_data = []\<rparr>]\<rparr> = Inr True
   \<and> blacklisted trace_config \<lparr>act_account = 1, act_name = 6, act_authorization = [], act_data = []\<rparr>"
  using blacklist_after_match_ignored [of trace_config 5
      "\<lparr>act_account = 2, act_name = 9, act_authorization = [], act_data = []\<rparr>" 0]
  by (simp add: trace_config_def blacklisted_def default_config_def)

end
