(* ===== verification/Receiver.thy ===== *)
theory Receiver
  imports Flow Traces
begin

text \<open>
  \<open>receive_result\<close> of \<open>receiver_plugin.cpp\<close>, the handler of every message from the node, with
  what it calls that no other theory has, and the transitions of the whole receiver.
\<close>

section \<open>A block\<close>

definition receive_block :: "('db, 'ctx) env \<Rightarrow> bytes \<Rightarrow> ('db, 'ctx, unit) rop" where
  "receive_block E bin =
     andThen (liftE (signed_block_from_bin (ship E) bin)) (\<lambda>(block, _). stmts [
       updates (\<lambda>s. s\<lparr>block_header := block_header.truncate block,
         trx_count := word_of_nat (length (sb_transactions block))\<rparr>),
       whenM (has_subscribers E Block_started_chan) (inspect (\<lambda>s. publish (Block_started \<lparr>
         bb_block_num = head s,
         bb_block_id = head_id s,
         bb_block_timestamp = bh_timestamp (block_header s),
         bb_last_irreversible = irreversible s\<rparr>))),
       whenM (\<not> skip_block_events (cfg E)) (inspect (\<lambda>s. publish (Block \<lparr>
         bl_block_num = head s,
         bl_block_id = head_id s,
         bl_last_irreversible = irreversible s,
         bl_block = block\<rparr>)))])"

text \<open>\<open>set_revision\<close> throws when there is something to undo.\<close>

definition advance_revision :: "('db, 'ctx) env \<Rightarrow> u32 \<Rightarrow> ('db, 'ctx, unit) rop" where
  "advance_revision E block_num = (\<lambda>s.
     if cb_revision (cb E) (db s) < uint (block_num - 1) then
       (case cb_set_revision (cb E) (uint (block_num - 1)) (db s) of
          None \<Rightarrow> Throw (Logic_error ''cannot set revision while there is an existing undo stack'') s
        | Some d \<Rightarrow> Return () (s\<lparr>db := d\<rparr>))
     else Return () s)"

definition handle_fork :: "('db, 'ctx) env \<Rightarrow> u32 \<Rightarrow> u32 \<Rightarrow> ('db, 'ctx, unit) rop" where
  "handle_fork E block_num last_irreversible_num = inspect (\<lambda>s.
     let depth = head s - block_num in stmts [
       init_contract_abi_ctxt E,
       rollback E block_num,
       updates (\<lambda>s. if exporter_will_ack s \<and> exporter_acked_block s > block_num - 1
         then s\<lparr>exporter_acked_block := block_num - 1\<rparr> else s),
       issue_fork \<lparr>fe_block_num = block_num, fe_depth = depth, fe_fork_reason = Network,
         fe_last_irreversible = last_irreversible_num\<rparr>])"

definition check_position :: "('db, 'ctx) env \<Rightarrow> get_blocks_result \<Rightarrow> u32 \<Rightarrow> ('db, 'ctx, unit) rop" where
  "check_position E result block_num =
     (let last_irreversible_num = bp_block_num (gbr_last_irreversible result) in
      scoped_lock (stmts [
        advance_revision E block_num,
        whenM (block_num > last_irreversible_num) (inspect (\<lambda>s.
          if block_num < irreversible s then
            throw (Runtime_error ''Received block number that is lower than last seen irreversible'')
          else if block_num \<le> head s then
            handle_fork E block_num last_irreversible_num
          else whenM (head s > 0 \<and> head s > start_block_num (cfg E) \<and>
              (case gbr_prev_block result of None \<Rightarrow> True | Some prev \<Rightarrow> bp_block_id prev \<noteq> head_id s))
            (throw (Runtime_error ''prev_block does not match''))))]))"

text \<open>
  The truncation loop reads the row its iterator points to before it compares the iterator
  with the end, so running out of rows is undefined.
\<close>

definition truncate_received_blocks :: "('db, 'ctx) env \<Rightarrow> ('db, 'ctx, unit) rop" where
  "truncate_received_blocks E = (\<lambda>s.
     case while_option
       (\<lambda>d. case received_rows (cb_tables (cb E) d) of [] \<Rightarrow> False | (b, _) # _ \<Rightarrow> b < irreversible s)
       (\<lambda>d. cb_write (cb E)
         (remove_received_block (fst (hd (received_rows (cb_tables (cb E) d)))) (cb_tables (cb E) d)) d)
       (db s) of
     None \<Rightarrow> Diverge
   | Some d \<Rightarrow> (case received_rows (cb_tables (cb E) d) of
       [] \<Rightarrow> Undefined
     | _ # _ \<Rightarrow> Return () (s\<lparr>db := d\<rparr>)))"

definition state_changes :: "('db, 'ctx) env \<Rightarrow> get_blocks_result \<Rightarrow> block_position \<Rightarrow> ('db, 'ctx, unit) rop" where
  "state_changes E result this_block = scoped_lock (stmts [
     undo_session E (stmts [
       inspect (\<lambda>s. whenM (bp_block_num this_block > irreversible s) (stmts [
         create_row E (create_received_block (bp_block_num this_block) (bp_block_id this_block)),
         truncate_received_blocks E])),
       (case gbr_deltas result of None \<Rightarrow> ret () | Some deltas \<Rightarrow> receive_deltas E deltas),
       save_state E]),
     commit_db E])"

definition complete_block :: "('db, 'ctx, unit) rop" where
  "complete_block = inspect (\<lambda>s. publish (Block_completed \<lparr>
     bf_block_num = head s,
     bf_block_id = head_id s,
     bf_block_timestamp = bh_timestamp (block_header s),
     bf_producer = bh_producer (block_header s),
     bf_previous = bh_previous (block_header s),
     bf_transaction_mroot = bh_transaction_mroot (block_header s),
     bf_action_mroot = bh_action_mroot (block_header s),
     bf_trx_count = trx_count s,
     bf_last_irreversible = irreversible s\<rparr>))"

definition receive_this_block :: "('db, 'ctx) env \<Rightarrow> get_blocks_result \<Rightarrow> block_position \<Rightarrow> ('db, 'ctx, bool) rop" where
  "receive_this_block E result this_block =
     andThen (stmts [
       updates (\<lambda>s. s\<lparr>received_blocks := received_blocks s + 1\<rparr>),
       inspect (\<lambda>s. whenM (bp_block_num (gbr_last_irreversible result) < irreversible s)
         (throw (Runtime_error ''Irreversible block in state history is lower than the one last seen''))),
       if interactive_mode (cfg E) then
         inspect (\<lambda>s. whenM (bp_block_num this_block = end_block_num s - 1) (stmts [
           updates (\<lambda>s. s\<lparr>interactive_req_pending := False\<rparr>),
           process_interactive_reqs E]))
       else check_position E result (bp_block_num this_block),
       updates (\<lambda>s. s\<lparr>
         head := bp_block_num this_block,
         head_id := bp_block_id this_block,
         irreversible := bp_block_num (gbr_last_irreversible result),
         irreversible_id := bp_block_id (gbr_last_irreversible result)\<rparr>),
       (case gbr_block result of None \<Rightarrow> ret () | Some b \<Rightarrow> receive_block E b),
       if \<not> interactive_mode (cfg E) then state_changes E result this_block
       else (case gbr_deltas result of None \<Rightarrow> ret () | Some deltas \<Rightarrow> receive_deltas E deltas),
       (case gbr_traces result of None \<Rightarrow> ret () | Some traces \<Rightarrow> receive_traces E traces),
       complete_block])
     (\<lambda>_. reads (\<lambda>s. \<not> aborting s))"

definition receive_result :: "('db, 'ctx) env \<Rightarrow> bytes \<Rightarrow> ('db, 'ctx, bool) rop" where
  "receive_result E p =
     andThen (get_type ''result'') (\<lambda>type.
     andThen (liftE (check_variant_name (ship E) p type ''get_blocks_result_v0'')) (\<lambda>bin.
     andThen (liftE (result_from_bin (ship E) bin)) (\<lambda>(result, _).
       case gbr_this_block result of
         None \<Rightarrow> ret True
       | Some this_block \<Rightarrow> receive_this_block E result this_block)))"

section \<open>The transitions of the receiver\<close>

text \<open>
  What the executor runs: the completion of the read in flight and the timers; \<open>own_step E s t\<close>
  is one such event, and a handler that does not return has none. \<open>step\<close> adds the calls of
  the exporter.
\<close>

definition read_completed :: "('db, 'ctx) env \<Rightarrow> nat \<Rightarrow> bool \<Rightarrow> bytes \<Rightarrow> ('db, 'ctx, unit) rop" where
  "read_completed E queue_size ec p = callback ec
     (andThen (receive_result E p) (\<lambda>ok. whenM ok (continue_read E queue_size)))"

inductive own_step :: "('db, 'ctx) env \<Rightarrow> ('db, 'ctx) receiver \<Rightarrow> ('db, 'ctx) receiver \<Rightarrow> bool"
  for E :: "('db, 'ctx) env" where
  first_read_completed: "reading s \<Longrightarrow> \<not> receiver_ready s \<Longrightarrow>
    callback ec (first_read E q p) (s\<lparr>reading := False\<rparr>) = Return () t \<Longrightarrow> own_step E s t"
| message: "reading s \<Longrightarrow> receiver_ready s \<Longrightarrow>
    read_completed E q ec p (s\<lparr>reading := False\<rparr>) = Return () t \<Longrightarrow> own_step E s t"
| pause_over: "pause_timer s = Some ms \<Longrightarrow>
    callback ec (continue_read E q) (s\<lparr>pause_timer := None\<rparr>) = Return () t \<Longrightarrow> own_step E s t"
| stale_check: "stale_timer s = Some ms \<Longrightarrow>
    callback ec (check_stale_head E) (s\<lparr>stale_timer := None\<rparr>) = Return () t \<Longrightarrow> own_step E s t"

inductive step :: "('db, 'ctx) env \<Rightarrow> ('db, 'ctx) receiver \<Rightarrow> ('db, 'ctx) receiver \<Rightarrow> bool"
  for E :: "('db, 'ctx) env" where
  own: "own_step E s t \<Longrightarrow> step E s t"
| acked: "exporter_will_ack s \<Longrightarrow> ack_block n s = Return () t \<Longrightarrow> step E s t"
| slowed: "slowdown b s = Return () t \<Longrightarrow> step E s t"
| aborted: "abort_receiver s = Return () t \<Longrightarrow> step E s t"
| requested: "interactive_mode (cfg E) \<Longrightarrow> on_block_req E req s = Return () t \<Longrightarrow> step E s t"

inductive_cases own_step_cases: "own_step E s t"
inductive_cases step_cases: "step E s t"

section \<open>The invariant of the scan modes\<close>

text \<open>
  The versions of the database, the newest first, are numbered by their revisions. Each was
  saved with its own revision as head (the oldest may be that of a new database), has its
  received blocks in order and none above it, and only valid ABIs.
\<close>

definition version_ok :: "(bytes \<Rightarrow> bool) \<Rightarrow> int \<Rightarrow> tables \<Rightarrow> bool \<Rightarrow> bool" where
  "version_ok valid n t oldest_one \<longleftrightarrow>
     keys_sorted (received_rows t) \<and> (\<forall>k \<in> fst ` set (received_rows t). uint k \<le> n) \<and>
     (\<forall>a abi. map_of (abi_rows t) a = Some abi \<longrightarrow> valid abi) \<and>
     (oldest_one \<and> state_rows t = [] \<or> (\<exists>row. state_rows t = [row] \<and> uint (so_head row) = n))"

fun chain :: "(bytes \<Rightarrow> bool) \<Rightarrow> int \<Rightarrow> tables list \<Rightarrow> bool" where
  "chain valid n [] = True"
| "chain valid n (t # ts) = (version_ok valid n t (ts = []) \<and> chain valid (n - 1) ts)"

definition chained :: "('db, 'ctx) env \<Rightarrow> ('db \<Rightarrow> tables list) \<Rightarrow> (bytes \<Rightarrow> bool) \<Rightarrow> 'db \<Rightarrow> bool" where
  "chained E stack valid d = chain valid (cb_revision (cb E) d) (versions (cb E) stack d)"

definition saved_state :: "('db, 'ctx) receiver \<Rightarrow> state_object" where
  "saved_state s = \<lparr>so_head = head s, so_head_id = head_id s, so_irreversible = irreversible s,
     so_irreversible_id = irreversible_id s\<rparr>"

text \<open>
  Between two messages the members are those of the saved state and the revision is the
  head; or no block was processed yet.
\<close>

definition in_step :: "('db, 'ctx) env \<Rightarrow> ('db \<Rightarrow> tables list) \<Rightarrow> ('db, 'ctx) receiver \<Rightarrow> bool" where
  "in_step E stack s \<longleftrightarrow>
     (state_rows (tables_of E s) = [saved_state s] \<and> cb_revision (cb E) (db s) = uint (head s)) \<or>
     (state_rows (tables_of E s) = [] \<and> stack (db s) = [] \<and> cb_revision (cb E) (db s) \<le> uint (head s))"

definition scan_inv ::
    "('db, 'ctx) env \<Rightarrow> ('db \<Rightarrow> tables list) \<Rightarrow> ('ctx \<Rightarrow> u64 \<rightharpoonup> bytes) \<Rightarrow> (bytes \<Rightarrow> bool) \<Rightarrow> ('db, 'ctx) receiver \<Rightarrow> bool" where
  "scan_inv E stack loaded valid s \<longleftrightarrow> \<not> dblock s \<and> chained E stack valid (db s) \<and>
     abi_cache_coherent E loaded valid s \<and> in_step E stack s"

lemma version_ok_weaken: "version_ok valid n t b \<Longrightarrow> (b \<Longrightarrow> c) \<Longrightarrow> version_ok valid n t c"
  by (auto simp: version_ok_def)

lemma chain_drop: "chain valid n ts \<Longrightarrow> chain valid (n - int k) (drop k ts)"
proof (induction k arbitrary: n ts)
  case (Suc k)
  show ?case
  proof (cases ts)
    case (Cons t us)
    then have "chain valid (n - 1 - int k) (drop k us)" using Suc by simp
    then show ?thesis using Cons by (simp add: algebra_simps)
  qed simp
qed simp

lemma chain_take: "chain valid n ts \<Longrightarrow> chain valid n (take k ts)"
proof (induction k arbitrary: n ts)
  case (Suc k)
  then show ?case by (cases ts) (auto elim: version_ok_weaken)
qed simp

lemma wp_undo_session [wp_simps]:
  "wp D (undo_session E body) Q X s =
     wp D body Q (\<lambda>e t. X e (t\<lparr>db := cb_undo (cb E) (db t)\<rparr>)) (s\<lparr>db := cb_start_session (cb E) (db s)\<rparr>)"
  by (simp add: undo_session_def wp_def split: outcome.splits)

lemma wp_save_state [wp_simps]:
  "wp D (save_state E) Q X s = Q () (s\<lparr>db := cb_write (cb E)
     ((tables_of E s)\<lparr>state_rows := saved_state s # tl (state_rows (tables_of E s))\<rparr>) (db s)\<rparr>)"
  by (simp add: save_state_def wp_simps saved_state_def create_state_def Let_def split: list.splits)

lemma wp_commit_db [wp_simps]:
  "wp D (commit_db E) Q X s = Q () (s\<lparr>db := cb_commit (cb E)
     (uint (if exporter_will_ack s then min (irreversible s) (exporter_acked_block s) else irreversible s)) (db s)\<rparr>)"
  by (auto simp: commit_db_def wp_simps Let_def min_def not_less order.order_iff_strict)

lemma wp_rollback [wp_simps]:
  "wp D (rollback E b) Q X s = (case while_option (\<lambda>d. cb_revision (cb E) d \<ge> uint b) (cb_undo (cb E)) (db s) of
      None \<Rightarrow> D
    | Some d \<Rightarrow> if cb_revision (cb E) d \<le> 0
        then X (Runtime_error (''Cannot rollback, no undo stack at revision '' @ decimal_int (cb_revision (cb E) d))) (s\<lparr>db := d\<rparr>)
        else Q () (s\<lparr>db := d\<rparr>))"
  by (simp add: rollback_def wp_simps split: option.splits)

lemma wp_case_option [wp_simps]:
  "wp D (case x of None \<Rightarrow> m | Some a \<Rightarrow> f a) Q X s = (case x of None \<Rightarrow> wp D m Q X s | Some a \<Rightarrow> wp D (f a) Q X s)"
  by (simp split: option.splits)

subsection \<open>Truncating the received blocks\<close>

context undo_database
begin

lemma truncate_loop:
  assumes "keys_sorted (received_rows (cb_tables cb d))" and "k \<in> fst ` set (received_rows (cb_tables cb d))" and "irr \<le> k"
  shows "\<exists>d'. while_option
       (\<lambda>d. case received_rows (cb_tables cb d) of [] \<Rightarrow> False | (b, _) # _ \<Rightarrow> b < irr)
       (\<lambda>d. cb_write cb (remove_received_block (fst (hd (received_rows (cb_tables cb d)))) (cb_tables cb d)) d) d = Some d'
    \<and> cb_tables cb d' = (cb_tables cb d)\<lparr>received_rows := filter (\<lambda>(b, _). irr \<le> b) (received_rows (cb_tables cb d))\<rparr>
    \<and> stack d' = stack d \<and> cb_revision cb d' = cb_revision cb d"
  using assms
proof (induction "length (received_rows (cb_tables cb d))" arbitrary: d rule: less_induct)
  case less
  obtain b i rest where rows: "received_rows (cb_tables cb d) = (b, i) # rest"
    using less.prems(2) by (cases "received_rows (cb_tables cb d)") auto
  show ?case
  proof (cases "b < irr")
    case True
    let ?e = "cb_write cb (remove_received_block b (cb_tables cb d)) d"
    have "b \<notin> fst ` set rest" using less.prems(1) rows by auto
    then have "filter (\<lambda>(a, _). a \<noteq> b) rest = rest" by (force simp: filter_id_conv)
    then have e: "cb_tables cb ?e = (cb_tables cb d)\<lparr>received_rows := rest\<rparr>"
      using rows by (simp add: write_tables remove_received_block_def drop_row_def)
    have "k \<in> fst ` set rest" using less.prems(2,3) rows True by auto
    then obtain d' where d': "while_option
       (\<lambda>d. case received_rows (cb_tables cb d) of [] \<Rightarrow> False | (b, _) # _ \<Rightarrow> b < irr)
       (\<lambda>d. cb_write cb (remove_received_block (fst (hd (received_rows (cb_tables cb d)))) (cb_tables cb d)) d) ?e = Some d'"
      "cb_tables cb d' = (cb_tables cb ?e)\<lparr>received_rows := filter (\<lambda>(b, _). irr \<le> b) (received_rows (cb_tables cb ?e))\<rparr>"
      "stack d' = stack ?e" "cb_revision cb d' = cb_revision cb ?e"
      using less.hyps [of ?e] less.prems(1,3) rows e by auto
    then show ?thesis
      using rows True e by (subst while_option_unfold) (auto simp: write_stack write_revision)
  next
    case False
    then have "\<forall>x \<in> set rest. irr \<le> fst x" using less.prems(1) rows by fastforce
    then have "filter (\<lambda>(b, _). irr \<le> b) rest = rest" by (auto simp: filter_id_conv)
    then show ?thesis using rows False by (subst while_option_unfold) simp
  qed
qed

end

lemma truncate_runs:
  assumes "undo_database (cb E) stack"
    and "keys_sorted (received_rows (tables_of E s))" and "k \<in> fst ` set (received_rows (tables_of E s))"
    and "irreversible s \<le> k"
  shows "\<exists>d. truncate_received_blocks E s = Return () (s\<lparr>db := d\<rparr>)
    \<and> cb_tables (cb E) d = (tables_of E s)\<lparr>received_rows := filter (\<lambda>(b, _). irreversible s \<le> b) (received_rows (tables_of E s))\<rparr>
    \<and> stack d = stack (db s) \<and> cb_revision (cb E) d = cb_revision (cb E) (db s)"
proof -
  obtain d where d: "while_option
       (\<lambda>d. case received_rows (cb_tables (cb E) d) of [] \<Rightarrow> False | (b, _) # _ \<Rightarrow> b < irreversible s)
       (\<lambda>d. cb_write (cb E) (remove_received_block (fst (hd (received_rows (cb_tables (cb E) d)))) (cb_tables (cb E) d)) d) (db s) = Some d"
    "cb_tables (cb E) d = (tables_of E s)\<lparr>received_rows := filter (\<lambda>(b, _). irreversible s \<le> b) (received_rows (tables_of E s))\<rparr>"
    "stack d = stack (db s)" "cb_revision (cb E) d = cb_revision (cb E) (db s)"
    using undo_database.truncate_loop [OF assms(1-4)] by blast
  obtain v where "(k, v) \<in> set (filter (\<lambda>(b, _). irreversible s \<le> b) (received_rows (tables_of E s)))"
    using assms(3,4) by auto
  then have "received_rows (cb_tables (cb E) d) \<noteq> []" using d(2) by (auto simp: filter_empty_conv)
  then show ?thesis
    using d by (intro exI [of _ d]) (auto simp: truncate_received_blocks_def split: list.splits)
qed

subsection \<open>The state changes of a block\<close>

lemma received_after_create:
  assumes "keys_sorted rows" and "\<forall>k \<in> fst ` set rows. uint k \<le> uint b - 1"
  shows "keys_sorted (put_row b i rows) \<and> (\<forall>k \<in> fst ` set (put_row b i rows). uint k \<le> uint b) \<and> map_of rows b = None
     \<and> b \<in> fst ` set (put_row b i rows)"
proof -
  have "fst ` set (put_row b i rows) = insert b (fst ` set rows)" using set_put_row [of b i rows] by simp
  moreover have "b \<notin> fst ` set rows" using assms(2) by force
  ultimately show ?thesis using assms by (auto simp: map_of_eq_None_iff)
qed

text \<open>What holds inside the undo session: \<open>vs\<close> are the versions before it.\<close>

definition in_session ::
    "('db, 'ctx) env \<Rightarrow> ('db \<Rightarrow> tables list) \<Rightarrow> ('ctx \<Rightarrow> u64 \<rightharpoonup> bytes) \<Rightarrow> (bytes \<Rightarrow> bool) \<Rightarrow>
     ('db, 'ctx) receiver \<Rightarrow> tables list \<Rightarrow> u32 \<Rightarrow> ('db, 'ctx) receiver \<Rightarrow> bool" where
  "in_session E stack loaded valid s vs b t \<longleftrightarrow>
     frozen t = frozen s \<and> stack (db t) = vs \<and> cb_revision (cb E) (db t) = uint b
     \<and> keys_sorted (received_rows (tables_of E t)) \<and> (\<forall>k \<in> fst ` set (received_rows (tables_of E t)). uint k \<le> uint b)
     \<and> tl (state_rows (tables_of E t)) = [] \<and> abi_cache_coherent E loaded valid t"

definition left_session ::
    "('db, 'ctx) env \<Rightarrow> ('db \<Rightarrow> tables list) \<Rightarrow> ('db, 'ctx) receiver \<Rightarrow> tables list \<Rightarrow> u32 \<Rightarrow> ('db, 'ctx) receiver \<Rightarrow> bool" where
  "left_session E stack s vs b t \<longleftrightarrow>
     frozen t = frozen s \<and> stack (db t) = vs \<and> cb_revision (cb E) (db t) = uint b"

lemma in_session_left: "in_session E stack loaded valid s vs b t \<Longrightarrow> left_session E stack s vs b t"
  by (simp add: in_session_def left_session_def)

context abi_store
begin

lemma coherent_abi_rows:
  assumes "abi_cache_coherent E loaded valid_abi s" and "abi_rows (cb_tables (cb E) d) = abi_rows (tables_of E s)"
  shows "abi_cache_coherent E loaded valid_abi (s\<lparr>db := d\<rparr>)"
  using assms by (simp add: abi_cache_coherent_def)

lemma session_received:
  assumes s: "in_session E stack loaded valid_abi s vs b t"
    and keys: "\<forall>k \<in> fst ` set (received_rows (tables_of E t)). uint k \<le> uint b - 1"
  shows "wp False (inspect (\<lambda>s. whenM (b > irreversible s) (stmts [
         create_row E (create_received_block b i), truncate_received_blocks E])))
     (\<lambda>_. in_session E stack loaded valid_abi s vs b) (\<lambda>_. left_session E stack s vs b) t"
proof (cases "b > irreversible t")
  case False
  then show ?thesis using s by (simp add: wp_simps)
next
  case True
  let ?T = "tables_of E t"
  have rows: "keys_sorted (put_row b i (received_rows ?T))" "b \<in> fst ` set (put_row b i (received_rows ?T))"
    "\<forall>k \<in> fst ` set (put_row b i (received_rows ?T)). uint k \<le> uint b" "map_of (received_rows ?T) b = None"
    using received_after_create [OF _ keys, of i] s by (auto simp: in_session_def)
  let ?U = "?T\<lparr>received_rows := put_row b i (received_rows ?T)\<rparr>"
  let ?t = "t\<lparr>db := cb_write (cb E) ?U (db t)\<rparr>"
  have created: "create_received_block b i ?T = Some ?U" using rows(4) by (simp add: create_received_block_def)
  obtain d where d: "truncate_received_blocks E ?t = Return () (?t\<lparr>db := d\<rparr>)"
    "cb_tables (cb E) d = ?U\<lparr>received_rows := filter (\<lambda>(b, _). irreversible t \<le> b) (put_row b i (received_rows ?T))\<rparr>"
    "stack d = stack (db t)" "cb_revision (cb E) d = cb_revision (cb E) (db t)"
    using truncate_runs [OF undo_database_axioms, of ?t b] rows(1,2) less_imp_le [OF True]
    by (simp add: write_tables write_stack write_revision) blast
  have "in_session E stack loaded valid_abi s vs b (?t\<lparr>db := d\<rparr>)"
    using s rows(1,3) d(2,3,4) coherent_abi_rows [of t d]
    by (auto simp: in_session_def sorted_wrt_map intro!: sorted_wrt_filter)
  then show ?thesis
    using True created d(1) by (simp add: wp_simps wp_def [of _ "truncate_received_blocks E"])
qed

lemma session_deltas:
  assumes s: "in_session E stack loaded valid_abi s vs b t" and scan: "\<not> interactive_mode (cfg E)"
  shows "wp False (case deltas of None \<Rightarrow> ret () | Some d \<Rightarrow> receive_deltas E d)
     (\<lambda>_. in_session E stack loaded valid_abi s vs b) (\<lambda>_. left_session E stack s vs b) t"
proof (cases deltas)
  case None
  then show ?thesis using s by (simp add: wp_simps)
next
  case (Some d)
  have "wp False (receive_deltas E d)
       (\<lambda>_ u. abi_frame E stack t u \<and>
          (\<not> interactive_mode (cfg E) \<and> abi_cache_coherent E loaded valid_abi t \<longrightarrow> abi_cache_coherent E loaded valid_abi u))
       (\<lambda>_ u. abi_frame E stack t u) t"
    using receive_deltas_safe [of d] scan by (simp add: delta_safe_def)
  then show ?thesis
    unfolding Some option.case
    by (rule wp_mono) (use s scan in \<open>auto simp: in_session_def left_session_def abi_frame_def\<close>)
qed

lemma wp_seq:
  "wp D m (\<lambda>_. P) X s \<Longrightarrow> (\<And>t. P t \<Longrightarrow> wp D (stmts ms) Q X t) \<Longrightarrow> wp D (stmts (m # ms)) Q X s"
  by (auto simp: wp_andThen elim: wp_mono)

lemma session_body_runs:
  assumes s: "in_session E stack loaded valid_abi s vs b t" and scan: "\<not> interactive_mode (cfg E)"
    and keys: "\<forall>k \<in> fst ` set (received_rows (tables_of E t)). uint k \<le> uint b - 1"
  shows "wp False (stmts [
       inspect (\<lambda>s. whenM (b > irreversible s) (stmts [
         create_row E (create_received_block b i), truncate_received_blocks E])),
       (case deltas of None \<Rightarrow> ret () | Some d \<Rightarrow> receive_deltas E d),
       save_state E])
     (\<lambda>_ u. in_session E stack loaded valid_abi s vs b u \<and> state_rows (tables_of E u) = [saved_state s])
     (\<lambda>_. left_session E stack s vs b) t"
proof -
  have last: "wp False (stmts [save_state E])
     (\<lambda>_ u. in_session E stack loaded valid_abi s vs b u \<and> state_rows (tables_of E u) = [saved_state s]) X u"
    if u: "in_session E stack loaded valid_abi s vs b u" for X u
  proof -
    have "saved_state u = saved_state s"
      using u frozenD [of u s] by (simp add: in_session_def saved_state_def)
    moreover let ?T = "(tables_of E u)\<lparr>state_rows := saved_state u # tl (state_rows (tables_of E u))\<rparr>"
    have "abi_cache_coherent E loaded valid_abi (u\<lparr>db := cb_write (cb E) ?T (db u)\<rparr>)"
      by (rule coherent_abi_rows) (use u in \<open>simp_all add: in_session_def write_tables\<close>)
    ultimately show ?thesis
      using u by (simp add: wp_simps in_session_def write_tables write_stack write_revision)
  qed
  have rest: "wp False (stmts [(case deltas of None \<Rightarrow> ret () | Some d \<Rightarrow> receive_deltas E d), save_state E])
     (\<lambda>_ u. in_session E stack loaded valid_abi s vs b u \<and> state_rows (tables_of E u) = [saved_state s])
     (\<lambda>_. left_session E stack s vs b) u"
    if u: "in_session E stack loaded valid_abi s vs b u" for u
    by (rule wp_seq [OF session_deltas [OF u scan]]) (rule last)
  show ?thesis
    by (rule wp_seq [OF session_received [OF s keys]]) (rule rest)
qed

text \<open>
  A block's state changes make one new version, saved with the new head, on top of the old
  ones, and drop those that the commit makes permanent; when they throw, the versions are
  those before.
\<close>

lemma state_changes_runs:
  assumes scan: "\<not> interactive_mode (cfg E)" and free: "\<not> dblock s"
    and chained: "chained E stack valid_abi (db s)" and coh: "abi_cache_coherent E loaded valid_abi s"
    and rev: "cb_revision (cb E) (db s) = uint (bp_block_num this_block) - 1"
    and head: "head s = bp_block_num this_block"
  shows "wp False (state_changes E result this_block)
    (\<lambda>_ t. frozen t = frozen s \<and> chained E stack valid_abi (db t) \<and> abi_cache_coherent E loaded valid_abi t
       \<and> state_rows (tables_of E t) = [saved_state s] \<and> cb_revision (cb E) (db t) = uint (head s)
       \<and> versions (cb E) stack (db t) =
           take (Suc (nat (uint (head s) - uint (if exporter_will_ack s then min (irreversible s) (exporter_acked_block s) else irreversible s))))
             (tables_of E t # versions (cb E) stack (db s)))
    (\<lambda>_ t. frozen t = frozen s \<and> versions (cb E) stack (db t) = versions (cb E) stack (db s)
       \<and> cb_revision (cb E) (db t) = cb_revision (cb E) (db s)) s"
proof -
  let ?b = "bp_block_num this_block"
  let ?s = "s\<lparr>dblock := True, db := cb_start_session (cb E) (db (s\<lparr>dblock := True\<rparr>))\<rparr>"
  let ?vs = "versions (cb E) stack (db s)"
  let ?body = "stmts [
       inspect (\<lambda>s. whenM (?b > irreversible s) (stmts [
         create_row E (create_received_block ?b (bp_block_id this_block)), truncate_received_blocks E])),
       (case gbr_deltas result of None \<Rightarrow> ret () | Some d \<Rightarrow> receive_deltas E d),
       save_state E]"
  have top: "version_ok valid_abi (uint ?b - 1) (tables_of E s) (stack (db s) = [])"
    using chained rev by (simp add: chained_def versions_def)
  then have "in_session E stack loaded valid_abi ?s ?vs ?b ?s"
    using rev coh
    by (auto simp: in_session_def start_stack start_revision start_tables versions_def version_ok_def
        abi_cache_coherent_def)
  moreover have "\<forall>k \<in> fst ` set (received_rows (tables_of E ?s)). uint k \<le> uint ?b - 1"
    using top by (simp add: start_tables version_ok_def)
  ultimately have body: "wp False ?body
     (\<lambda>_ u. in_session E stack loaded valid_abi ?s ?vs ?b u \<and> state_rows (tables_of E u) = [saved_state ?s])
     (\<lambda>_. left_session E stack ?s ?vs ?b) ?s"
    by (rule session_body_runs [OF _ scan])
  have fr: "frozen (u\<lparr>db := d, dblock := False\<rparr>) = frozen s" if "frozen u = frozen (s\<lparr>dblock := True\<rparr>)" for u d
  proof -
    have "frozen (u\<lparr>db := d, dblock := False\<rparr>) = (frozen u)\<lparr>dblock := False\<rparr>" by (simp add: frozen_def)
    also have "\<dots> = frozen s" using that free by (simp add: frozen_def)
    finally show ?thesis .
  qed
  let ?c = "uint (if exporter_will_ack s then min (irreversible s) (exporter_acked_block s) else irreversible s)"
  have fin: "chained E stack valid_abi (cb_commit (cb E) ?c (db u)) \<and>
      versions (cb E) stack (cb_commit (cb E) ?c (db u)) = take (Suc (nat (uint ?b - ?c))) (tables_of E u # ?vs)"
    if u: "in_session E stack loaded valid_abi ?s ?vs ?b u" "state_rows (tables_of E u) = [saved_state ?s]" for u
  proof -
    have "version_ok valid_abi (uint ?b) (tables_of E u) False"
      using u head by (auto simp: version_ok_def in_session_def abi_cache_coherent_def saved_state_def)
    moreover have "chain valid_abi (uint ?b - 1) ?vs" using chained rev by (simp add: chained_def)
    ultimately have "chain valid_abi (uint ?b) (tables_of E u # ?vs)" by (simp add: versions_def)
    then have "chain valid_abi (uint ?b) (take (Suc (nat (uint ?b - ?c))) (tables_of E u # ?vs))" by (rule chain_take)
    moreover have "versions (cb E) stack (db u) = tables_of E u # ?vs" "cb_revision (cb E) (db u) = uint ?b"
      using u by (auto simp: versions_def in_session_def)
    ultimately show ?thesis by (simp add: chained_def versions_commit commit_revision)
  qed
  have ack: "exporter_will_ack u = exporter_will_ack s \<and> irreversible u = irreversible s
      \<and> exporter_acked_block u = exporter_acked_block s" if "frozen u = frozen ?s" for u
    using frozenD [OF that] by simp
  have undone: "versions (cb E) stack (cb_undo (cb E) (db u)) = ?vs \<and>
     cb_revision (cb E) (cb_undo (cb E) (db u)) = cb_revision (cb E) (db s)"
    if u: "left_session E stack ?s ?vs ?b u" for u
  proof -
    have "stack (db u) = tables_of E s # stack (db s)" using u by (simp add: left_session_def versions_def)
    then show ?thesis
      using u rev undo_tables [of "db u"] undo_stack [of "db u"] undo_revision [of "db u"]
      by (simp add: left_session_def versions_def)
  qed
  let ?Q = "\<lambda>t. frozen t = frozen s \<and> chained E stack valid_abi (db t) \<and> abi_cache_coherent E loaded valid_abi t
       \<and> state_rows (tables_of E t) = [saved_state s] \<and> cb_revision (cb E) (db t) = uint (head s)
       \<and> versions (cb E) stack (db t) = take (Suc (nat (uint (head s) - ?c))) (tables_of E t # ?vs)"
  let ?X = "\<lambda>t. frozen t = frozen s \<and> versions (cb E) stack (db t) = ?vs
       \<and> cb_revision (cb E) (db t) = cb_revision (cb E) (db s)"
  have committed: "?Q (u\<lparr>db := cb_commit (cb E) ?c (db u), dblock := False\<rparr>)"
    if u: "in_session E stack loaded valid_abi ?s ?vs ?b u" "state_rows (tables_of E u) = [saved_state ?s]" for u
    using fin [OF u] u head coherent_abi_rows [of "u\<lparr>dblock := False\<rparr>"]
    by (auto simp: in_session_def commit_tables commit_revision saved_state_def fr abi_cache_coherent_def)
  have thrown: "?X (u\<lparr>db := cb_undo (cb E) (db u), dblock := False\<rparr>)"
    if u: "left_session E stack ?s ?vs ?b u" for u
    using undone [OF u] u by (simp add: left_session_def fr)
  have "wp False (undo_session E ?body)
      (\<lambda>_ u. ?Q (u\<lparr>db := cb_commit (cb E) ?c (db u), dblock := False\<rparr>) \<and> frozen u = frozen ?s)
      (\<lambda>_ u. ?X (u\<lparr>dblock := False\<rparr>)) (s\<lparr>dblock := True\<rparr>)"
    unfolding wp_undo_session
  proof (rule wp_mono [OF body])
    fix u :: "('db, 'ctx) receiver"
    assume "left_session E stack ?s ?vs ?b u"
    then show "?X (u\<lparr>db := cb_undo (cb E) (db u), dblock := False\<rparr>)" by (rule thrown)
  qed (use committed in \<open>auto simp: in_session_def\<close>)
  then have "wp False (stmts [undo_session E ?body, commit_db E])
      (\<lambda>_ u. ?Q (u\<lparr>dblock := False\<rparr>)) (\<lambda>_ u. ?X (u\<lparr>dblock := False\<rparr>)) (s\<lparr>dblock := True\<rparr>)"
  proof (rule wp_seq)
    fix u :: "('db, 'ctx) receiver"
    assume u: "?Q (u\<lparr>db := cb_commit (cb E) ?c (db u), dblock := False\<rparr>) \<and> frozen u = frozen ?s"
    then have "(if exporter_will_ack u then min (irreversible u) (exporter_acked_block u) else irreversible u)
      = (if exporter_will_ack s then min (irreversible s) (exporter_acked_block s) else irreversible s)"
      using ack by auto
    with u show "wp False (stmts [commit_db E]) (\<lambda>_ u. ?Q (u\<lparr>dblock := False\<rparr>)) (\<lambda>_ u. ?X (u\<lparr>dblock := False\<rparr>)) u"
      by (simp only: stmts.simps wp_andThen wp_ret wp_commit_db)
  qed
  then show ?thesis by (simp only: state_changes_def wp_scoped_lock free if_False)
qed

end

subsection \<open>The position of a block\<close>

text \<open>The members that the position check may change besides the database, the cache and the events.\<close>

definition frozen_but_fork :: "('db, 'ctx) receiver \<Rightarrow> ('db, 'ctx) receiver" where
  "frozen_but_fork s = frozen (s\<lparr>exporter_acked_block := 0, forked_at_block := 0\<rparr>)"

lemma wp_run: "m s = Return a t \<Longrightarrow> wp D m Q X s = Q a t"
  by (simp add: wp_def)

lemma uint_minus_1: "0 < (b :: u32) \<Longrightarrow> uint (b - 1) = uint b - 1"
proof -
  assume "0 < b"
  then have "0 < uint b" by (simp add: word_less_def)
  moreover have "uint b < 2 ^ 32" using unsigned_less [of b, where ?'a = int] by simp
  ultimately show ?thesis by (simp add: uint_word_ariths)
qed

lemma uint_next: "0 < (h + 1 :: u32) \<Longrightarrow> uint (h + 1) = uint h + 1"
  using uint_minus_1 [of "h + 1"] by simp

text \<open>The block continues the chain, or replaces one whose predecessor can be restored.\<close>

definition acceptable :: "('db, 'ctx) env \<Rightarrow> ('db \<Rightarrow> tables list) \<Rightarrow> ('db, 'ctx) receiver \<Rightarrow> u32 \<Rightarrow> u32 \<Rightarrow> bool" where
  "acceptable E stack s b last_irreversible \<longleftrightarrow> 0 < b \<and>
     (b = head s + 1 \<or> b \<le> head s \<and> last_irreversible < b \<and> oldest (cb E) stack (db s) < uint b)"

context abi_store
begin

lemma chained_drop:
  assumes "chained E stack valid_abi d" and "versions (cb E) stack e = drop k (versions (cb E) stack d)"
    and "cb_revision (cb E) e = cb_revision (cb E) d - int k"
  shows "chained E stack valid_abi e"
  using assms chain_drop [of valid_abi "cb_revision (cb E) d" "versions (cb E) stack d" k] by (simp add: chained_def)

lemma rollback_db:
  assumes "chained E stack valid_abi (db s)" and "oldest (cb E) stack (db s) < uint b"
    and "uint b \<le> cb_revision (cb E) (db s) + 1"
  shows "\<exists>d. while_option (\<lambda>d. cb_revision (cb E) d \<ge> uint b) (cb_undo (cb E)) (db s) = Some d
    \<and> cb_revision (cb E) d = uint b - 1 \<and> chained E stack valid_abi d
    \<and> versions (cb E) stack d = drop (nat (cb_revision (cb E) (db s) - (uint b - 1))) (versions (cb E) stack (db s))"
proof -
  obtain d where d: "while_option (\<lambda>d. cb_revision (cb E) d \<ge> uint b) (cb_undo (cb E)) (db s) = Some d"
    "cb_revision (cb E) d = min (cb_revision (cb E) (db s)) (uint b - 1)"
    "versions (cb E) stack d = drop (nat (cb_revision (cb E) (db s) - (uint b - 1))) (versions (cb E) stack (db s))"
    using undo_loop [OF assms(2)] by blast
  have "min (cb_revision (cb E) (db s)) (uint b - 1) = uint b - 1" using assms(3) by simp
  with d chained_drop [OF assms(1) d(3)] assms(3) show ?thesis by (intro exI [of _ d]) simp
qed

lemma handle_fork_runs:
  assumes "chained E stack valid_abi (db s)" and "oldest (cb E) stack (db s) < uint b"
    and "uint b \<le> cb_revision (cb E) (db s) + 1" and "abi_cache_coherent E loaded valid_abi s"
  shows "wp False (handle_fork E b irr)
    (\<lambda>_ t. frozen_but_fork t = frozen_but_fork s \<and> chained E stack valid_abi (db t) \<and> abi_cache_coherent E loaded valid_abi t
      \<and> cb_revision (cb E) (db t) = uint b - 1
      \<and> versions (cb E) stack (db t) = drop (nat (cb_revision (cb E) (db s) - (uint b - 1))) (versions (cb E) stack (db s))
      \<and> exporter_acked_block t = (if exporter_will_ack s then min (exporter_acked_block s) (b - 1) else exporter_acked_block s)
      \<and> forked_at_block t = b
      \<and> published t = published s @ [Fork \<lparr>fe_block_num = b, fe_depth = head s - b, fe_fork_reason = Network,
          fe_last_irreversible = irr\<rparr>])
    (\<lambda>_ t. dblock t = dblock s \<and> chained E stack valid_abi (db t)) s"
proof -
  obtain d where d: "while_option (\<lambda>d. cb_revision (cb E) d \<ge> uint b) (cb_undo (cb E)) (db s) = Some d"
    "cb_revision (cb E) d = uint b - 1" "chained E stack valid_abi d"
    "versions (cb E) stack d = drop (nat (cb_revision (cb E) (db s) - (uint b - 1))) (versions (cb E) stack (db s))"
    using rollback_db [OF assms(1,2,3)] by blast
  obtain c where c: "contract_abi_ctxt s = Some c" using assms(4) by (auto simp: abi_cache_coherent_def)
  obtain t ts where v: "versions (cb E) stack d = t # ts" by (simp add: versions_def)
  have "version_ok valid_abi (uint b - 1) (cb_tables (cb E) d) (ts = [])"
    using d(2,3) v by (auto simp: chained_def versions_def)
  then have "\<forall>a abi. map_of (abi_rows (cb_tables (cb E) d)) a = Some abi \<longrightarrow> valid_abi abi"
    by (simp add: version_ok_def)
  with d c show ?thesis
    by (auto simp: handle_fork_def wp_simps issue_fork_def frozen_but_fork_def frozen_def abi_cache_coherent_def
        Let_def min_def not_less)
qed

lemma advance_runs:
  assumes inv: "scan_inv E stack loaded valid_abi s" and b: "0 < b" "b = head s + 1 \<or> b \<le> head s"
  shows "\<exists>d. advance_revision E b (s\<lparr>dblock := True\<rparr>) = Return () (s\<lparr>dblock := True, db := d\<rparr>) \<and> chained E stack valid_abi d
    \<and> versions (cb E) stack d = versions (cb E) stack (db s)
    \<and> cb_revision (cb E) d = max (cb_revision (cb E) (db s)) (uint b - 1)"
proof (cases "cb_revision (cb E) (db s) < uint b - 1")
  case False
  then show ?thesis
    using inv b by (intro exI [of _ "db s"]) (simp add: advance_revision_def uint_minus_1 scan_inv_def max_def)
next
  case True
  have "uint b \<le> uint (head s) + 1" using b by (auto simp: uint_next word_le_def)
  then have fresh: "state_rows (tables_of E s) = []" "stack (db s) = []"
    using inv True by (auto simp: scan_inv_def in_step_def)
  obtain d where d: "cb_set_revision (cb E) (uint b - 1) (db s) = Some d" "cb_revision (cb E) d = uint b - 1"
    "stack d = []" "cb_tables (cb E) d = tables_of E s"
    using set_revision_free [OF fresh(2)] True by (metis less_imp_le)
  have "version_ok valid_abi (cb_revision (cb E) (db s)) (tables_of E s) True"
    using inv fresh by (simp add: scan_inv_def chained_def versions_def)
  then have "version_ok valid_abi (uint b - 1) (tables_of E s) True"
    using True fresh by (auto simp: version_ok_def)
  with d True fresh show ?thesis
    by (intro exI [of _ d]) (simp add: advance_revision_def uint_minus_1 b(1) chained_def versions_def max_def)
qed

lemma check_position_runs:
  assumes inv: "scan_inv E stack loaded valid_abi s"
    and ok: "acceptable E stack s b (bp_block_num (gbr_last_irreversible result))"
  shows "wp False (check_position E result b)
    (\<lambda>_ t. frozen_but_fork t = frozen_but_fork s \<and> chained E stack valid_abi (db t) \<and> abi_cache_coherent E loaded valid_abi t
      \<and> cb_revision (cb E) (db t) = uint b - 1
      \<and> versions (cb E) stack (db t) = drop (nat (cb_revision (cb E) (db s) - (uint b - 1))) (versions (cb E) stack (db s))
      \<and> exporter_acked_block t = (if b \<le> head s \<and> exporter_will_ack s then min (exporter_acked_block s) (b - 1) else exporter_acked_block s)
      \<and> forked_at_block t = (if b \<le> head s then b else forked_at_block s)
      \<and> published t = published s @ (if b \<le> head s then [Fork \<lparr>fe_block_num = b, fe_depth = head s - b,
          fe_fork_reason = Network, fe_last_irreversible = bp_block_num (gbr_last_irreversible result)\<rparr>] else []))
    (\<lambda>_ t. \<not> dblock t \<and> chained E stack valid_abi (db t)) s"
proof -
  let ?irr = "bp_block_num (gbr_last_irreversible result)"
  have b: "0 < b" "b = head s + 1 \<or> b \<le> head s" using ok by (auto simp: acceptable_def)
  have free: "\<not> dblock s" using inv by (simp add: scan_inv_def)
  let ?s = "s\<lparr>dblock := True\<rparr>"
  obtain d where adv: "advance_revision E b ?s = Return () (s\<lparr>dblock := True, db := d\<rparr>)" and d: "chained E stack valid_abi d"
    "versions (cb E) stack d = versions (cb E) stack (db s)"
    "cb_revision (cb E) d = max (cb_revision (cb E) (db s)) (uint b - 1)"
    using advance_runs [OF inv b] by blast
  let ?t = "s\<lparr>dblock := True, db := d\<rparr>"
  have adv_wp: "wp D (advance_revision E b) Q X ?s = Q () ?t" for D Q X
    using adv by (rule wp_run)
  have coh: "abi_cache_coherent E loaded valid_abi ?t"
  proof -
    have "cb_tables (cb E) d = tables_of E s" using d(2) by (simp add: versions_def)
    then show ?thesis using inv by (simp add: scan_inv_def abi_cache_coherent_def)
  qed
  have unlock: "frozen_but_fork (u\<lparr>dblock := False\<rparr>) = frozen_but_fork s" if "frozen_but_fork u = frozen_but_fork ?t" for u
  proof -
    have "frozen_but_fork (u\<lparr>dblock := False\<rparr>) = (frozen_but_fork u)\<lparr>dblock := False\<rparr>"
      by (simp add: frozen_but_fork_def frozen_def)
    also have "\<dots> = frozen_but_fork s" unfolding that using free by (simp add: frozen_but_fork_def frozen_def)
    finally show ?thesis .
  qed
  show ?thesis
  proof (cases "b \<le> head s")
    case False
    then have next_block: "b = head s + 1" using b by simp
    then have "cb_revision (cb E) (db s) \<le> uint b - 1"
      using inv b(1) by (auto simp: scan_inv_def in_step_def uint_next)
    then have "cb_revision (cb E) d = uint b - 1" "nat (cb_revision (cb E) (db s) - (uint b - 1)) = 0"
      using d(3) by simp_all
    then show ?thesis
      using False d(1,2) coh free unlock [of ?t]
      by (simp add: check_position_def wp_simps adv_wp Let_def abi_cache_coherent_def split: option.splits)
  next
    case True
    then have not_next: "\<not> b = head s + 1" using b(1) uint_next [of "head s"] by (auto simp: word_le_def)
    have irr: "?irr < b" and old: "oldest (cb E) stack (db s) < uint b" using ok True not_next by (auto simp: acceptable_def)
    have rev: "cb_revision (cb E) (db s) \<le> uint (head s)" using inv by (auto simp: scan_inv_def in_step_def)
    have old': "oldest (cb E) stack d < uint b"
      using old d(2,3) inv rev by (auto simp: oldest_def versions_def max_def scan_inv_def in_step_def)
    have drop: "drop (nat (cb_revision (cb E) d - (uint b - 1))) (versions (cb E) stack d)
        = drop (nat (cb_revision (cb E) (db s) - (uint b - 1))) (versions (cb E) stack (db s))"
      using d(2,3) by (auto simp: max_def)
    note fork = handle_fork_runs [of ?t b ?irr, simplified, OF d(1) old' _ coh]
    have fork': "wp False (handle_fork E b ?irr)
      (\<lambda>_ t. (frozen_but_fork (t\<lparr>dblock := False\<rparr>) = frozen_but_fork s \<and> chained E stack valid_abi (db t)
        \<and> abi_cache_coherent E loaded valid_abi (t\<lparr>dblock := False\<rparr>)
        \<and> cb_revision (cb E) (db t) = uint b - 1
        \<and> versions (cb E) stack (db t) = drop (nat (cb_revision (cb E) (db s) - (uint b - 1))) (versions (cb E) stack (db s))
        \<and> exporter_acked_block t = (if exporter_will_ack s then min (exporter_acked_block s) (b - 1) else exporter_acked_block s)
        \<and> forked_at_block t = b
        \<and> published t = published s @ [Fork \<lparr>fe_block_num = b, fe_depth = head s - b, fe_fork_reason = Network,
            fe_last_irreversible = ?irr\<rparr>]))
      (\<lambda>_ t. chained E stack valid_abi (db t)) ?t"
      by (rule wp_mono [OF fork]) (use d(3) drop unlock in \<open>auto simp: abi_cache_coherent_def\<close>)
    show ?thesis
      using True irr adv fork' free d(1)
      by (simp add: check_position_def wp_simps adv_wp Let_def)
  qed
qed

text \<open>The parts of the handler that only publish.\<close>

lemma receive_traces_frame:
  "wp False (receive_traces E bin) (\<lambda>_ t. t\<lparr>published := []\<rparr> = s\<lparr>published := []\<rparr>)
     (\<lambda>_ t. t\<lparr>published := []\<rparr> = s\<lparr>published := []\<rparr>) s"
proof -
  have "wp False (receive_traces_loop E n b) (\<lambda>_ t. t\<lparr>published := []\<rparr> = s\<lparr>published := []\<rparr>)
     (\<lambda>_ t. t\<lparr>published := []\<rparr> = s\<lparr>published := []\<rparr>) u"
    if "u\<lparr>published := []\<rparr> = s\<lparr>published := []\<rparr>" for n b u
    using that by (induction n arbitrary: b u) (auto simp: wp_simps split: sum.splits)
  then show ?thesis
    by (auto simp: receive_traces_def wp_simps split: sum.splits)
qed

lemma receive_block_frame:
  "wp False (receive_block E bin)
     (\<lambda>_ t. \<exists>p h n. t = s\<lparr>block_header := h, trx_count := n, published := p\<rparr>)
     (\<lambda>_ t. t = s) s"
proof -
  have p: "\<exists>p h' n'. s\<lparr>block_header := h, trx_count := n\<rparr> = s\<lparr>block_header := h', trx_count := n', published := p\<rparr>" for h n
    by (intro exI [of _ "published s"] exI [of _ h] exI [of _ n]) simp
  show ?thesis
    by (auto simp: receive_block_def wp_simps p split: sum.splits)
qed

end

subsection \<open>The whole handler\<close>

text \<open>What no message changes at all.\<close>

definition frozen_but_block :: "('db, 'ctx) receiver \<Rightarrow> ('db, 'ctx) receiver" where
  "frozen_but_block s = frozen_but_fork (s\<lparr>head := 0, head_id := 0, irreversible := 0, irreversible_id := 0,
     block_header := \<lparr>bh_timestamp = 0, bh_producer = 0, bh_previous = 0, bh_transaction_mroot = 0, bh_action_mroot = 0\<rparr>,
     trx_count := 0, received_blocks := 0\<rparr>)"

text \<open>The revision up to which a commit makes the state permanent.\<close>

definition commit_revision_of :: "('db, 'ctx) receiver \<Rightarrow> u32" where
  "commit_revision_of s =
     (if exporter_will_ack s then min (irreversible s) (exporter_acked_block s) else irreversible s)"

definition members_of_block :: "('db, 'ctx) receiver \<Rightarrow> get_blocks_result \<Rightarrow> block_position \<Rightarrow> ('db, 'ctx) receiver \<Rightarrow> bool" where
  "members_of_block s result this_block t \<longleftrightarrow>
     (let b = bp_block_num this_block in
      head t = b \<and> head_id t = bp_block_id this_block
      \<and> irreversible t = bp_block_num (gbr_last_irreversible result)
      \<and> irreversible_id t = bp_block_id (gbr_last_irreversible result)
      \<and> exporter_acked_block t = (if b \<le> head s \<and> exporter_will_ack s then min (exporter_acked_block s) (b - 1)
          else exporter_acked_block s)
      \<and> forked_at_block t = (if b \<le> head s then b else forked_at_block s)
      \<and> frozen_but_block t = frozen_but_block s)"

definition positioned ::
    "('db, 'ctx) env \<Rightarrow> ('db \<Rightarrow> tables list) \<Rightarrow> ('ctx \<Rightarrow> u64 \<rightharpoonup> bytes) \<Rightarrow> (bytes \<Rightarrow> bool) \<Rightarrow> ('db, 'ctx) receiver \<Rightarrow>
     get_blocks_result \<Rightarrow> block_position \<Rightarrow> ('db, 'ctx) receiver \<Rightarrow> bool" where
  "positioned E stack loaded valid s result this_block t \<longleftrightarrow>
     members_of_block s result this_block t \<and> \<not> dblock t \<and> chained E stack valid (db t)
     \<and> abi_cache_coherent E loaded valid t
     \<and> cb_revision (cb E) (db t) = uint (bp_block_num this_block) - 1
     \<and> versions (cb E) stack (db t) = drop (nat (cb_revision (cb E) (db s) - (uint (bp_block_num this_block) - 1)))
         (versions (cb E) stack (db s))"

definition received ::
    "('db, 'ctx) env \<Rightarrow> ('db \<Rightarrow> tables list) \<Rightarrow> ('ctx \<Rightarrow> u64 \<rightharpoonup> bytes) \<Rightarrow> (bytes \<Rightarrow> bool) \<Rightarrow> ('db, 'ctx) receiver \<Rightarrow>
     get_blocks_result \<Rightarrow> block_position \<Rightarrow> ('db, 'ctx) receiver \<Rightarrow> bool" where
  "received E stack loaded valid s result this_block t \<longleftrightarrow>
     members_of_block s result this_block t \<and> scan_inv E stack loaded valid t
     \<and> state_rows (tables_of E t) = [saved_state t]
     \<and> versions (cb E) stack (db t) =
         take (Suc (nat (uint (head t) - uint (commit_revision_of t))))
           (tables_of E t # drop (nat (cb_revision (cb E) (db s) - (uint (bp_block_num this_block) - 1)))
             (versions (cb E) stack (db s)))"

definition handler_failed :: "('db, 'ctx) env \<Rightarrow> ('db \<Rightarrow> tables list) \<Rightarrow> (bytes \<Rightarrow> bool) \<Rightarrow> ('db, 'ctx) receiver \<Rightarrow> bool" where
  "handler_failed E stack valid t \<longleftrightarrow> \<not> dblock t \<and> chained E stack valid (db t)"

lemma frozen_to_fork: "frozen t = frozen s \<Longrightarrow> frozen_but_fork t = frozen_but_fork s"
proof -
  assume "frozen t = frozen s"
  moreover have "frozen_but_fork u = (frozen u)\<lparr>exporter_acked_block := 0, forked_at_block := 0\<rparr>" for u :: "('a, 'b) receiver"
    by (simp add: frozen_but_fork_def frozen_def)
  ultimately show ?thesis by simp
qed

lemma fork_to_block: "frozen_but_fork t = frozen_but_fork s \<Longrightarrow> frozen_but_block t = frozen_but_block s"
proof -
  assume "frozen_but_fork t = frozen_but_fork s"
  moreover have "frozen_but_block u = (frozen_but_fork u)\<lparr>head := 0, head_id := 0, irreversible := 0, irreversible_id := 0,
     block_header := \<lparr>bh_timestamp = 0, bh_producer = 0, bh_previous = 0, bh_transaction_mroot = 0, bh_action_mroot = 0\<rparr>,
     trx_count := 0, received_blocks := 0\<rparr>" for u :: "('a, 'b) receiver"
    by (simp add: frozen_but_block_def frozen_but_fork_def frozen_def)
  ultimately show ?thesis by simp
qed

lemma frozen_but_forkD:
  assumes "frozen_but_fork t = frozen_but_fork s"
  shows "dblock t = dblock s" "exporter_will_ack t = exporter_will_ack s"
proof -
  have "dblock u = dblock (frozen_but_fork u)" "exporter_will_ack u = exporter_will_ack (frozen_but_fork u)"
    for u :: "('a, 'b) receiver"
    by (simp_all add: frozen_but_fork_def frozen_def)
  with assms show "dblock t = dblock s" "exporter_will_ack t = exporter_will_ack s" by metis+
qed

lemma frozen_but_blockD:
  assumes "frozen_but_block t = frozen_but_block s"
  shows "exporter_will_ack t = exporter_will_ack s" "aborting t = aborting s" "stream_open t = stream_open s"
    "reading t = reading s" "pause_timer t = pause_timer s" "pause_time_msec t = pause_time_msec s" "quitting t = quitting s"
    "end_block_num t = end_block_num s"
proof -
  have "exporter_will_ack u = exporter_will_ack (frozen_but_block u) \<and> aborting u = aborting (frozen_but_block u)
    \<and> stream_open u = stream_open (frozen_but_block u) \<and> reading u = reading (frozen_but_block u)
    \<and> pause_timer u = pause_timer (frozen_but_block u) \<and> pause_time_msec u = pause_time_msec (frozen_but_block u)
    \<and> quitting u = quitting (frozen_but_block u) \<and> end_block_num u = end_block_num (frozen_but_block u)"
    for u :: "('a, 'b) receiver"
    by (simp add: frozen_but_block_def frozen_but_fork_def frozen_def)
  with assms show "exporter_will_ack t = exporter_will_ack s" "aborting t = aborting s" "stream_open t = stream_open s"
    "reading t = reading s" "pause_timer t = pause_timer s" "pause_time_msec t = pause_time_msec s" "quitting t = quitting s"
    "end_block_num t = end_block_num s"
    by metis+
qed

text \<open>Members that neither predicate looks at.\<close>

lemma positioned_irrelevant:
  "positioned E stack loaded valid s result tb (t\<lparr>published := p\<rparr>) = positioned E stack loaded valid s result tb t"
  "positioned E stack loaded valid s result tb (t\<lparr>block_header := h\<rparr>) = positioned E stack loaded valid s result tb t"
  "positioned E stack loaded valid s result tb (t\<lparr>trx_count := n\<rparr>) = positioned E stack loaded valid s result tb t"
  by (simp_all add: positioned_def members_of_block_def Let_def abi_cache_coherent_def frozen_but_block_def
      frozen_but_fork_def frozen_def)

lemma received_irrelevant:
  "received E stack loaded valid s result tb (t\<lparr>published := p\<rparr>) = received E stack loaded valid s result tb t"
  by (simp add: received_def members_of_block_def Let_def abi_cache_coherent_def frozen_but_block_def
      frozen_but_fork_def frozen_def scan_inv_def in_step_def saved_state_def commit_revision_of_def)

lemma received_published_eq:
  assumes "t\<lparr>published := []\<rparr> = u\<lparr>published := []\<rparr>"
  shows "received E stack loaded valid s result tb t = received E stack loaded valid s result tb u"
  using assms received_irrelevant by metis

context abi_store
begin

lemma wp_stmts_mono:
  "wp D m (\<lambda>_. P) X s \<Longrightarrow> (\<And>t. P t \<Longrightarrow> wp D (stmts ms) Q Y t) \<Longrightarrow> (\<And>e t. X e t \<Longrightarrow> Y e t) \<Longrightarrow>
   wp D (stmts (m # ms)) Q Y s"
  by (auto simp: wp_andThen elim: wp_mono)

lemma positioned_block:
  assumes "positioned E stack loaded valid_abi s result tb t"
  shows "wp False (case blk of None \<Rightarrow> ret () | Some bin \<Rightarrow> receive_block E bin)
    (\<lambda>_. positioned E stack loaded valid_abi s result tb) (\<lambda>_. handler_failed E stack valid_abi) t"
proof (cases blk)
  case (Some bin)
  show ?thesis
    unfolding Some option.case
    by (rule wp_mono [OF receive_block_frame])
      (use assms in \<open>auto simp: positioned_irrelevant, auto simp: handler_failed_def positioned_def\<close>)
qed (use assms in \<open>simp add: wp_ret\<close>)

lemma positioned_state_changes:
  assumes scan: "\<not> interactive_mode (cfg E)" and pos: "positioned E stack loaded valid_abi s result tb t"
  shows "wp False (state_changes E result tb)
    (\<lambda>_. received E stack loaded valid_abi s result tb) (\<lambda>_. handler_failed E stack valid_abi) t"
proof -
  have t: "\<not> dblock t" "chained E stack valid_abi (db t)" "abi_cache_coherent E loaded valid_abi t"
    "cb_revision (cb E) (db t) = uint (bp_block_num tb) - 1" "head t = bp_block_num tb"
    "members_of_block s result tb t"
    "versions (cb E) stack (db t) = drop (nat (cb_revision (cb E) (db s) - (uint (bp_block_num tb) - 1)))
         (versions (cb E) stack (db s))"
    using pos by (auto simp: positioned_def members_of_block_def Let_def)
  show ?thesis
  proof (rule wp_mono [OF state_changes_runs [OF scan t(1-5)]])
    fix u :: "('db, 'ctx) receiver"
    assume u: "frozen u = frozen t \<and> chained E stack valid_abi (db u) \<and> abi_cache_coherent E loaded valid_abi u
       \<and> state_rows (tables_of E u) = [saved_state t] \<and> cb_revision (cb E) (db u) = uint (head t)
       \<and> versions (cb E) stack (db u) =
           take (Suc (nat (uint (head t) - uint (if exporter_will_ack t then min (irreversible t) (exporter_acked_block t) else irreversible t))))
             (tables_of E u # versions (cb E) stack (db t))"
    then have fr: "frozen u = frozen t" by simp
    note same = frozenD [OF fr]
    have mem: "members_of_block s result tb u"
      using t(6) same fork_to_block [OF frozen_to_fork [OF fr]] by (simp add: members_of_block_def Let_def)
    have "saved_state u = saved_state t" "commit_revision_of u =
      (if exporter_will_ack t then min (irreversible t) (exporter_acked_block t) else irreversible t)"
      using same by (simp_all add: saved_state_def commit_revision_of_def)
    then show "received E stack loaded valid_abi s result tb u"
      using u mem same t(1,7) by (simp add: received_def scan_inv_def in_step_def)
  next
    fix u :: "('db, 'ctx) receiver"
    assume u: "frozen u = frozen t \<and> versions (cb E) stack (db u) = versions (cb E) stack (db t)
       \<and> cb_revision (cb E) (db u) = cb_revision (cb E) (db t)"
    then have "dblock u = dblock t" by (intro frozenD) simp
    with u t(1,2) show "handler_failed E stack valid_abi u" by (simp add: handler_failed_def chained_def)
  qed simp
qed

lemma received_traces:
  assumes "received E stack loaded valid_abi s result tb t"
  shows "wp False (case trs of None \<Rightarrow> ret () | Some bin \<Rightarrow> receive_traces E bin)
    (\<lambda>_. received E stack loaded valid_abi s result tb) (\<lambda>_. handler_failed E stack valid_abi) t"
proof (cases trs)
  case (Some bin)
  have "handler_failed E stack valid_abi u" if "received E stack loaded valid_abi s result tb u" for u
    using that by (simp add: received_def scan_inv_def handler_failed_def)
  then show ?thesis
    unfolding Some option.case
    by (intro wp_mono [OF receive_traces_frame]) (use assms received_published_eq in blast)+
qed (use assms in \<open>simp add: wp_ret\<close>)

lemma receive_this_block_runs:
  assumes scan: "\<not> interactive_mode (cfg E)" and inv: "scan_inv E stack loaded valid_abi s"
    and ok: "acceptable E stack s (bp_block_num tb) (bp_block_num (gbr_last_irreversible result))"
  shows "wp False (receive_this_block E result tb)
    (\<lambda>go t. received E stack loaded valid_abi s result tb t \<and> irreversible s \<le> irreversible t \<and> go = (\<not> aborting s))
    (\<lambda>_. handler_failed E stack valid_abi) s"
proof -
  let ?s = "s\<lparr>received_blocks := received_blocks s + 1\<rparr>"
  let ?b = "bp_block_num tb"
  let ?rest = "[updates (\<lambda>s. s\<lparr>
         head := bp_block_num tb,
         head_id := bp_block_id tb,
         irreversible := bp_block_num (gbr_last_irreversible result),
         irreversible_id := bp_block_id (gbr_last_irreversible result)\<rparr>),
       (case gbr_block result of None \<Rightarrow> ret () | Some b \<Rightarrow> receive_block E b),
       if \<not> interactive_mode (cfg E) then state_changes E result tb
       else (case gbr_deltas result of None \<Rightarrow> ret () | Some deltas \<Rightarrow> receive_deltas E deltas),
       (case gbr_traces result of None \<Rightarrow> ret () | Some traces \<Rightarrow> receive_traces E traces),
       complete_block]"
  have inv': "scan_inv E stack loaded valid_abi ?s" and ok': "acceptable E stack ?s ?b (bp_block_num (gbr_last_irreversible result))"
    using inv ok by (simp_all add: scan_inv_def in_step_def saved_state_def abi_cache_coherent_def acceptable_def)
  have fr: "frozen_but_block ?s = frozen_but_block s"
    by (simp add: frozen_but_block_def frozen_but_fork_def frozen_def)
  have last: "wp False (stmts [complete_block]) (\<lambda>_. received E stack loaded valid_abi s result tb) X t"
    if "received E stack loaded valid_abi s result tb t" for X t
    using that by (simp add: complete_block_def wp_simps received_irrelevant)
  have after: "wp False (stmts (tl ?rest)) (\<lambda>_. received E stack loaded valid_abi s result tb)
      (\<lambda>_. handler_failed E stack valid_abi) t"
    if t: "positioned E stack loaded valid_abi s result tb t" for t
    unfolding list.sel using scan
    by (simp only: if_True not_False_eq_True)
      (rule wp_seq [OF positioned_block [OF t]], rule wp_seq [OF positioned_state_changes [OF scan]], assumption,
       rule wp_seq [OF received_traces], assumption, rule last, assumption)
  have "wp False (stmts (check_position E result ?b # ?rest)) (\<lambda>_. received E stack loaded valid_abi s result tb)
      (\<lambda>_. handler_failed E stack valid_abi) ?s"
  proof (rule wp_stmts_mono [OF check_position_runs [OF inv' ok']])
    fix t :: "('db, 'ctx) receiver"
    let ?t = "t\<lparr>head := bp_block_num tb, head_id := bp_block_id tb,
         irreversible := bp_block_num (gbr_last_irreversible result),
         irreversible_id := bp_block_id (gbr_last_irreversible result)\<rparr>"
    assume t: "frozen_but_fork t = frozen_but_fork ?s \<and> chained E stack valid_abi (db t) \<and> abi_cache_coherent E loaded valid_abi t
      \<and> cb_revision (cb E) (db t) = uint ?b - 1
      \<and> versions (cb E) stack (db t) = drop (nat (cb_revision (cb E) (db ?s) - (uint ?b - 1))) (versions (cb E) stack (db ?s))
      \<and> exporter_acked_block t = (if ?b \<le> head ?s \<and> exporter_will_ack ?s then min (exporter_acked_block ?s) (?b - 1) else exporter_acked_block ?s)
      \<and> forked_at_block t = (if ?b \<le> head ?s then ?b else forked_at_block ?s)
      \<and> published t = published ?s @ (if ?b \<le> head ?s then [Fork \<lparr>fe_block_num = ?b, fe_depth = head ?s - ?b,
          fe_fork_reason = Network, fe_last_irreversible = bp_block_num (gbr_last_irreversible result)\<rparr>] else [])"
    have "frozen_but_block ?t = frozen_but_block t"
      by (simp add: frozen_but_block_def frozen_but_fork_def frozen_def)
    also have "\<dots> = frozen_but_block s" using t fork_to_block [of t ?s] fr by simp
    finally have "positioned E stack loaded valid_abi s result tb ?t"
      using t frozen_but_forkD [of t ?s] inv
      by (simp add: positioned_def members_of_block_def Let_def scan_inv_def abi_cache_coherent_def)
    then have "wp False (stmts (tl ?rest)) (\<lambda>_. received E stack loaded valid_abi s result tb)
      (\<lambda>_. handler_failed E stack valid_abi) ?t" by (rule after)
    then show "wp False (stmts ?rest) (\<lambda>_. received E stack loaded valid_abi s result tb)
      (\<lambda>_. handler_failed E stack valid_abi) t"
      by (simp only: stmts.simps(2) wp_andThen wp_updates list.sel)
  qed (simp add: handler_failed_def)
  moreover have "handler_failed E stack valid_abi ?s"
    using inv by (simp add: handler_failed_def scan_inv_def)
  moreover have "irreversible s \<le> irreversible t \<and> aborting t = aborting s"
    if "received E stack loaded valid_abi s result tb t" "\<not> bp_block_num (gbr_last_irreversible result) < irreversible s" for t
    using that frozen_but_blockD [of t s] by (simp add: received_def members_of_block_def Let_def not_less)
  ultimately show ?thesis
    using scan
    by (cases "bp_block_num (gbr_last_irreversible result) < irreversible s")
      (simp_all add: receive_this_block_def wp_andThen stmts.simps wp_updates wp_inspect wp_whenM wp_throw wp_ret wp_reads,
       elim wp_mono, simp_all add: wp_reads)
qed

end

text \<open>
  C1: In the scan modes, a block that continues the chain, or replaces a part of it whose
  predecessor can be restored, is handled without hanging, deadlocking or undefined
  behaviour. When the handler returns, the invariant holds again, the members are those of
  the block and the saved state is theirs, the irreversible block did not go back, and the
  result says whether to read on. When it throws, the mutex is free and the database is a
  chain of saved states, so that a restart finds a state to resume from.
\<close>

theorem receive_keeps_invariant:
  fixes E :: "('db, 'ctx) env"
  assumes "abi_store E stack loaded valid" and "\<not> interactive_mode (cfg E)"
    and "scan_inv E stack loaded valid s"
    and "acceptable E stack s (bp_block_num tb) (bp_block_num (gbr_last_irreversible result))"
  shows "case receive_this_block E result tb s of
      Return go t \<Rightarrow> scan_inv E stack loaded valid t \<and> state_rows (tables_of E t) = [saved_state t]
        \<and> head t = bp_block_num tb \<and> head_id t = bp_block_id tb
        \<and> irreversible t = bp_block_num (gbr_last_irreversible result) \<and> irreversible s \<le> irreversible t
        \<and> cb_revision (cb E) (db t) = uint (head t) \<and> go = (\<not> aborting s)
    | Throw e t \<Rightarrow> \<not> dblock t \<and> chained E stack valid (db t)
    | Diverge \<Rightarrow> False
    | Undefined \<Rightarrow> False"
proof -
  have "received E stack loaded valid s result tb t \<Longrightarrow>
      scan_inv E stack loaded valid t \<and> state_rows (tables_of E t) = [saved_state t]
        \<and> head t = bp_block_num tb \<and> head_id t = bp_block_id tb
        \<and> irreversible t = bp_block_num (gbr_last_irreversible result)
        \<and> cb_revision (cb E) (db t) = uint (head t)" for t
    by (auto simp: received_def members_of_block_def Let_def scan_inv_def in_step_def)
  with abi_store.receive_this_block_runs [OF assms(1-4)] show ?thesis
    by (auto simp: wp_def handler_failed_def split: outcome.splits)
qed

text \<open>The oldest revision, as the number of versions below the newest.\<close>

lemma oldest_versions: "oldest c stack d = cb_revision c d - (int (length (versions c stack d)) - 1)"
  by (simp add: oldest_def versions_def)

lemma take_drop_length:
  assumes "k \<le> length V"
  shows "int (length (take (Suc n) (x # drop k V))) = 1 + min (int n) (int (length V) - int k)"
proof -
  have "length (take (Suc n) (x # drop k V)) = Suc (min n (length V - k))" by (simp add: min.commute)
  then show ?thesis using assms by (cases "n \<le> length V - k") simp_all
qed

text \<open>
  C2: A handled block adds one version of the database, saved with its number, on top of
  the versions up to its predecessor, discarding those of a replaced fork; and it makes
  permanent, so that they can no longer be rolled back, exactly the revisions up to the lower
  of the irreversible block and, when the exporter acknowledges, the acknowledged one.
\<close>

theorem receive_adds_version:
  fixes E :: "('db, 'ctx) env"
  assumes "abi_store E stack loaded valid" and "\<not> interactive_mode (cfg E)"
    and "scan_inv E stack loaded valid s" and "state_rows (tables_of E s) \<noteq> []"
    and "acceptable E stack s (bp_block_num tb) (bp_block_num (gbr_last_irreversible result))"
    and "receive_this_block E result tb s = Return go t"
  shows "versions (cb E) stack (db t) = take (length (versions (cb E) stack (db t)))
      (tables_of E t # drop (nat (uint (head s) + 1 - uint (bp_block_num tb))) (versions (cb E) stack (db s)))
    \<and> oldest (cb E) stack (db t) = max (oldest (cb E) stack (db s)) (min (uint (head t))
        (uint (if exporter_will_ack t then min (irreversible t) (exporter_acked_block t) else irreversible t)))
    \<and> exporter_acked_block t = (if bp_block_num tb \<le> head s \<and> exporter_will_ack s
        then min (exporter_acked_block s) (bp_block_num tb - 1) else exporter_acked_block s)"
proof -
  let ?b = "bp_block_num tb"
  have r: "received E stack loaded valid s result tb t"
    using wp_Return [OF abi_store.receive_this_block_runs [OF assms(1,2,3,5)] assms(6)] by simp
  have b: "0 < ?b" "?b = head s + 1 \<or> ?b \<le> head s \<and> oldest (cb E) stack (db s) < uint ?b"
    using assms(5) by (auto simp: acceptable_def)
  have rev: "cb_revision (cb E) (db s) = uint (head s)"
    using assms(3,4) by (auto simp: scan_inv_def in_step_def)
  have le: "uint ?b \<le> uint (head s) + 1" using b by (auto simp: uint_next word_le_def)
  let ?k = "nat (uint (head s) - (uint ?b - 1))"
  let ?V = "versions (cb E) stack (db s)"
  let ?c = "uint (commit_revision_of t)"
  have v: "versions (cb E) stack (db t) = take (Suc (nat (uint (head t) - ?c))) (tables_of E t # drop ?k ?V)"
    "head t = ?b" "cb_revision (cb E) (db t) = uint ?b"
    using r rev by (auto simp: received_def members_of_block_def Let_def scan_inv_def in_step_def)
  have k: "?k = nat (uint (head s) + 1 - uint ?b)" by simp
  have lenV: "int (length ?V) = uint (head s) - oldest (cb E) stack (db s) + 1"
    using rev by (simp add: oldest_versions)
  have kle: "int ?k \<le> int (length ?V)"
    using b le lenV by (auto simp: uint_next oldest_def rev)
  have len: "int (length (versions (cb E) stack (db t))) = 1 + min (int (nat (uint ?b - ?c))) (int (length ?V) - int ?k)"
    unfolding v(1) v(2) by (rule take_drop_length) (use kle in linarith)
  have "oldest (cb E) stack (db t) = uint ?b - min (int (nat (uint ?b - ?c))) (int (length ?V) - int ?k)"
    using len by (simp add: oldest_versions v(3))
  also have "int (length ?V) - int ?k = uint ?b - oldest (cb E) stack (db s)"
    using lenV le by simp
  also have "uint ?b - min (int (nat (uint ?b - ?c))) (uint ?b - oldest (cb E) stack (db s))
      = max (oldest (cb E) stack (db s)) (min (uint ?b) ?c)"
    by (auto simp: min_def max_def)
  finally have old: "oldest (cb E) stack (db t) = max (oldest (cb E) stack (db s)) (min (uint ?b) ?c)" .
  show ?thesis
  proof (intro conjI)
    have "take (length (take n xs)) xs = take n xs" for n and xs :: "tables list" by (simp add: min_def)
    then show "versions (cb E) stack (db t) = take (length (versions (cb E) stack (db t)))
      (tables_of E t # drop (nat (uint (head s) + 1 - uint ?b)) ?V)"
      unfolding k [symmetric] v(1) by (rule sym)
  qed (use old v(2) r in \<open>simp_all add: commit_revision_of_def received_def members_of_block_def Let_def\<close>)
qed

text \<open>A run at head 12 with two revisions that can be rolled back, in which block 12 is replaced.\<close>

definition saved_at :: "u32 \<Rightarrow> tables" where
  "saved_at h = empty_tables\<lparr>
     state_rows := [\<lparr>so_head = h, so_head_id = ucast h + 100, so_irreversible = 10, so_irreversible_id = 110\<rparr>],
     received_rows := map (\<lambda>b. (b, ucast b + 100)) (if h = 12 then [10, 11, 12] else if h = 11 then [10, 11] else [10])\<rparr>"

definition fork_run :: "(undo_list, (u64 \<times> bytes) list) receiver" where
  "fork_run = new_receiver \<lparr>ul_tables = saved_at 12, ul_stack = [saved_at 11, saved_at 10], ul_revision = 12\<rparr> 4294967295
     \<lparr>bh_timestamp = 0, bh_producer = 0, bh_previous = 0, bh_transaction_mroot = 0, bh_action_mroot = 0\<rparr> 0
     \<lparr>contract_abi_ctxt := Some [], head := 12, head_id := 112, irreversible := 10, irreversible_id := 110,
      exporter_will_ack := True, exporter_acked_block := 12\<rparr>"

definition fork_result :: "get_blocks_result" where
  "fork_result = \<lparr>gbr_last_irreversible = \<lparr>bp_block_num = 11, bp_block_id = 111\<rparr>,
     gbr_this_block = Some \<lparr>bp_block_num = 12, bp_block_id = 212\<rparr>, gbr_prev_block = Some \<lparr>bp_block_num = 11, bp_block_id = 111\<rparr>,
     gbr_block = None, gbr_traces = None, gbr_deltas = None\<rparr>"

definition fork_block :: block_position where
  "fork_block = \<lparr>bp_block_num = 12, bp_block_id = 212\<rparr>"

lemma fork_run_inv: "scan_inv (run_env no_decoders default_config) ul_stack map_of starts_with_1 fork_run"
  by (simp add: scan_inv_def chained_def chain.simps version_ok_def in_step_def abi_cache_coherent_def fork_run_def
      new_receiver_def undo_list_db_def versions_def saved_at_def empty_tables_def saved_state_def word_less_def)

lemma fork_run_acceptable: "acceptable (run_env no_decoders default_config) ul_stack fork_run 12 11"
  by (simp add: acceptable_def fork_run_def new_receiver_def undo_list_db_def oldest_def word_less_def word_le_def)

lemma fork_run_returns: "case receive_this_block (run_env no_decoders default_config) fork_result fork_block fork_run of
   Return _ t \<Rightarrow> irreversible t = 11 \<and> head t = 12 \<and> exporter_will_ack t \<and> length (ul_stack (db t)) = 1
     \<and> ul_revision (db t) = 12 | _ \<Rightarrow> False"
  by code_simp

lemma fork_block_simps [simp]:
  "bp_block_num fork_block = 12" "bp_block_id fork_block = 212"
  "bp_block_num (gbr_last_irreversible fork_result) = 11"
  by (simp_all add: fork_block_def fork_result_def)

theorem receive_keeps_invariant_witness:
  "\<exists>go t. receive_this_block (run_env no_decoders default_config) fork_result fork_block fork_run = Return go t
     \<and> scan_inv (run_env no_decoders default_config) ul_stack map_of starts_with_1 t
     \<and> head t = 12 \<and> head_id t = 212 \<and> irreversible t = 11 \<and> go"
proof -
  have "case receive_this_block (run_env no_decoders default_config) fork_result fork_block fork_run of
      Return go t \<Rightarrow> scan_inv (run_env no_decoders default_config) ul_stack map_of starts_with_1 t
        \<and> state_rows (tables_of (run_env no_decoders default_config) t) = [saved_state t]
        \<and> head t = bp_block_num fork_block \<and> head_id t = bp_block_id fork_block
        \<and> irreversible t = bp_block_num (gbr_last_irreversible fork_result) \<and> irreversible fork_run \<le> irreversible t
        \<and> cb_revision (cb (run_env no_decoders default_config)) (db t) = uint (head t) \<and> go = (\<not> aborting fork_run)
    | Throw e t \<Rightarrow> \<not> dblock t \<and> chained (run_env no_decoders default_config) ul_stack starts_with_1 (db t)
    | Diverge \<Rightarrow> False
    | Undefined \<Rightarrow> False"
    by (rule receive_keeps_invariant [OF run_store.abi_store_axioms _ fork_run_inv])
      (use fork_run_acceptable in \<open>simp_all add: default_config_def\<close>)
  with fork_run_returns show ?thesis
    by (auto simp: fork_run_def new_receiver_def split: outcome.splits)
qed

theorem receive_adds_version_witness:
  "\<exists>go t. receive_this_block (run_env no_decoders default_config) fork_result fork_block fork_run = Return go t
     \<and> versions undo_list_db ul_stack (db t) = [ul_tables (db t), saved_at 11]
     \<and> oldest undo_list_db ul_stack (db t) = 11 \<and> exporter_acked_block t = 11"
proof -
  let ?E = "run_env no_decoders default_config"
  obtain go t where t: "receive_this_block ?E fork_result fork_block fork_run = Return go t"
    "irreversible t = 11" "head t = 12" "exporter_will_ack t" "length (ul_stack (db t)) = 1"
    using fork_run_returns by (auto split: outcome.splits)
  have "versions (cb ?E) ul_stack (db t) = take (length (versions (cb ?E) ul_stack (db t)))
      (tables_of ?E t # drop (nat (uint (head fork_run) + 1 - uint (bp_block_num fork_block))) (versions (cb ?E) ul_stack (db fork_run)))
    \<and> oldest (cb ?E) ul_stack (db t) = max (oldest (cb ?E) ul_stack (db fork_run)) (min (uint (head t))
        (uint (if exporter_will_ack t then min (irreversible t) (exporter_acked_block t) else irreversible t)))
    \<and> exporter_acked_block t = (if bp_block_num fork_block \<le> head fork_run \<and> exporter_will_ack fork_run
        then min (exporter_acked_block fork_run) (bp_block_num fork_block - 1) else exporter_acked_block fork_run)"
    by (rule receive_adds_version [OF run_store.abi_store_axioms _ fork_run_inv _ _ t(1)])
      (use fork_run_acceptable in \<open>simp_all add: default_config_def fork_run_def new_receiver_def undo_list_db_def saved_at_def\<close>)
  then have "versions undo_list_db ul_stack (db t) = [ul_tables (db t), saved_at 11]
     \<and> oldest undo_list_db ul_stack (db t) = 11 \<and> exporter_acked_block t = 11"
    using t(2-5)
    by (simp add: versions_def oldest_def undo_list_db_def fork_run_def new_receiver_def min_def word_le_def)
  with t(1) show ?thesis by blast
qed

end
