(* ===== verification/ClientFrame.thy ===== *)
theory ClientFrame
  imports Receiver
begin

text \<open>
  What the receiver's own transitions leave to its clients: a slowdown that was asked for, the
  exporter's announcement that it acknowledges blocks, and the decision to quit are changed by
  none of its handlers.
\<close>

definition client_frame :: "('db, 'ctx) receiver \<Rightarrow> ('db, 'ctx) receiver \<Rightarrow> bool" where
  "client_frame s t \<longleftrightarrow> slowdown_requested t = slowdown_requested s \<and>
     exporter_will_ack t = exporter_will_ack s \<and>
     exporter_max_unconfirmed t = exporter_max_unconfirmed s \<and> (quitting s \<longrightarrow> quitting t)"

lemma client_frame_refl [within_intros, simp]: "reflp client_frame"
  by (simp add: client_frame_def reflp_def)

lemma client_frame_transp [within_intros, simp]: "transp client_frame"
  by (simp add: client_frame_def transp_def)

lemma client_frame_self [simp]: "client_frame s s"
  by (simp add: client_frame_def)

lemma within_scoped_lock_frame [within_intros]:
  "within client_frame m \<Longrightarrow> within client_frame (scoped_lock m)"
  by (auto simp: scoped_lock_def lock_mutex_def andThen_def within_def client_frame_def
      split: outcome.splits dest: spec [of _ "_\<lparr>dblock := True\<rparr>"])

lemma within_undo_session_frame [within_intros]:
  "within client_frame m \<Longrightarrow> within client_frame (undo_session E m)"
  by (auto simp: undo_session_def within_def client_frame_def
      split: outcome.splits dest: spec [of _ "_\<lparr>db := _\<rparr>"])

lemma within_client_primitives [within_intros]:
  "within client_frame lock_mutex" "within client_frame unlock_mutex" "within client_frame (publish e)"
  "within client_frame (write_tables E f)" "within client_frame (create_row E g)"
  "within client_frame (undo_while E c)" "within client_frame (set_abi_bin E a abi)"
  "within client_frame (advance_revision E b)" "within client_frame (truncate_received_blocks E)"
  "within client_frame (assertM p)"
  by (auto simp: within_def client_frame_def lock_mutex_def unlock_mutex_def publish_def updates_def
      write_tables_def create_row_def undo_while_def set_abi_bin_def advance_revision_def
      truncate_received_blocks_def assertM_def case_prod_beta split: option.splits list.splits)

lemma within_stmts_Nil: "reflp R \<Longrightarrow> within R (stmts [])"
  by (simp add: within_ret)

lemma within_stmts_Cons: "transp R \<Longrightarrow> within R m \<Longrightarrow> within R (stmts ms) \<Longrightarrow> within R (stmts (m # ms))"
  by (simp add: within_andThen)

lemma within_case_list:
  "(xs = [] \<Longrightarrow> within R m) \<Longrightarrow> (\<And>y ys. xs = y # ys \<Longrightarrow> within R (f y ys)) \<Longrightarrow>
   within R (case xs of [] \<Rightarrow> m | y # ys \<Rightarrow> f y ys)"
  by (cases xs) simp_all

lemma within_let: "within R (f a) \<Longrightarrow> within R (let x = a in f x)"
  by simp

lemmas client_rule = within_ret within_throw within_reads within_updates within_andThen within_whenM within_liftE
  within_forM within_inspect within_stmts_Nil within_stmts_Cons within_mapM within_if within_catching
  within_case_prod within_case_option within_case_list within_let client_frame_refl client_frame_transp
  within_client_primitives within_scoped_lock_frame within_undo_session_frame

lemma within_close: "within client_frame close"
  unfolding close_def by (intro client_rule) (simp_all add: client_frame_def)

lemma within_abort_receiver: "within client_frame abort_receiver"
  unfolding abort_receiver_def by (intro client_rule within_close) (simp_all add: client_frame_def)

lemma within_callback: "within client_frame f \<Longrightarrow> within client_frame (callback ec f)"
  unfolding callback_def on_fail_def catch_and_close_def
  by (intro client_rule within_close within_abort_receiver)

subsection \<open>Contract ABIs\<close>

lemma within_init_ctxt: "within client_frame (init_contract_abi_ctxt E)"
  unfolding init_contract_abi_ctxt_def by (intro client_rule) (simp_all add: client_frame_def)

lemma within_history: "within client_frame (save_contract_abi_history E a d)"
  unfolding save_contract_abi_history_def by (intro client_rule)

lemma within_clear_abi: "within client_frame (clear_contract_abi E a)"
  unfolding clear_contract_abi_def by (intro client_rule within_init_ctxt within_history)

lemma within_save_abi: "within client_frame (save_contract_abi E a d)"
  unfolding save_contract_abi_def
  by (intro client_rule within_init_ctxt within_history) (simp_all add: client_frame_def)

lemma within_ready: "within client_frame (get_contract_abi_ready E a l)"
  unfolding get_contract_abi_ready_def by (intro client_rule) (simp_all add: client_frame_def)

subsection \<open>Deltas and traces\<close>

lemma within_get_type: "within client_frame (get_type n)"
  unfolding get_type_def by (intro client_rule)

lemma within_rows:
  "within client_frame (account_row E ty r)" "within client_frame (contract_table_row E ty r)"
  "within client_frame (permission_row E ty r)" "within client_frame (permission_link_row E ty r)"
  "within client_frame (account_metadata_row E ty r)"
  unfolding account_row_def contract_table_row_def permission_row_def permission_link_row_def account_metadata_row_def
  by (intro client_rule within_clear_abi within_save_abi within_ready)+

lemma within_delta: "within client_frame (receive_delta E b)"
  unfolding receive_delta_def delta_rows_def by (intro client_rule within_get_type within_rows)

lemma within_deltas_loop: "within client_frame (receive_deltas_loop E n b)"
  by (induction n arbitrary: b) (auto intro!: within_ret within_andThen within_delta)

lemma within_deltas: "within client_frame (receive_deltas E b)"
  unfolding receive_deltas_def by (intro client_rule within_deltas_loop)

lemma within_traces_loop: "within client_frame (receive_traces_loop E n b)"
proof (induction n arbitrary: b)
  case (Suc n)
  show ?case unfolding receive_traces_loop.simps by (intro client_rule Suc)
qed (simp add: within_ret)

lemma within_traces: "within client_frame (receive_traces E b)"
  unfolding receive_traces_def by (intro client_rule within_traces_loop)

subsection \<open>Requests and blocks\<close>

lemma within_send_request: "within client_frame (send_request E rq)"
  unfolding send_request_def by (intro client_rule within_get_type) (simp add: client_frame_def)

lemma within_process_reqs: "within client_frame (process_interactive_reqs E)"
  unfolding process_interactive_reqs_def
  by (intro client_rule within_send_request within_init_ctxt) (simp_all add: client_frame_def)

lemma within_request_blocks: "within client_frame (request_blocks E)"
  unfolding request_blocks_def by (intro client_rule within_send_request)

lemma within_on_block_req: "within client_frame (on_block_req E req)"
  unfolding on_block_req_def by (intro client_rule within_process_reqs) (simp add: client_frame_def)

lemma within_commit: "within client_frame (commit_db E)"
  unfolding commit_db_def by (intro client_rule) (simp add: client_frame_def Let_def)

lemma within_continue_read: "within client_frame (continue_read E q)"
  unfolding continue_read_def check_pause_def
  by (intro client_rule within_commit within_abort_receiver) (simp_all add: client_frame_def)

lemma within_stale_head: "within client_frame (check_stale_head E)"
  unfolding check_stale_head_def by (intro client_rule within_abort_receiver) (simp add: client_frame_def)

lemma within_first_read: "within client_frame (first_read E q p)"
  unfolding first_read_def receive_abi_def
  by (intro client_rule within_process_reqs within_request_blocks within_continue_read)
    (simp_all add: client_frame_def)

lemma within_block: "within client_frame (receive_block E b)"
  unfolding receive_block_def by (intro client_rule) (simp add: client_frame_def)

lemma within_position: "within client_frame (check_position E r b)"
  unfolding check_position_def handle_fork_def rollback_def issue_fork_def
  by (intro client_rule within_init_ctxt) (simp_all add: client_frame_def)

lemma within_state_changes: "within client_frame (state_changes E r b)"
  unfolding state_changes_def save_state_def by (intro client_rule within_deltas within_commit)

lemma within_this_block: "within client_frame (receive_this_block E r b)"
  unfolding receive_this_block_def complete_block_def
  by (intro client_rule within_process_reqs within_position within_block within_state_changes within_deltas within_traces)
    (simp_all add: client_frame_def)

lemma within_receive_result: "within client_frame (receive_result E p)"
  unfolding receive_result_def by (intro client_rule within_get_type within_this_block)

lemma within_read_completed: "within client_frame (read_completed E q ec p)"
  unfolding read_completed_def
  by (intro client_rule within_callback within_receive_result within_continue_read)

lemma own_step_frame:
  assumes "own_step E s t"
  shows "client_frame s t"
  using assms
proof cases
  case (first_read_completed ec q p)
  then show ?thesis
    using withinD_Return [OF within_callback [OF within_first_read] first_read_completed(3)]
    by (simp add: client_frame_def)
next
  case (message q ec p)
  then show ?thesis
    using withinD_Return [OF within_read_completed message(3)] by (simp add: client_frame_def)
next
  case (pause_over ms ec q)
  then show ?thesis
    using withinD_Return [OF within_callback [OF within_continue_read] pause_over(2)]
    by (simp add: client_frame_def)
next
  case (stale_check ms ec)
  then show ?thesis
    using withinD_Return [OF within_callback [OF within_stale_head] stale_check(2)]
    by (simp add: client_frame_def)
qed

end
