(* ===== verification/ProgramOptions.thy ===== *)
theory ProgramOptions
  imports Flow
begin

text \<open>
  Program options and the wiring of the plugins: the values of a \<open>variables_map\<close>, the global
  functions at the end of \<open>receiver_plugin.cpp\<close>, the decoder's initialisation and the start of
  the receiver after the plugins it depends on.
\<close>

section \<open>Option values\<close>

text \<open>
  \<open>boost::program_options\<close> fills the map, the defaults of \<open>set_program_options\<close> included;
  \<open>count\<close> is then 0 or 1, \<open>at\<close> throws for a name that is not there, \<open>as\<close> for another type.
\<close>

datatype opt_value = Text string | Unsigned u32 | Switch bool | Texts "string list"

type_synonym variables_map = "string \<rightharpoonup> opt_value"

definition given :: "variables_map \<Rightarrow> string \<Rightarrow> bool" where
  "given options name \<longleftrightarrow> options name \<noteq> None"

definition option_at :: "variables_map \<Rightarrow> string \<Rightarrow> error + opt_value" where
  "option_at options name = (case options name of
      None \<Rightarrow> Inl (Out_of_range ''map::at'') | Some v \<Rightarrow> Inr v)"

definition bad_any_cast :: error where
  "bad_any_cast = Logic_error ''boost::bad_any_cast: failed conversion using boost::any_cast''"

definition as_text :: "variables_map \<Rightarrow> string \<Rightarrow> error + string" where
  "as_text options name = (case option_at options name of
      Inl e \<Rightarrow> Inl e | Inr (Text s) \<Rightarrow> Inr s | Inr _ \<Rightarrow> Inl bad_any_cast)"

definition as_unsigned :: "variables_map \<Rightarrow> string \<Rightarrow> error + u32" where
  "as_unsigned options name = (case option_at options name of
      Inl e \<Rightarrow> Inl e | Inr (Unsigned n) \<Rightarrow> Inr n | Inr _ \<Rightarrow> Inl bad_any_cast)"

definition as_switch :: "variables_map \<Rightarrow> string \<Rightarrow> error + bool" where
  "as_switch options name = (case option_at options name of
      Inl e \<Rightarrow> Inl e | Inr (Switch b) \<Rightarrow> Inr b | Inr _ \<Rightarrow> Inl bad_any_cast)"

definition as_texts :: "variables_map \<Rightarrow> string \<Rightarrow> error + string list" where
  "as_texts options name = (case option_at options name of
      Inl e \<Rightarrow> Inl e | Inr (Texts ss) \<Rightarrow> Inr ss | Inr _ \<Rightarrow> Inl bad_any_cast)"

lemmas as_defs = option_at_def as_text_def as_unsigned_def as_switch_def as_texts_def

definition is_noexport_opt :: "variables_map \<Rightarrow> error + bool" where
  "is_noexport_opt options =
     (if given options ''save-snapshot'' \<or> given options ''restore-snapshot'' then Inr True
      else if \<not> given options ''mode'' then Inl (Runtime_error ''mode option is required'')
      else (case as_text options ''mode'' of
          Inl e \<Rightarrow> Inl e | Inr mode \<Rightarrow> Inr (mode = ''scan-noexport'')))"

section \<open>The plugins\<close>

text \<open>
  What the plugins share: \<open>have_exporter\<close>, the receiver's \<open>dependent_plugins\<close>, and the states
  that appbase keeps of them (it initialises a plugin at most once).
\<close>

datatype plugin_state = Registered | Initialized | Started | Stopped

record app =
  have_exporter :: bool
  dependent_plugins :: "string list"
  state_of :: "string \<Rightarrow> plugin_state"

definition exporter_initialized :: "(app, unit) op" where
  "exporter_initialized = inspect (\<lambda>a.
     if have_exporter a then throw (Runtime_error ''Only one exporter plugin is allowed'')
     else updates (\<lambda>a. a\<lparr>have_exporter := True\<rparr>))"

definition donot_start_receiver_before :: "string \<Rightarrow> (app, unit) op" where
  "donot_start_receiver_before name =
     updates (\<lambda>a. a\<lparr>dependent_plugins := dependent_plugins a @ [name]\<rparr>)"

definition decoder_initialize :: "variables_map \<Rightarrow> (app, unit) op" where
  "decoder_initialize options = andThen (liftE (is_noexport_opt options)) (\<lambda>noexport.
     whenM (\<not> noexport) (donot_start_receiver_before ''decoder_plugin''))"

text \<open>\<open>app().get_plugin("decoder_plugin").initialize(options)\<close>.\<close>

definition initialize_decoder :: "variables_map \<Rightarrow> (app, unit) op" where
  "initialize_decoder options = inspect (\<lambda>a.
     whenM (state_of a ''decoder_plugin'' = Registered) (stmts [
       updates (\<lambda>a. a\<lparr>state_of := (state_of a)(''decoder_plugin'' := Initialized)\<rparr>),
       decoder_initialize options]))"

text \<open>
  One call of \<open>start_after_dependencies\<close>: it forgets the plugins at the front that have
  started; the value tells whether the receiver is launched now or the timer is set again.
\<close>

definition start_after_dependencies :: "(app, bool) op" where
  "start_after_dependencies =
     andThen (updates (\<lambda>a. a\<lparr>dependent_plugins :=
         dropWhile (\<lambda>p. state_of a p = Started) (dependent_plugins a)\<rparr>)) (\<lambda>_.
       reads (\<lambda>a. dependent_plugins a = []))"

lemma launched_after_dependencies:
  "start_after_dependencies a = Return True b \<Longrightarrow> p \<in> set (dependent_plugins a) \<Longrightarrow> state_of a p = Started"
  by (auto simp: start_after_dependencies_def op_defs dropWhile_eq_Nil_conv)

lemma waits_for_dependencies:
  assumes "p \<in> set (dependent_plugins a)" and "state_of a p \<noteq> Started"
  shows "\<exists>b. start_after_dependencies a = Return False b \<and> p \<in> set (dependent_plugins b) \<and> state_of b = state_of a"
proof -
  have "p \<in> set (dropWhile (\<lambda>p. state_of a p = Started) (dependent_plugins a))"
    using assms by (metis Un_iff set_append set_takeWhileD takeWhile_dropWhile_id)
  then show ?thesis
    using assms by (intro exI [of _ "a\<lparr>dependent_plugins := dropWhile (\<lambda>p. state_of a p = Started) (dependent_plugins a)\<rparr>"])
      (auto simp: start_after_dependencies_def op_defs)
qed

end
