(* ===== verification/StdText.thy ===== *)
theory StdText
  imports Prelude
begin

text \<open>
  What the sources use of the C and C++ libraries on text: the character classes of the C
  locale, \<open>std::stoul\<close> and \<open>std::stoi\<close> in base 10, and \<open>memcpy\<close> of a string into bytes.
\<close>

section \<open>Characters\<close>

definition code :: "char \<Rightarrow> nat" where
  "code c = of_char c"

definition isspace :: "char \<Rightarrow> bool" where
  "isspace c \<longleftrightarrow> code c = 32 \<or> 9 \<le> code c \<and> code c \<le> 13"

definition isdigit :: "char \<Rightarrow> bool" where
  "isdigit c \<longleftrightarrow> 48 \<le> code c \<and> code c \<le> 57"

definition bytes_of :: "string \<Rightarrow> bytes" where
  "bytes_of s = map (\<lambda>c. word_of_nat (code c)) s"

lemma bytes_of_append [simp]: "bytes_of (s @ t) = bytes_of s @ bytes_of t"
  by (simp add: bytes_of_def)

lemma length_bytes_of [simp]: "length (bytes_of s) = length s"
  by (simp add: bytes_of_def)

lemma code_less: "code c < 256"
  by (simp add: code_def)

lemma code_inject: "code c = code d \<longleftrightarrow> c = d"
  by (metis char_of_char code_def)

lemma bytes_of_inject: "bytes_of s = bytes_of t \<longleftrightarrow> s = t"
proof -
  have "inj (\<lambda>c. word_of_nat (code c) :: u8)"
  proof (rule injI)
    fix c d :: char
    assume "(word_of_nat (code c) :: u8) = word_of_nat (code d)"
    then have "unat (word_of_nat (code c) :: u8) = unat (word_of_nat (code d) :: u8)" by simp
    then show "c = d" using code_less [of c] code_less [of d] by (simp add: unat_of_nat code_inject)
  qed
  then show ?thesis unfolding bytes_of_def by (rule inj_map_eq_map)
qed

section \<open>Numbers in text\<close>

definition number :: "string \<Rightarrow> nat" where
  "number ds = foldl (\<lambda>n c. 10 * n + (code c - 48)) 0 ds"

text \<open>
  \<open>strtoul\<close>: white space, a sign, the longest run of digits; no digits is
  \<open>invalid_argument\<close>, a number that does not fit \<open>out_of_range\<close>. A minus sign negates the
  unsigned result.
\<close>

definition sign_of :: "string \<Rightarrow> bool \<times> string" where
  "sign_of s = (case s of [] \<Rightarrow> (False, [])
     | c # r \<Rightarrow> if c = CHR ''-'' then (True, r) else if c = CHR ''+'' then (False, r) else (False, s))"

definition stoul :: "string \<Rightarrow> error + u64" where
  "stoul s = (let (negative, u) = sign_of (dropWhile isspace s);
                  ds = takeWhile isdigit u
     in if ds = [] then Inl (Invalid_argument ''stoul'')
        else if number ds \<ge> 2 ^ 64 then Inl (Out_of_range ''stoul'')
        else Inr (if negative then - word_of_nat (number ds) else word_of_nat (number ds)))"

text \<open>\<open>std::stoi\<close> of a run of digits, which is all the sources give it.\<close>

definition stoi :: "string \<Rightarrow> error + int" where
  "stoi s = (let (negative, u) = sign_of (dropWhile isspace s);
                 ds = takeWhile isdigit u;
                 n = (if negative then - int (number ds) else int (number ds))
     in if ds = [] then Inl (Invalid_argument ''stoi'')
        else if n < - (2 ^ 31) \<or> n \<ge> 2 ^ 31 then Inl (Out_of_range ''stoi'')
        else Inr n)"

section \<open>Printing and parsing\<close>

lemma code_digit: "d < 10 \<Longrightarrow> code (digit d) = 48 + d"
  by (simp add: code_def digit_def)

lemma number_append [simp]: "number (ds @ [c]) = 10 * number ds + (code c - 48)"
  by (simp add: number_def)

lemma number_decimal [simp]: "number (decimal n) = n"
proof (induction n rule: decimal.induct)
  case (1 n)
  show ?case
  proof (cases "n < 10")
    case True
    then show ?thesis by (subst decimal.simps) (simp add: number_def code_digit)
  next
    case False
    then show ?thesis using 1 by (subst decimal.simps) (simp add: code_digit)
  qed
qed

lemma decimal_digits: "\<forall>c \<in> set (decimal n). isdigit c"
proof (induction n rule: decimal.induct)
  case (1 n)
  then show ?case by (subst decimal.simps) (auto simp: isdigit_def code_digit)
qed

lemma decimal_not_Nil [simp]: "decimal n \<noteq> []"
  by (subst decimal.simps) simp

lemma digit_not_space: "isdigit c \<Longrightarrow> \<not> isspace c"
  by (auto simp: isdigit_def isspace_def)

lemma digit_not_sign: "isdigit c \<Longrightarrow> c \<noteq> CHR ''-'' \<and> c \<noteq> CHR ''+''"
  by (auto simp: isdigit_def code_def)

lemma sign_of_decimal: "sign_of (dropWhile isspace (decimal n @ r)) = (False, decimal n @ r)"
proof -
  obtain c ds where d: "decimal n = c # ds" by (cases "decimal n") auto
  then have "isdigit c" using decimal_digits [of n] by simp
  then show ?thesis using digit_not_space digit_not_sign by (simp add: d sign_of_def)
qed

lemma takeWhile_decimal:
  "r = [] \<or> \<not> isdigit (hd r) \<Longrightarrow> takeWhile isdigit (decimal n @ r) = decimal n"
  using decimal_digits [of n] by (cases r) (auto simp: takeWhile_append)

text \<open>The number up to the first other character; what follows it is not looked at.\<close>

lemma stoul_decimal:
  assumes "n < 2 ^ 64" and "r = [] \<or> \<not> isdigit (hd r)"
  shows "stoul (decimal n @ r) = Inr (word_of_nat n)"
  using assms by (simp add: stoul_def sign_of_decimal takeWhile_decimal)

lemma ucast_word_of_nat: "ucast (word_of_nat k :: u64) = (word_of_nat k :: u32)"
  by (rule bit_word_eqI) (simp add: bit_simps)

lemma decimal_inject: "decimal m = decimal n \<longleftrightarrow> m = n"
  by (metis number_decimal)

lemma stoul_overflow:
  assumes "n \<ge> 2 ^ 64" and "r = [] \<or> \<not> isdigit (hd r)"
  shows "stoul (decimal n @ r) = Inl (Out_of_range ''stoul'')"
  using assms by (simp add: stoul_def sign_of_decimal takeWhile_decimal)

lemma stoul_no_number: "stoul [] = Inl (Invalid_argument ''stoul'')"
  by (simp add: stoul_def sign_of_def)

section \<open>Integers in memory\<close>

text \<open>An unsigned integer in memory, the least significant byte first.\<close>

primrec le_bytes :: "nat \<Rightarrow> 'a::len word \<Rightarrow> bytes" where
  "le_bytes 0 x = []"
| "le_bytes (Suc n) x = ucast x # le_bytes n (drop_bit 8 x)"

definition of_le_bytes :: "bytes \<Rightarrow> 'a::len word" where
  "of_le_bytes b = foldr (\<lambda>x acc. push_bit 8 acc OR ucast x) b 0"

lemma length_le_bytes [simp]: "length (le_bytes n x) = n"
  by (induction n arbitrary: x) simp_all

lemma of_le_bytes_inverse: "of_le_bytes (le_bytes n x) = take_bit (8 * n) (x :: 'a::len word)"
proof (induction n arbitrary: x)
  case (Suc n)
  have "of_le_bytes (le_bytes (Suc n) x)
      = push_bit 8 (take_bit (8 * n) (drop_bit 8 x)) OR (ucast (ucast x :: u8) :: 'a word)"
    using Suc [of "drop_bit 8 x"] by (simp add: of_le_bytes_def)
  also have "\<dots> = take_bit (8 * Suc n) x"
    by (rule bit_word_eqI) (auto simp: bit_simps)
  finally show ?case .
qed (simp add: of_le_bytes_def)

end
