(* ===== verification/WsExporter.thy ===== *)
theory WsExporter
  imports ClientFrame ProgramOptions StdText
begin

text \<open>
  The WebSocket exporter, \<open>exp_ws_plugin.cpp\<close>: it frames the events of the decoder, queues
  them, writes them one at a time, slows the receiver down when the queue is long, and passes
  the consumer's acknowledgements and requests to the receiver. The socket is a flag with the
  operations in flight; connecting, and the JSON writer of the rapidjson library, are parameters.
\<close>

section \<open>Messages\<close>

text \<open>The channels of the decoder, with the message types of \<open>chronicle_msgtypes.h\<close>.\<close>

datatype js_channel =
    Js_forks | Js_block_started | Js_blocks | Js_transaction_traces | Js_abi_updates | Js_abi_removals
  | Js_abi_errors | Js_table_row_updates | Js_permission_updates | Js_permission_link_updates
  | Js_account_metadata_updates | Js_abi_decoder_errors | Js_receiver_pauses | Js_block_completed

fun bin_msgtype :: "js_channel \<Rightarrow> u32" where
  "bin_msgtype Js_forks = 1001"
| "bin_msgtype Js_blocks = 1002"
| "bin_msgtype Js_transaction_traces = 1003"
| "bin_msgtype Js_abi_updates = 1004"
| "bin_msgtype Js_abi_removals = 1005"
| "bin_msgtype Js_abi_errors = 1006"
| "bin_msgtype Js_table_row_updates = 1007"
| "bin_msgtype Js_abi_decoder_errors = 1008"
| "bin_msgtype Js_receiver_pauses = 1009"
| "bin_msgtype Js_block_completed = 1010"
| "bin_msgtype Js_permission_updates = 1011"
| "bin_msgtype Js_permission_link_updates = 1012"
| "bin_msgtype Js_account_metadata_updates = 1013"
| "bin_msgtype Js_block_started = 1014"

text \<open>What a subscription calls: \<open>on_event_bin\<close> or \<open>on_event_json\<close> with its arguments.\<close>

datatype handler = On_event_bin u32 u32 | On_event_json string

definition bin_subscriptions :: "(js_channel \<times> handler) list" where
  "bin_subscriptions = [
     (Js_forks, On_event_bin (bin_msgtype Js_forks) 0),
     (Js_block_started, On_event_bin (bin_msgtype Js_block_started) 0),
     (Js_blocks, On_event_bin (bin_msgtype Js_blocks) 0),
     (Js_transaction_traces, On_event_bin (bin_msgtype Js_transaction_traces) 0),
     (Js_abi_updates, On_event_bin (bin_msgtype Js_abi_updates) 0),
     (Js_abi_removals, On_event_bin (bin_msgtype Js_abi_removals) 0),
     (Js_abi_errors, On_event_bin (bin_msgtype Js_abi_errors) 0),
     (Js_table_row_updates, On_event_bin (bin_msgtype Js_table_row_updates) 0),
     (Js_permission_updates, On_event_bin (bin_msgtype Js_permission_updates) 0),
     (Js_permission_link_updates, On_event_bin (bin_msgtype Js_permission_link_updates) 0),
     (Js_account_metadata_updates, On_event_bin (bin_msgtype Js_account_metadata_updates) 0),
     (Js_abi_decoder_errors, On_event_bin (bin_msgtype Js_abi_decoder_errors) 0),
     (Js_receiver_pauses, On_event_bin (bin_msgtype Js_receiver_pauses) 0),
     (Js_block_completed, On_event_bin (bin_msgtype Js_block_completed) 0)]"

definition json_subscriptions :: "(js_channel \<times> handler) list" where
  "json_subscriptions = [
     (Js_forks, On_event_json ''FORK''),
     (Js_block_started, On_event_json ''BLOCK_STARTED''),
     (Js_blocks, On_event_json ''BLOCK''),
     (Js_transaction_traces, On_event_json ''TX_TRACE''),
     (Js_abi_updates, On_event_json ''ABI_UPD''),
     (Js_abi_removals, On_event_json ''ABI_REM''),
     (Js_abi_errors, On_event_json ''ABI_ERR''),
     (Js_table_row_updates, On_event_json ''TBL_ROW''),
     (Js_permission_updates, On_event_json ''PERMISSION''),
     (Js_permission_link_updates, On_event_json ''PERMISSION_LINK''),
     (Js_account_metadata_updates, On_event_json ''ACC_METADATA''),
     (Js_receiver_pauses, On_event_json ''RCVR_PAUSE''),
     (Js_block_completed, On_event_json ''BLOCK_COMPLETED''),
     (Js_abi_decoder_errors, On_event_json ''ENCODER_ERR'')]"

section \<open>The exporter's state\<close>

text \<open>
  \<open>ws_stream\<close> is \<open>None\<close> before \<open>start\<close>, then whether the socket is open. \<open>send_timer\<close>,
  \<open>writing\<close>, \<open>reading_acks\<close>, \<open>reading_requests\<close> and \<open>closing\<close> are the operations in flight; a
  cancelled timer is due at once. \<open>written\<close> collects the messages given to the socket,
  \<open>posted_requests\<close> the requests on their way to the receiver.
\<close>

record ws_exporter =
  ws_host :: string
  ws_port :: string
  ws_path :: string
  use_bin_headers :: bool
  maxunack :: u32
  ws_stream :: "bool option"
  async_queue :: "bytes list"
  async_msg :: "bytes option"
  queue_hwm :: u32
  queue_lwm :: u32
  subscriptions :: "(js_channel \<times> handler) list"
  send_timer :: "u32 option"
  ws_pause_time_msec :: u32
  msg_report_counter :: u32
  writing :: bool
  reading_acks :: bool
  reading_requests :: bool
  closing :: bool
  written :: "bytes list"
  posted_requests :: "interactive_request list"

type_synonym ('db, 'ctx, 'a) ws_op = "(('db, 'ctx) receiver \<times> ws_exporter, 'a) op"

definition ws :: "(ws_exporter \<Rightarrow> ws_exporter) \<Rightarrow> ('db, 'ctx, unit) ws_op" where
  "ws f = updates (\<lambda>(s, x). (s, f x))"

section \<open>Initialisation\<close>

definition ws_init :: "(ws_exporter, unit) op" where
  "ws_init = updates (\<lambda>x. x\<lparr>subscriptions :=
     (if use_bin_headers x then bin_subscriptions else json_subscriptions)\<rparr>)"

definition ws_options :: "variables_map \<Rightarrow> (ws_exporter, unit) op" where
  "ws_options options = stmts [
     whenM (\<not> given options ''exp-ws-host'' \<or> \<not> given options ''exp-ws-port'')
       (throw (Runtime_error ''Mandatory option missing'')),
     andThen (liftE (as_text options ''exp-ws-host'')) (\<lambda>v. updates (\<lambda>x. x\<lparr>ws_host := v\<rparr>)),
     andThen (liftE (as_text options ''exp-ws-port'')) (\<lambda>v. updates (\<lambda>x. x\<lparr>ws_port := v\<rparr>)),
     andThen (liftE (as_text options ''exp-ws-path'')) (\<lambda>v. updates (\<lambda>x. x\<lparr>ws_path := v\<rparr>)),
     andThen (liftE (as_unsigned options ''exp-ws-max-unack'')) (\<lambda>v. updates (\<lambda>x. x\<lparr>maxunack := v\<rparr>)),
     inspect (\<lambda>x. whenM (maxunack x = 0)
       (throw (Runtime_error ''Maximum unacked blocks must be a positive integer''))),
     andThen (liftE (as_unsigned options ''exp-ws-max-queue'')) (\<lambda>v. updates (\<lambda>x. x\<lparr>queue_hwm := v\<rparr>)),
     inspect (\<lambda>x. whenM (queue_hwm x = 0)
       (throw (Runtime_error ''Maximum queue size must be a positive integer''))),
     updates (\<lambda>x. x\<lparr>queue_lwm := queue_hwm x * 3 div 4\<rparr>),
     andThen (liftE (as_switch options ''exp-ws-bin-header'')) (\<lambda>v. updates (\<lambda>x. x\<lparr>use_bin_headers := v\<rparr>)),
     ws_init]"

definition ws_plugin_initialize :: "variables_map \<Rightarrow> (app \<times> ws_exporter, unit) op" where
  "ws_plugin_initialize options = andThen (liftE (is_noexport_opt options)) (\<lambda>noexport.
     whenM (\<not> noexport) (stmts [
       onFst (initialize_decoder options),
       onFst (donot_start_receiver_before ''exp_ws_plugin''),
       onSnd (ws_options options),
       onFst exporter_initialized]))"

section \<open>Closing\<close>

definition close_ws :: "('db, 'ctx, unit) ws_op" where
  "close_ws = inspect (\<lambda>(s, x). case ws_stream x of
      None \<Rightarrow> (\<lambda>_. Undefined)
    | Some True \<Rightarrow> ws (\<lambda>x. x\<lparr>ws_stream := Some False, closing := True\<rparr>)
    | Some False \<Rightarrow> onFst abort_receiver)"

definition ws_stop :: "('db, 'ctx, unit) ws_op" where
  "ws_stop = close_ws"

definition close_completed :: "('db, 'ctx, unit) ws_op" where
  "close_completed = onFst abort_receiver"

section \<open>What the consumer sends\<close>

definition ack_read :: "bool \<Rightarrow> string \<Rightarrow> ('db, 'ctx, unit) ws_op" where
  "ack_read ec data = (if ec then close_ws
     else andThen (liftE (stoul data)) (\<lambda>ack. stmts [
       whenM (ack > 4294967295)
         (throw (Runtime_error ''Consumer acknowledged block number higher than UINT32_MAX'')),
       onFst (ack_block (ucast ack)),
       ws (\<lambda>x. x\<lparr>reading_acks := True\<rparr>)]))"

text \<open>The two numbers are truncated to 32 bits by the assignments.\<close>

definition parse_request :: "string \<Rightarrow> error + interactive_request" where
  "parse_request reqstr =
     (if CHR ''-'' \<notin> set reqstr then
        (case stoul reqstr of
           Inl e \<Rightarrow> Inl e
         | Inr n \<Rightarrow> Inr \<lparr>block_num_start = ucast n, block_num_end = ucast n + 1\<rparr>)
      else
        (case stoul (takeWhile (\<lambda>c. c \<noteq> CHR ''-'') reqstr) of
           Inl e \<Rightarrow> Inl e
         | Inr n \<Rightarrow> (case stoul (tl (dropWhile (\<lambda>c. c \<noteq> CHR ''-'') reqstr)) of
             Inl e \<Rightarrow> Inl e
           | Inr m \<Rightarrow> Inr \<lparr>block_num_start = ucast n, block_num_end = ucast m\<rparr>)))"

definition request_read :: "bool \<Rightarrow> string \<Rightarrow> ('db, 'ctx, unit) ws_op" where
  "request_read ec data = (if ec then close_ws
     else andThen (liftE (parse_request data)) (\<lambda>req. stmts [
       whenM (block_num_end req \<le> block_num_start req)
         (throw (Runtime_error ''End block in interactive request not higher than start block'')),
       ws (\<lambda>x. x\<lparr>posted_requests := posted_requests x @ [req]\<rparr>),
       ws (\<lambda>x. x\<lparr>reading_requests := True\<rparr>)]))"

section \<open>What the exporter sends\<close>

definition next_ws_pause :: "u32 \<Rightarrow> u32" where
  "next_ws_pause t = (if t = 0 then 5 else if t < 256 then t * 2 else t)"

definition regulate :: "('db, 'ctx, unit) ws_op" where
  "regulate = inspect (\<lambda>(s, x).
     if length (async_queue x) \<ge> unat (queue_hwm x) then onFst (slowdown True)
     else whenM (length (async_queue x) < unat (queue_lwm x)) (onFst (slowdown False)))"

definition async_send_events :: "('db, 'ctx, unit) ws_op" where
  "async_send_events = inspect (\<lambda>(s, x). case async_queue x of
      [] \<Rightarrow> ws (\<lambda>x. x\<lparr>ws_pause_time_msec := next_ws_pause (ws_pause_time_msec x),
                     send_timer := Some (next_ws_pause (ws_pause_time_msec x))\<rparr>)
    | msg # rest \<Rightarrow> stmts [
        ws (\<lambda>x. x\<lparr>ws_pause_time_msec := 0\<rparr>),
        regulate,
        ws (\<lambda>x. x\<lparr>async_msg := Some msg, async_queue := rest\<rparr>),
        ws (\<lambda>x. x\<lparr>writing := True, written := written x @ [msg]\<rparr>)])"

definition write_completed :: "bool \<Rightarrow> ('db, 'ctx, unit) ws_op" where
  "write_completed ec = (if ec then close_ws else async_send_events)"

definition push_msg :: "bytes \<Rightarrow> ('db, 'ctx, unit) ws_op" where
  "push_msg buf = stmts [
     ws (\<lambda>x. x\<lparr>async_queue := async_queue x @ [buf]\<rparr>),
     inspect (\<lambda>(s, x). whenM (ws_pause_time_msec x > 0)
       (ws (\<lambda>x. x\<lparr>send_timer := map_option (\<lambda>_. 0) (send_timer x)\<rparr>))),
     ws (\<lambda>x. x\<lparr>msg_report_counter := msg_report_counter x - 1\<rparr>),
     inspect (\<lambda>(s, x). whenM (msg_report_counter x = 0) (ws (\<lambda>x. x\<lparr>msg_report_counter := 10000\<rparr>)))]"

text \<open>
  \<open>envelope\<close> is what the JSON writer produces for an object with the two members. The message
  goes through a C string, and \<open>memcpy\<close> takes the length that the writer reported: a zero
  byte before the last place would make it read past the string.
\<close>

type_synonym envelope = "string \<Rightarrow> string \<Rightarrow> error + string"

definition c_string_copy :: "string \<Rightarrow> bytes option" where
  "c_string_copy json = (let msg = takeWhile (\<lambda>c. code c \<noteq> 0) json; sz = length json in
     if length msg + 1 < sz then None else Some (take sz (bytes_of msg @ [0])))"

definition on_event_json :: "envelope \<Rightarrow> string \<Rightarrow> string \<Rightarrow> ('db, 'ctx, unit) ws_op" where
  "on_event_json envelope msgtype event = catching
     (andThen (liftE (envelope msgtype event)) (\<lambda>json. case c_string_copy json of
        None \<Rightarrow> (\<lambda>_. Undefined)
      | Some buf \<Rightarrow> push_msg buf))
     (\<lambda>_. onFst abort_receiver)"

definition on_event_bin :: "u32 \<Rightarrow> u32 \<Rightarrow> string \<Rightarrow> ('db, 'ctx, unit) ws_op" where
  "on_event_bin msgtype msgopts event =
     push_msg (le_bytes 4 msgtype @ le_bytes 4 msgopts @ bytes_of event)"

definition deliver :: "envelope \<Rightarrow> js_channel \<Rightarrow> string \<Rightarrow> ('db, 'ctx, unit) ws_op" where
  "deliver envelope ch event = inspect (\<lambda>(s, x). case map_of (subscriptions x) ch of
      None \<Rightarrow> ret ()
    | Some (On_event_bin msgtype msgopts) \<Rightarrow> on_event_bin msgtype msgopts event
    | Some (On_event_json msgtype) \<Rightarrow> on_event_json envelope msgtype event)"

section \<open>The start, and what happens afterwards\<close>

text \<open>\<open>resolved\<close> is how resolving the host went, \<open>connected\<close> how connecting and the handshake went.\<close>

definition ws_start :: "('db, 'ctx) env \<Rightarrow> error + unit \<Rightarrow> error + unit \<Rightarrow> ('db, 'ctx, unit) ws_op" where
  "ws_start E resolved connected = stmts [
     whenM (\<not> interactive_mode (cfg E))
       (inspect (\<lambda>(s, x). onFst (exporter_will_ack_blocks E (maxunack x)))),
     liftE resolved,
     ws (\<lambda>x. x\<lparr>ws_stream := Some False\<rparr>),
     liftE connected,
     ws (\<lambda>x. x\<lparr>ws_stream := Some True\<rparr>),
     if interactive_mode (cfg E) then ws (\<lambda>x. x\<lparr>reading_requests := True\<rparr>)
     else ws (\<lambda>x. x\<lparr>reading_acks := True\<rparr>),
     async_send_events]"

definition ws_plugin_startup :: "('db, 'ctx) env \<Rightarrow> error + unit \<Rightarrow> error + unit \<Rightarrow> ('db, 'ctx, unit) ws_op" where
  "ws_plugin_startup E resolved connected = whenM (\<not> noexport_mode (cfg E)) (ws_start E resolved connected)"

definition ws_plugin_shutdown :: "('db, 'ctx) env \<Rightarrow> ('db, 'ctx, unit) ws_op" where
  "ws_plugin_shutdown E = whenM (\<not> noexport_mode (cfg E)) ws_stop"


text \<open>
  What the executor runs after the start: the decoder's events, the completions of the
  operations in flight, and the delivery of a request to the receiver; the receiver has
  transitions of its own.
\<close>

datatype ws_input =
    Event js_channel string
  | Write_done bool
  | Timer_done
  | Ack_read bool string
  | Request_read bool string
  | Close_done
  | Request_delivered
  | Shutdown

fun ws_enabled :: "ws_input \<Rightarrow> ws_exporter \<Rightarrow> bool" where
  "ws_enabled (Event ch event) x = True"
| "ws_enabled (Write_done ec) x = writing x"
| "ws_enabled Timer_done x = (send_timer x \<noteq> None)"
| "ws_enabled (Ack_read ec data) x = reading_acks x"
| "ws_enabled (Request_read ec data) x = reading_requests x"
| "ws_enabled Close_done x = closing x"
| "ws_enabled Request_delivered x = (posted_requests x \<noteq> [])"
| "ws_enabled Shutdown x = True"

definition deliver_request :: "('db, 'ctx) env \<Rightarrow> ('db, 'ctx, unit) ws_op" where
  "deliver_request E = inspect (\<lambda>(s, x). case posted_requests x of
      [] \<Rightarrow> ret ()
    | req # rest \<Rightarrow> stmts [ws (\<lambda>x. x\<lparr>posted_requests := rest\<rparr>),
        whenM (interactive_mode (cfg E)) (onFst (on_block_req E req))])"

fun ws_handle :: "('db, 'ctx) env \<Rightarrow> envelope \<Rightarrow> ws_input \<Rightarrow> ('db, 'ctx, unit) ws_op" where
  "ws_handle E J (Event ch event) = deliver J ch event"
| "ws_handle E J (Write_done ec) = stmts [ws (\<lambda>x. x\<lparr>writing := False\<rparr>), write_completed ec]"
| "ws_handle E J Timer_done = stmts [ws (\<lambda>x. x\<lparr>send_timer := None\<rparr>), async_send_events]"
| "ws_handle E J (Ack_read ec data) = stmts [ws (\<lambda>x. x\<lparr>reading_acks := False\<rparr>), ack_read ec data]"
| "ws_handle E J (Request_read ec data) = stmts [ws (\<lambda>x. x\<lparr>reading_requests := False\<rparr>), request_read ec data]"
| "ws_handle E J Close_done = stmts [ws (\<lambda>x. x\<lparr>closing := False\<rparr>), close_completed]"
| "ws_handle E J Request_delivered = deliver_request E"
| "ws_handle E J Shutdown = ws_plugin_shutdown E"

text \<open>A run, with the inputs it had, of the receiver and the exporter together.\<close>

inductive ws_run :: "('db, 'ctx) env \<Rightarrow> envelope \<Rightarrow> ('db, 'ctx) receiver \<times> ws_exporter \<Rightarrow>
    ws_input list \<Rightarrow> ('db, 'ctx) receiver \<times> ws_exporter \<Rightarrow> bool"
  for E :: "('db, 'ctx) env" and J :: envelope and c :: "('db, 'ctx) receiver \<times> ws_exporter" where
  ws_none: "ws_run E J c [] c"
| ws_input: "ws_run E J c is (s, x) \<Longrightarrow> ws_enabled i x \<Longrightarrow> ws_handle E J i (s, x) = Return () d \<Longrightarrow>
    ws_run E J c (is @ [i]) d"
| ws_receiver: "ws_run E J c is (s, x) \<Longrightarrow> own_step E s t \<Longrightarrow> ws_run E J c is (t, x)"

inductive_cases ws_run_cases: "ws_run E J c is d"


lemma ack_block_returns: "exporter_will_ack s \<Longrightarrow> \<exists>t. ack_block n s = Return () t"
  by (auto simp: ack_block_def op_defs Let_def abort_receiver_eq)

lemma ack_block_cases:
  "ack_block n s = Undefined \<or> (exporter_will_ack s \<and> (\<exists>t. ack_block n s = Return () t))"
  using ack_block_returns [of s n] by (cases "exporter_will_ack s") (simp_all add: ack_block_def op_defs)

section \<open>What the consumer receives\<close>

text \<open>The messages that an input adds to the stream.\<close>

fun framed :: "envelope \<Rightarrow> handler option \<Rightarrow> string \<Rightarrow> bytes list" where
  "framed J None event = []"
| "framed J (Some (On_event_bin msgtype msgopts)) event = [le_bytes 4 msgtype @ le_bytes 4 msgopts @ bytes_of event]"
| "framed J (Some (On_event_json msgtype)) event =
     (case J msgtype event of Inl _ \<Rightarrow> [] | Inr json \<Rightarrow> [bytes_of json])"

fun messages :: "envelope \<Rightarrow> (js_channel \<times> handler) list \<Rightarrow> ws_input \<Rightarrow> bytes list" where
  "messages J subs (Event ch event) = framed J (map_of subs ch) event"
| "messages J subs _ = []"

lemma c_string_copy_Some:
  assumes "c_string_copy json = Some buf"
  shows "buf = bytes_of json"
proof -
  let ?msg = "takeWhile (\<lambda>c. code c \<noteq> 0) json"
  obtain rest where json: "json = ?msg @ rest" "rest = dropWhile (\<lambda>c. code c \<noteq> 0) json"
    using takeWhile_dropWhile_id by metis
  have len: "length json = length ?msg + length rest" by (subst json(1)) simp
  then consider "rest = []" | c where "rest = [c]"
    using assms by (cases rest rule: remdups_adj.cases) (auto simp: c_string_copy_def)
  moreover have "buf = take (length json) (bytes_of ?msg @ [0])"
    using assms by (auto simp: c_string_copy_def Let_def split: if_splits)
  ultimately show ?thesis
  proof cases
    case 1
    then have "?msg = json" using json(1) by simp
    with \<open>buf = _\<close> show ?thesis by (simp only: \<open>?msg = json\<close>) simp
  next
    case 2
    then have "code c = 0" using json(2) by (metis (mono_tags, lifting) hd_dropWhile list.distinct(1) list.sel(1))
    then have "bytes_of json = bytes_of ?msg @ [0]"
      using arg_cong [OF json(1), of bytes_of] 2 by (simp add: bytes_of_def)
    then show ?thesis using len 2 \<open>buf = _\<close> by simp
  qed
qed

lemma wp_trivial: "P \<Longrightarrow> wp True m (\<lambda>_ _. P) (\<lambda>_ _. True) s"
  by (simp add: wp_def split: outcome.splits)

lemma wp_ws [wp_simps]: "wp D (ws f) Q X (s, x) = Q () (s, f x)"
  by (simp add: ws_def wp_simps)

lemma wp_undefined: "wp D (\<lambda>_. Undefined) Q X c = D"
  by (simp add: wp_def)

lemma wp_close_ws [wp_simps]:
  "wp True close_ws Q X (s, x) = (case ws_stream x of
      None \<Rightarrow> True
    | Some True \<Rightarrow> Q () (s, x\<lparr>ws_stream := Some False, closing := True\<rparr>)
    | Some False \<Rightarrow> wp True abort_receiver (\<lambda>a t. Q a (t, x)) (\<lambda>e t. X e (t, x)) s)"
  by (simp add: close_ws_def wp_simps wp_undefined split: option.splits bool.splits)

text \<open>What a push and a send do to the exporter; the receiver only gets a slowdown.\<close>

lemma wp_push_msg [wp_simps]:
  "wp True (push_msg b) Q X (s, x) = Q () (s, x\<lparr>async_queue := async_queue x @ [b],
     send_timer := (if ws_pause_time_msec x > 0 then map_option (\<lambda>_. 0) (send_timer x) else send_timer x),
     msg_report_counter := (if msg_report_counter x = 1 then 10000 else msg_report_counter x - 1)\<rparr>)"
  by (cases x) (simp add: push_msg_def wp_simps)

definition regulated :: "nat \<Rightarrow> ws_exporter \<Rightarrow> ('db, 'ctx) receiver \<Rightarrow> ('db, 'ctx) receiver" where
  "regulated n x s = (if n \<ge> unat (queue_hwm x) then s\<lparr>slowdown_requested := True\<rparr>
     else if n < unat (queue_lwm x) then s\<lparr>slowdown_requested := False\<rparr> else s)"

lemma async_send_events_run:
  "async_send_events (s, x) = (case async_queue x of
      [] \<Rightarrow> Return () (s, x\<lparr>ws_pause_time_msec := next_ws_pause (ws_pause_time_msec x),
              send_timer := Some (next_ws_pause (ws_pause_time_msec x))\<rparr>)
    | msg # rest \<Rightarrow> Return () (regulated (length (async_queue x)) x s,
        x\<lparr>ws_pause_time_msec := 0, async_msg := Some msg, async_queue := rest, writing := True,
          written := written x @ [msg]\<rparr>))"
  by (cases "async_queue x")
    (simp_all add: async_send_events_def regulate_def regulated_def slowdown_def op_defs ws_def onFst_def)

lemma wp_async_send_events [wp_simps]:
  "wp True async_send_events Q X (s, x) = (case async_queue x of
      [] \<Rightarrow> Q () (s, x\<lparr>ws_pause_time_msec := next_ws_pause (ws_pause_time_msec x),
              send_timer := Some (next_ws_pause (ws_pause_time_msec x))\<rparr>)
    | msg # rest \<Rightarrow> Q () (regulated (length (async_queue x)) x s,
        x\<lparr>ws_pause_time_msec := 0, async_msg := Some msg, async_queue := rest, writing := True,
          written := written x @ [msg]\<rparr>))"
  by (simp add: wp_def async_send_events_run split: list.splits)

lemma wp_deliver [wp_simps]:
  "wp True (deliver J ch event) Q X (s, x) = (case map_of (subscriptions x) ch of
      None \<Rightarrow> Q () (s, x)
    | Some (On_event_bin msgtype msgopts) \<Rightarrow>
        wp True (push_msg (le_bytes 4 msgtype @ le_bytes 4 msgopts @ bytes_of event)) Q X (s, x)
    | Some (On_event_json msgtype) \<Rightarrow> (case J msgtype event of
        Inl _ \<Rightarrow> wp True abort_receiver (\<lambda>a t. Q a (t, x)) (\<lambda>e t. X e (t, x)) s
      | Inr json \<Rightarrow> (case c_string_copy json of None \<Rightarrow> True
          | Some _ \<Rightarrow> wp True (push_msg (bytes_of json)) Q X (s, x))))"
  by (auto simp: deliver_def on_event_bin_def on_event_json_def wp_simps wp_undefined dest: c_string_copy_Some
      split: option.splits handler.splits sum.splits)

lemmas ws_handlers = write_completed_def ack_read_def request_read_def close_completed_def
  ws_plugin_shutdown_def ws_stop_def deliver_request_def

lemma framed_bin:
  "framed J (map_of bin_subscriptions ch) event = [le_bytes 4 (bin_msgtype ch) @ le_bytes 4 (0 :: u32) @ bytes_of event]"
  by (cases ch) (simp_all add: bin_subscriptions_def)

lemma stream_step:
  "wp True (ws_handle E J i) (\<lambda>_ (t, y). subscriptions y = subscriptions x
     \<and> written y @ async_queue y = written x @ async_queue x @ messages J (subscriptions x) i) (\<lambda>_ _. True) (s, x)"
  by (cases i) (auto simp: ws_handlers wp_simps wp_trivial split: list.splits option.splits bool.splits sum.splits handler.splits)

lemma run_stream:
  assumes "ws_run E J (s0, x0) is d"
  shows "subscriptions (snd d) = subscriptions x0 \<and> written (snd d) @ async_queue (snd d)
    = written x0 @ async_queue x0 @ concat (map (messages J (subscriptions x0)) is)"
  using assms
proof induction
  case (ws_input "is" s x i d)
  then show ?case using wp_total [OF ws_input.hyps(3) stream_step] by (auto simp: case_prod_beta)
qed auto

text \<open>
  C23: Nothing is lost, doubled or reordered on the way to the consumer: at every moment of a
  run, the messages written to the socket followed by those still queued are exactly the
  messages of the events delivered so far, in their order.
\<close>

theorem exporter_stream:
  assumes "ws_run E J (s0, x0) is (t, y)"
  shows "written y @ async_queue y
    = written x0 @ async_queue x0 @ concat (map (messages J (subscriptions x0)) is)"
  using run_stream [OF assms] by simp

text \<open>
  With binary headers every channel of the decoder has a message type of its own, and the
  consumer can tell from a message which event of which channel it is.
\<close>

theorem bin_frames_tell_events:
  "framed J (map_of bin_subscriptions ch) event = framed J (map_of bin_subscriptions ch') event'
     \<longleftrightarrow> ch = ch' \<and> event = event'"
proof -
  have "bin_msgtype c = bin_msgtype c' \<longleftrightarrow> c = c'" for c c'
    by (cases c; cases c') simp_all
  moreover have "of_le_bytes (le_bytes 4 a) = a" for a :: u32
    by (simp only: of_le_bytes_inverse) (simp add: take_bit_word_eq_self)
  then have "le_bytes 4 a = le_bytes 4 b \<longleftrightarrow> a = b" for a b :: u32 by metis
  ultimately show ?thesis
    by (auto simp: framed_bin bytes_of_inject simp del: le_bytes.simps)
qed

section \<open>What the exporter asks of the receiver\<close>

text \<open>
  The four functions of the receiver that the exporter calls, and, as a specification, the calls
  that an input leads to: \<open>None\<close> stands for an input that is refused with an exception. A text
  acknowledges its number when that has 32 bits; a request is refused when its range is empty;
  the length of the queue alone decides about slowing down.
\<close>

datatype client_call = Acknowledge u32 | Slow_down bool | Abort_it | Request interactive_request

fun perform :: "('db, 'ctx) env \<Rightarrow> client_call \<Rightarrow> ('db, 'ctx, unit) rop" where
  "perform E (Acknowledge n) = ack_block n"
| "perform E (Slow_down b) = slowdown b"
| "perform E Abort_it = abort_receiver"
| "perform E (Request req) = on_block_req E req"

definition closing_calls :: "ws_exporter \<Rightarrow> client_call list" where
  "closing_calls x = (if ws_stream x = Some False then [Abort_it] else [])"

definition sending_calls :: "ws_exporter \<Rightarrow> client_call list" where
  "sending_calls x = (let queued = length (async_queue x) in
     if queued = 0 then []
     else if unat (queue_hwm x) \<le> queued then [Slow_down True]
     else if queued < unat (queue_lwm x) then [Slow_down False]
     else [])"

fun calls :: "('db, 'ctx) env \<Rightarrow> envelope \<Rightarrow> ws_input \<Rightarrow> ws_exporter \<Rightarrow> client_call list option" where
  "calls E J (Event ch event) x = Some (case map_of (subscriptions x) ch of
      Some (On_event_json msgtype) \<Rightarrow> (case J msgtype event of Inl _ \<Rightarrow> [Abort_it] | Inr _ \<Rightarrow> [])
    | _ \<Rightarrow> [])"
| "calls E J (Write_done ec) x = Some (if ec then closing_calls x else sending_calls x)"
| "calls E J Timer_done x = Some (sending_calls x)"
| "calls E J (Ack_read ec data) x = (if ec then Some (closing_calls x)
     else case stoul data of
         Inl _ \<Rightarrow> None
       | Inr ack \<Rightarrow> if unat ack < 2 ^ 32 then Some [Acknowledge (ucast ack)] else None)"
| "calls E J (Request_read ec data) x = (if ec then Some (closing_calls x)
     else case parse_request data of
         Inl _ \<Rightarrow> None
       | Inr req \<Rightarrow> if block_num_start req < block_num_end req then Some [] else None)"
| "calls E J Close_done x = Some [Abort_it]"
| "calls E J Request_delivered x = Some (if interactive_mode (cfg E) then map Request (take 1 (posted_requests x)) else [])"
| "calls E J Shutdown x = Some (if noexport_mode (cfg E) then [] else closing_calls x)"

lemma forM_one: "forM [a] f = f a"
  by (rule ext) (simp add: andThen_def ret_def split: outcome.splits)

lemma close_ws_calls: "close_ws (s, x) = Return () (t, y) \<Longrightarrow> forM (closing_calls x) (perform E) s = Return () t"
  by (auto simp: close_ws_def closing_calls_def op_defs onFst_def ws_def split: option.splits bool.splits outcome.splits)

lemma send_calls: "async_send_events (s, x) = Return () (t, y) \<Longrightarrow> forM (sending_calls x) (perform E) s = Return () t"
  by (auto simp: async_send_events_run sending_calls_def regulated_def slowdown_def Let_def op_defs split: list.splits if_splits)

lemma push_msg_run: "\<exists>x'. push_msg b (s, x) = Return () (s, x')"
  by (cases x) (simp add: push_msg_def op_defs ws_def)

lemma deliver_calls:
  assumes "deliver J ch event (s, x) = Return () (t, y)"
  shows "forM (the (calls E J (Event ch event) x)) (perform E) s = Return () t"
proof (cases "map_of (subscriptions x) ch")
  case (Some h)
  obtain x' where push: "\<And>b. push_msg b (s, x) = Return () (s, x' b)" using push_msg_run [of _ s x] by metis
  then show ?thesis
    using assms Some by (auto simp: deliver_def on_event_bin_def on_event_json_def inspect_def liftE_def onFst_def
        catching_def andThen_def ret_def throw_def split: handler.splits sum.splits option.splits outcome.splits)
qed (use assms in \<open>simp add: deliver_def inspect_def ret_def\<close>)

lemma not_above: "\<not> (4294967295 :: u64) < n \<longleftrightarrow> unat n < 2 ^ 32"
  by (auto simp: word_less_nat_alt)

text \<open>Every input leads to exactly the calls of the specification.\<close>

lemma handled_calls:
  assumes "ws_handle E J i (s, x) = Return () (t, y)"
  obtains cs where "calls E J i x = Some cs" and "forM cs (perform E) s = Return () t"
proof (cases i)
  case (Event ch event)
  then show ?thesis using that assms deliver_calls [of J ch event s x t y E] by simp
next
  case (Write_done ec)
  have x: "closing_calls (x\<lparr>writing := False\<rparr>) = closing_calls x" "sending_calls (x\<lparr>writing := False\<rparr>) = sending_calls x"
    by (simp_all add: closing_calls_def sending_calls_def Let_def)
  show ?thesis
    using that assms Write_done close_ws_calls [of s "x\<lparr>writing := False\<rparr>" t y E] send_calls [of s "x\<lparr>writing := False\<rparr>" t y E]
    by (auto simp: write_completed_def andThen_def ws_def updates_def ret_def x split: outcome.splits if_splits)
next
  case Timer_done
  have x: "sending_calls (x\<lparr>send_timer := None\<rparr>) = sending_calls x" by (simp add: sending_calls_def Let_def)
  show ?thesis
    using that assms Timer_done send_calls [of s "x\<lparr>send_timer := None\<rparr>" t y E]
    by (auto simp: andThen_def ws_def updates_def ret_def x split: outcome.splits)
next
  case (Ack_read ec data)
  have x: "closing_calls (x\<lparr>reading_acks := False\<rparr>) = closing_calls x" by (simp add: closing_calls_def)
  show ?thesis
  proof (cases ec)
    case True
    then show ?thesis
      using that assms Ack_read close_ws_calls [of s "x\<lparr>reading_acks := False\<rparr>" t y E]
      by (auto simp: ack_read_def andThen_def ws_def updates_def ret_def x split: outcome.splits)
  next
    case False
    then obtain ack where "stoul data = Inr ack" "unat ack < 2 ^ 32" "ack_block (ucast ack) s = Return () t"
      using assms Ack_read
      using not_above by (auto simp: ack_read_def op_defs ws_def onFst_def split: outcome.splits sum.splits if_splits)
    then show ?thesis using that Ack_read False forM_one [of "Acknowledge (ucast ack)" "perform E"] by auto
  qed
next
  case (Request_read ec data)
  have x: "closing_calls (x\<lparr>reading_requests := False\<rparr>) = closing_calls x" by (simp add: closing_calls_def)
  show ?thesis
    using that assms Request_read close_ws_calls [of s "x\<lparr>reading_requests := False\<rparr>" t y E]
    by (auto simp: request_read_def op_defs ws_def x not_le split: outcome.splits sum.splits if_splits)
next
  case Close_done
  then show ?thesis
    using that assms by (auto simp: close_completed_def op_defs ws_def onFst_def split: outcome.splits)
next
  case Request_delivered
  then show ?thesis
    using that assms by (auto simp: deliver_request_def op_defs ws_def onFst_def split: outcome.splits list.splits if_splits)
next
  case Shutdown
  then show ?thesis
    using that assms close_ws_calls [of s x t y E] by (auto simp: ws_plugin_shutdown_def ws_stop_def op_defs split: if_splits)
qed

lemma refused_input:
  assumes "calls E J i x = None"
  shows "\<exists>e y. ws_handle E J i (s, x) = Throw e (s, y)"
proof (cases i)
  case (Ack_read ec data)
  then show ?thesis
    using assms by (auto simp: ack_read_def op_defs ws_def not_above split: sum.splits if_splits)
next
  case (Request_read ec data)
  then show ?thesis
    using assms by (auto simp: request_read_def op_defs ws_def not_less split: sum.splits if_splits)
qed (use assms in \<open>simp_all\<close>)

text \<open>An input that is not refused fails only as the calls fail, apart from undefined behaviour.\<close>

definition ends :: "('s, 'a) op \<Rightarrow> 's \<Rightarrow> bool" where
  "ends m c \<longleftrightarrow> m c = Undefined \<or> (\<exists>a d. m c = Return a d)"

lemma ends_close: "ends close_ws (s, x)"
  by (auto simp: ends_def close_ws_def op_defs onFst_def ws_def abort_receiver_eq split: option.splits bool.splits)

lemma ends_deliver: "ends (deliver J ch event) (s, x)"
proof (cases "map_of (subscriptions x) ch")
  case (Some h)
  obtain x' where push: "\<And>b. push_msg b (s, x) = Return () (s, x' b)" using push_msg_run [of _ s x] by metis
  then show ?thesis
    using Some by (auto simp: ends_def deliver_def on_event_bin_def on_event_json_def inspect_def liftE_def onFst_def
        catching_def andThen_def ret_def throw_def abort_receiver_eq split: handler.splits sum.splits option.splits)
qed (simp add: ends_def deliver_def inspect_def ret_def)

lemma ends_send: "ends async_send_events (s, x)"
  by (simp add: ends_def async_send_events_run split: list.splits)

lemma ends_ack: "ends (ack_block n) s"
  using ack_block_cases [of n s] by (auto simp: ends_def)

lemma ends_after: "ends m (s, f x) \<Longrightarrow> ends (stmts [ws f, m]) (s, x)"
  by (auto simp: ends_def op_defs ws_def split: outcome.splits)

lemma not_ends: "ends m c \<Longrightarrow> m c \<noteq> Throw e d" "ends m c \<Longrightarrow> m c \<noteq> Diverge"
  by (auto simp: ends_def)

lemma failed_calls:
  assumes "calls E J i x = Some cs"
  shows "ws_handle E J i (s, x) = Throw e (t, y) \<Longrightarrow> forM cs (perform E) s = Throw e t"
    and "ws_handle E J i (s, x) = Diverge \<Longrightarrow> forM cs (perform E) s = Diverge"
proof -
  have "(ws_handle E J i (s, x) = Throw e (t, y) \<longrightarrow> forM cs (perform E) s = Throw e t)
    \<and> (ws_handle E J i (s, x) = Diverge \<longrightarrow> forM cs (perform E) s = Diverge)"
  proof (cases "i = Request_delivered")
    case True
    then show ?thesis
      using assms by (auto simp: deliver_request_def op_defs ws_def onFst_def split: outcome.splits list.splits if_splits)
  next
    case False
    have "ends (ws_handle E J i) (s, x)"
    proof (cases i)
      case (Ack_read ec data)
      have "ends (ack_read ec data) (s, y)" for y
      proof (cases ec)
        case False
        then obtain ack where "stoul data = Inr ack" "\<not> 4294967295 < ack"
          using assms Ack_read not_above by (auto split: sum.splits if_splits)
        then show ?thesis
          using False ends_ack [of "ucast ack" s] by (auto simp: ends_def ack_read_def op_defs ws_def onFst_def)
      qed (simp add: ack_read_def ends_close)
      then show ?thesis unfolding Ack_read ws_handle.simps by (intro ends_after)
    next
      case (Request_read ec data)
      have "ends (request_read ec data) (s, y)" for y
      proof (cases ec)
        case False
        then show ?thesis
          using assms Request_read by (auto simp: ends_def request_read_def op_defs ws_def not_le split: sum.splits if_splits)
      qed (simp add: request_read_def ends_close)
      then show ?thesis unfolding Request_read ws_handle.simps by (intro ends_after)
    next
      case (Write_done ec)
      have "ends (write_completed ec) (s, y)" for y
        by (cases ec) (simp_all add: write_completed_def ends_close ends_send)
      then show ?thesis unfolding Write_done ws_handle.simps by (intro ends_after)
    next
      case Close_done
      then show ?thesis by (simp add: ends_def close_completed_def op_defs ws_def onFst_def abort_receiver_eq)
    next
      case Shutdown
      then show ?thesis using ends_close by (auto simp: ends_def ws_plugin_shutdown_def ws_stop_def op_defs)
    next
      case Timer_done
      show ?thesis unfolding Timer_done ws_handle.simps by (intro ends_after ends_send)
    qed (use False ends_deliver in \<open>simp_all\<close>)
    then show ?thesis using not_ends by metis
  qed
  then show "ws_handle E J i (s, x) = Throw e (t, y) \<Longrightarrow> forM cs (perform E) s = Throw e t"
    and "ws_handle E J i (s, x) = Diverge \<Longrightarrow> forM cs (perform E) s = Diverge" by blast+
qed

text \<open>How a list of calls accounts for the outcome of an input.\<close>

fun accounts :: "(unit, 's) outcome \<Rightarrow> (unit, 's \<times> 'x) outcome \<Rightarrow> bool" where
  "accounts m (Return _ (t, y)) \<longleftrightarrow> m = Return () t"
| "accounts m (Throw e (t, y)) \<longleftrightarrow> m = Throw e t"
| "accounts m Diverge \<longleftrightarrow> m = Diverge"
| "accounts m Undefined \<longleftrightarrow> True"

lemma calls_account:
  assumes "calls E J i x = Some cs"
  shows "accounts (forM cs (perform E) s) (ws_handle E J i (s, x))"
proof (cases "ws_handle E J i (s, x)")
  case (Return u d)
  obtain t y where d: "d = (t, y)" by fastforce
  have "forM cs (perform E) s = Return () t"
    by (rule handled_calls [of E J i s x t y]) (use Return d assms in simp_all)
  then show ?thesis unfolding Return d by simp
next
  case (Throw e d)
  obtain t y where d: "d = (t, y)" by fastforce
  show ?thesis using failed_calls(1) [OF assms Throw [unfolded d]] unfolding Throw d by simp
next
  case Diverge
  then show ?thesis using failed_calls(2) [OF assms Diverge] by simp
qed simp

text \<open>The receiver between its own transitions and a list of calls.\<close>

inductive called :: "('db, 'ctx) env \<Rightarrow> ('db, 'ctx) receiver \<Rightarrow> client_call list \<Rightarrow> ('db, 'ctx) receiver \<Rightarrow> bool"
  for E :: "('db, 'ctx) env" and s :: "('db, 'ctx) receiver" where
  called_none: "called E s [] s"
| called_own: "called E s cs t \<Longrightarrow> own_step E t u \<Longrightarrow> called E s cs u"
| called_call: "called E s cs t \<Longrightarrow> perform E c t = Return () u \<Longrightarrow> called E s (cs @ [c]) u"

lemma called_calls:
  "forM ds (perform E) t = Return () u \<Longrightarrow> called E s cs t \<Longrightarrow> called E s (cs @ ds) u"
proof (induction ds arbitrary: cs t)
  case (Cons d ds)
  then obtain v where "perform E d t = Return () v" "forM ds (perform E) v = Return () u"
    by (auto simp: andThen_def split: outcome.splits)
  then show ?case using Cons.IH [OF _ called_call [OF Cons.prems(2)]] by fastforce
qed (simp add: ret_def)

text \<open>The acknowledgements among the calls, and those that the consumer's messages contain.\<close>

fun acks_of :: "client_call list \<Rightarrow> u32 list" where
  "acks_of [] = []"
| "acks_of (Acknowledge n # cs) = n # acks_of cs"
| "acks_of (c # cs) = acks_of cs"

fun acknowledged :: "ws_input \<Rightarrow> u32 list" where
  "acknowledged (Ack_read False data) = (case stoul data of Inl _ \<Rightarrow> [] | Inr ack \<Rightarrow> [ucast ack])"
| "acknowledged i = []"

lemma acks_of_append [simp]: "acks_of (cs @ ds) = acks_of cs @ acks_of ds"
  by (induction cs rule: acks_of.induct) simp_all

lemma acks_of_calls:
  assumes "calls E J i x = Some cs"
  shows "acks_of cs = acknowledged i"
proof (cases i)
  case (Ack_read ec data)
  then show ?thesis using assms by (cases ec) (auto simp: closing_calls_def split: sum.splits if_splits)
next
  case Request_delivered
  then show ?thesis using assms by (cases "posted_requests x") auto
qed (use assms in \<open>auto simp: closing_calls_def sending_calls_def Let_def split: option.splits handler.splits sum.splits if_splits\<close>)

text \<open>
  C24: The exporter asks of the receiver exactly what its contract says: in every run of the two
  together the receiver goes through transitions of its own and calls of the exporter, and the
  acknowledgements among these are the numbers in the consumer's messages, each once and in
  their order. And at every moment of the run the handling of any input ends as exactly the
  calls of the specification do, with the receiver they leave, unless it is undefined: a
  slowdown when the queue has reached the upper mark, its end below the lower one, nothing
  between them; the acknowledgement of a number of 32 bits; the end of the receiver when the
  socket fails; while a number or a range that is refused throws an exception and leaves the
  receiver as it was.
\<close>

theorem exporter_refines_clients:
  assumes "ws_run E J (s0, x0) is (t, y)"
  shows "(\<exists>cs. called E s0 cs t \<and> acks_of cs = concat (map acknowledged is))
    \<and> (\<forall>i. case calls E J i y of
          None \<Rightarrow> \<exists>e z. ws_handle E J i (t, y) = Throw e (t, z)
        | Some cs \<Rightarrow> accounts (forM cs (perform E) t) (ws_handle E J i (t, y)))"
proof -
  have "\<exists>cs. called E s0 cs (fst d) \<and> acks_of cs = concat (map acknowledged is)" if "ws_run E J (s0, x0) is d" for d
    using that
  proof induction
    case ws_none
    then show ?case using called_none by (intro exI [of _ "[]"]) simp
  next
    case (ws_input "is" s x i d)
    obtain cs where cs: "called E s0 cs s" "acks_of cs = concat (map acknowledged is)" using ws_input.IH by auto
    obtain ds where ds: "calls E J i x = Some ds" "forM ds (perform E) s = Return () (fst d)"
      using handled_calls [of E J i s x "fst d" "snd d"] ws_input.hyps(3) by auto
    have "called E s0 (cs @ ds) (fst d)" using ds(2) cs(1) by (rule called_calls)
    then show ?case using cs(2) acks_of_calls [OF ds(1)] by (intro exI [of _ "cs @ ds"]) simp
  next
    case (ws_receiver "is" s x t)
    then show ?case using called_own by fastforce
  qed
  then have "\<exists>cs. called E s0 cs t \<and> acks_of cs = concat (map acknowledged is)" using assms by fastforce
  moreover have "case calls E J i y of
          None \<Rightarrow> \<exists>e z. ws_handle E J i (t, y) = Throw e (t, z)
        | Some cs \<Rightarrow> accounts (forM cs (perform E) t) (ws_handle E J i (t, y))" for i
  proof (cases "calls E J i y")
    case None
    then show ?thesis using refused_input [OF None] by simp
  next
    case (Some cs)
    then show ?thesis using calls_account [OF Some] by (simp only: option.case)
  qed
  ultimately show ?thesis by blast
qed

section \<open>The send loop\<close>

text \<open>
  While the socket is open exactly one of the timer and a write is pending, so the loop goes
  on; a message never waits for the idle timer; the idle time stays small.
\<close>

definition sender_ok :: "ws_exporter \<Rightarrow> bool" where
  "sender_ok x \<longleftrightarrow>
     (ws_stream x = Some True \<longrightarrow> send_timer x \<noteq> None \<or> writing x) \<and>
     \<not> (send_timer x \<noteq> None \<and> writing x) \<and>
     (\<forall>ms. send_timer x = Some ms \<longrightarrow> 0 < ws_pause_time_msec x \<and> (async_queue x \<noteq> [] \<longrightarrow> ms = 0)) \<and>
     ws_pause_time_msec x \<in> {0, 5, 10, 20, 40, 80, 160, 320}"

lemma next_ws_pause_range:
  "t \<in> {0, 5, 10, 20, 40, 80, 160, 320} \<Longrightarrow>
     next_ws_pause t \<in> {0, 5, 10, 20, 40, 80, 160, 320} \<and> 0 < next_ws_pause t"
  by (auto simp: next_ws_pause_def word_less_nat_alt)

lemma sender_step:
  assumes "sender_ok x" and "ws_enabled i x"
  shows "wp True (ws_handle E J i) (\<lambda>_ (t, y). sender_ok y) (\<lambda>_ _. True) (s, x)"
  using assms next_ws_pause_range [of "ws_pause_time_msec x"]
  by (cases i) (auto simp: ws_handlers wp_simps sender_ok_def intro!: wp_trivial
      split: list.splits option.splits bool.splits sum.splits handler.splits)

lemma sender_start:
  assumes "ws_start E (Inr ()) (Inr ()) (s, x) = Return () d"
    and "send_timer x = None" and "\<not> writing x" and "ws_pause_time_msec x = 0"
  shows "sender_ok (snd d) \<and> ws_stream (snd d) = Some True"
proof -
  have "wp True (ws_start E (Inr ()) (Inr ())) (\<lambda>_ (t, y). sender_ok y \<and> ws_stream y = Some True) (\<lambda>_ _. True) (s, x)"
    using assms(2-4) by (simp add: ws_start_def wp_simps exporter_will_ack_blocks_def sender_ok_def next_ws_pause_def
        split: list.splits)
  from wp_total [OF assms(1) this] show ?thesis by (simp add: case_prod_beta)
qed


text \<open>
  C25: The send loop never dies and never idles with work to do: in every run after a start,
  while the socket is open either a write or the timer is pending, never both; when a message
  is queued and the timer is pending, the timer is due at once; the pause is at most 320 ms.
\<close>

theorem send_loop_alive:
  assumes "ws_start E (Inr ()) (Inr ()) (s, x) = Return () c"
    and "send_timer x = None" and "\<not> writing x" and "ws_pause_time_msec x = 0"
    and "ws_run E J c is (t, y)"
  shows "(ws_stream y = Some True \<longrightarrow> send_timer y \<noteq> None \<or> writing y)
    \<and> \<not> (send_timer y \<noteq> None \<and> writing y)
    \<and> (async_queue y \<noteq> [] \<and> send_timer y \<noteq> None \<longrightarrow> send_timer y = Some 0)
    \<and> ws_pause_time_msec y \<le> 320"
proof -
  have "sender_ok (snd d)" if "ws_run E J c is d" for d
    using that
  proof induction
    case ws_none
    then show ?case using sender_start [OF assms(1-4)] by simp
  next
    case (ws_input "is" s x i d)
    then show ?case using wp_total [OF ws_input.hyps(3) sender_step [of x i]] by (simp add: case_prod_beta)
  qed simp
  from this [OF assms(5)] show ?thesis by (auto simp: sender_ok_def)
qed

section \<open>Slowing the receiver down\<close>

lemma write_done_run:
  "writing x \<Longrightarrow> async_queue x = msg # rest \<Longrightarrow> ws_handle E J (Write_done False) (s, x)
     = Return () (regulated (length (async_queue x)) x s,
        x\<lparr>ws_pause_time_msec := 0, async_msg := Some msg, async_queue := rest, writing := True,
          written := written x @ [msg]\<rparr>)"
  by (simp add: write_completed_def andThen_def ws_def updates_def async_send_events_run ret_def)
    (cases x, simp add: regulated_def)

text \<open>
  C26: When the lower mark is at least 2 and not above the upper one, a receiver that the
  exporter slowed down is released again: once the consumer has taken the queue, without
  anything new coming, the last write has lifted the slowdown, and everything that was queued
  was written.
\<close>

theorem slowdown_lifted:
  assumes "writing x" and "async_queue x \<noteq> []" and "2 \<le> queue_lwm x" and "queue_lwm x \<le> queue_hwm x"
  shows "\<exists>y. forM (replicate (length (async_queue x)) (Write_done False)) (ws_handle E J) (s, x)
      = Return () (s\<lparr>slowdown_requested := False\<rparr>, y)
    \<and> async_queue y = [] \<and> written y = written x @ async_queue x"
  using assms
proof (induction "async_queue x" arbitrary: s x)
  case (Cons msg rest)
  let ?y = "x\<lparr>ws_pause_time_msec := 0, async_msg := Some msg, async_queue := rest, writing := True,
      written := written x @ [msg]\<rparr>"
  have run: "ws_handle E J (Write_done False) (s, x) = Return () (regulated (length (async_queue x)) x s, ?y)"
    using Cons.prems(1) Cons.hyps(2) by (intro write_done_run) simp_all
  have len: "length (async_queue x) = Suc (length rest)" by (simp add: Cons.hyps(2) [symmetric])
  have reg: "(regulated n x s)\<lparr>slowdown_requested := False\<rparr> = s\<lparr>slowdown_requested := False\<rparr>" for n
    by (simp add: regulated_def)
  show ?case
  proof (cases rest)
    case Nil
    have "1 < unat (queue_lwm x)" "1 < unat (queue_hwm x)"
      using Cons.prems(3,4) by (auto simp: word_le_nat_alt)
    then have "regulated 1 x s = s\<lparr>slowdown_requested := False\<rparr>" by (simp add: regulated_def)
    then show ?thesis
      using run Nil Cons.hyps(2) [symmetric] by (simp add: andThen_def ret_def)
  next
    case (Cons m ms)
    then obtain y where "forM (replicate (length (async_queue ?y)) (Write_done False)) (ws_handle E J) (regulated (length (async_queue x)) x s, ?y)
        = Return () (s\<lparr>slowdown_requested := False\<rparr>, y)" "async_queue y = []" "written y = written ?y @ async_queue ?y"
      using Cons.hyps(1) [of ?y "regulated (length (async_queue x)) x s"] Cons.prems(3,4) reg by auto
    then show ?thesis
      using run len Cons.hyps(2) [symmetric] by (auto simp: andThen_def)
  qed
qed simp

lemma regulated_marks:
  "regulated n (x\<lparr>writing := b\<rparr>) s = regulated n x s" "regulated n (x\<lparr>send_timer := tm\<rparr>) s = regulated n x s"
  by (simp_all add: regulated_def)

lemma lwm_step:
  assumes "queue_lwm x \<le> 1" and "slowdown_requested s"
  shows "wp True (ws_handle E J i) (\<lambda>_ (t, y). queue_lwm y = queue_lwm x \<and> slowdown_requested t) (\<lambda>_ _. True) (s, x)"
proof -
  have abort: "wp True abort_receiver (\<lambda>_ t. slowdown_requested t) (\<lambda>_ _. True) s"
    using assms(2) by (simp add: wp_def abort_receiver_eq)
  have ack: "wp True (ack_block n) (\<lambda>_ t. slowdown_requested t) (\<lambda>_ _. True) s" for n
    using assms(2) abort by (simp add: ack_block_def wp_simps Let_def)
  have req: "wp True (on_block_req E r) (\<lambda>_ t. slowdown_requested t) (\<lambda>_ _. True) s" for r
    using assms(2) wp_within [OF within_on_block_req [of E r], of s]
    by (auto simp: client_frame_def elim!: wp_mono)
  have reg: "slowdown_requested (regulated (length (m # ms)) x s)" for m :: bytes and ms
    using assms by (simp add: regulated_def word_le_nat_alt)
  show ?thesis
    using assms(2) abort ack req reg
    by (cases i) (auto simp: ws_handlers wp_simps regulated_marks
        split: list.splits option.splits bool.splits sum.splits handler.splits)
qed

text \<open>
  C27: With a maximum queue size of 1 or 2 a slowdown is never lifted: the lower mark that the
  options then give cannot be undercut when there is something to send, and once the exporter
  has asked the receiver to slow down, no run of the two ever resumes the flow.
\<close>

theorem small_queue_never_resumes:
  assumes "ws_options options x0 = Return () x1" and "options ''exp-ws-max-queue'' = Some (Unsigned n)"
    and "n = 1 \<or> n = 2"
    and "queue_lwm x = queue_lwm x1" and "slowdown_requested s" and "ws_run E J (s, x) is (t, y)"
  shows "slowdown_requested t \<and> pause_needed E q t"
proof -
  have "wp True (ws_options options) (\<lambda>_ x. queue_lwm x = n * 3 div 4) (\<lambda>_ _. True) x0"
    using assms(2) by (simp add: ws_options_def wp_simps as_unsigned_def option_at_def ws_init_def split: sum.splits)
  from wp_total [OF assms(1) this] have "queue_lwm x1 = n * 3 div 4" .
  then have lwm: "queue_lwm x \<le> 1" using assms(3,4) by (auto simp: word_le_nat_alt)
  have "queue_lwm (snd d) \<le> 1 \<and> slowdown_requested (fst d)" if "ws_run E J (s, x) is d" for d
    using that
  proof induction
    case ws_none
    then show ?case using lwm assms(5) by simp
  next
    case (ws_input "is" s x i d)
    then show ?case using wp_total [OF ws_input.hyps(3) lwm_step [of x s]] by (simp add: case_prod_beta)
  next
    case (ws_receiver "is" s x t)
    then show ?case using own_step_frame [OF ws_receiver.hyps(2)] by (simp add: client_frame_def)
  qed
  from this [OF assms(6)] show ?thesis by (simp add: pause_needed_def)
qed


section \<open>The consumer's texts\<close>

text \<open>
  An acknowledgement is the decimal number at the start of the message: for a 32-bit number
  the receiver gets exactly that acknowledgement and the exporter goes on reading; a number
  that does not fit is refused with an exception and neither object changes.
\<close>

theorem ack_text:
  assumes "exporter_will_ack s" and "n < 2 ^ 64" and "rest = [] \<or> \<not> isdigit (hd rest)"
  shows "if n < 2 ^ 32
    then \<exists>t. ack_block (word_of_nat n) s = Return () t
       \<and> ack_read False (decimal n @ rest) (s, x) = Return () (t, x\<lparr>reading_acks := True\<rparr>)
    else ack_read False (decimal n @ rest) (s, x)
       = Throw (Runtime_error ''Consumer acknowledged block number higher than UINT32_MAX'') (s, x)"
proof -
  obtain t where t: "ack_block (word_of_nat n) s = Return () t"
    using ack_block_returns [OF assms(1)] by blast
  have "unat (word_of_nat n :: u64) = n" using assms(2) by (simp add: unat_of_nat)
  then have "(word_of_nat n :: u64) > 4294967295 \<longleftrightarrow> \<not> n < 2 ^ 32" by (auto simp: word_less_nat_alt)
  then show ?thesis
    using t by (simp add: ack_read_def stoul_decimal [OF assms(2,3)] ucast_word_of_nat andThen_def liftE_def ret_def
        whenM_def throw_def updates_def onFst_def ws_def)
qed

text \<open>
  An interactive request gives a range as two decimal numbers, or one block, whose range
  ends after it. Numbers that fit 64 bits but not 32 are not refused: the request is then for
  the numbers modulo 2^32.
\<close>

theorem request_text:
  assumes "m < 2 ^ 64" and "n < 2 ^ 64"
  shows "parse_request (decimal m @ ''-'' @ decimal n)
      = Inr \<lparr>block_num_start = word_of_nat m, block_num_end = word_of_nat n\<rparr>
    \<and> parse_request (decimal m) = Inr \<lparr>block_num_start = word_of_nat m, block_num_end = word_of_nat m + 1\<rparr>"
proof
  have nodash: "\<forall>c \<in> set (decimal k). c \<noteq> CHR ''-''" for k
    using decimal_digits [of k] digit_not_sign by blast

  have "takeWhile (\<lambda>c. c \<noteq> CHR ''-'') (decimal m @ ''-'' @ decimal n) = decimal m"
    "dropWhile (\<lambda>c. c \<noteq> CHR ''-'') (decimal m @ ''-'' @ decimal n) = ''-'' @ decimal n"
    using nodash [of m] by (simp_all add: takeWhile_append dropWhile_append)
  then show "parse_request (decimal m @ ''-'' @ decimal n)
      = Inr \<lparr>block_num_start = word_of_nat m, block_num_end = word_of_nat n\<rparr>"
    using stoul_decimal [OF assms(1), of "[]"] stoul_decimal [OF assms(2), of "[]"]
    by (simp add: parse_request_def ucast_word_of_nat)
  show "parse_request (decimal m) = Inr \<lparr>block_num_start = word_of_nat m, block_num_end = word_of_nat m + 1\<rparr>"
    using stoul_decimal [OF assms(1), of "[]"] nodash [of m] by (auto simp: parse_request_def ucast_word_of_nat)
qed

theorem request_text_witness:
  "parse_request ''4294967301-4294967308'' = Inr \<lparr>block_num_start = 5, block_num_end = 12\<rparr>"
proof -
  have "decimal 4294967301 = ''4294967301''" "decimal 4294967308 = ''4294967308''"
    by (simp_all add: decimal.simps digit_def char_of_def bit_0)
  then show ?thesis using request_text [of 4294967301 4294967308] by simp
qed


section \<open>A concrete run\<close>

text \<open>An exporter as the options leave it, and a scan with it: an event comes, is written, and is acknowledged.\<close>

definition ws_example_options :: "u32 \<Rightarrow> variables_map" where
  "ws_example_options max_queue = [''mode'' \<mapsto> Text ''scan'', ''exp-ws-host'' \<mapsto> Text ''localhost'',
     ''exp-ws-port'' \<mapsto> Text ''8800'', ''exp-ws-path'' \<mapsto> Text ''/'', ''exp-ws-max-unack'' \<mapsto> Unsigned 10,
     ''exp-ws-max-queue'' \<mapsto> Unsigned max_queue, ''exp-ws-bin-header'' \<mapsto> Switch True]"

definition ws_blank :: ws_exporter where
  "ws_blank = \<lparr>ws_host = [], ws_port = [], ws_path = [], use_bin_headers = False, maxunack = 0, ws_stream = None,
     async_queue = [], async_msg = None, queue_hwm = 0, queue_lwm = 0, subscriptions = [], send_timer = None,
     ws_pause_time_msec = 0, msg_report_counter = 1000, writing = False, reading_acks = False,
     reading_requests = False, closing = False, written = [], posted_requests = []\<rparr>"

definition ws_ready :: "u32 \<Rightarrow> ws_exporter" where
  "ws_ready max_queue = ws_blank\<lparr>ws_host := ''localhost'', ws_port := ''8800'', ws_path := ''/'', maxunack := 10,
     queue_hwm := max_queue, queue_lwm := max_queue * 3 div 4, use_bin_headers := True, subscriptions := bin_subscriptions\<rparr>"

lemma ws_example_initialized:
  "0 < n \<Longrightarrow> ws_options (ws_example_options n) ws_blank = Return () (ws_ready n)"
  by (simp add: ws_options_def ws_example_options_def as_defs given_def op_defs ws_ready_def ws_blank_def ws_init_def)

definition ws_unstarted :: "(undo_list, (u64 \<times> bytes) list) receiver" where
  "ws_unstarted = (flow_run 9 0 0)\<lparr>exporter_will_ack := False\<rparr>"

definition ws_started :: "u32 \<Rightarrow> ws_exporter" where
  "ws_started n = (ws_ready n)\<lparr>ws_stream := Some True, reading_acks := True, ws_pause_time_msec := 5, send_timer := Some 5\<rparr>"

lemma ws_example_start:
  "ws_start (run_env no_decoders default_config) (Inr ()) (Inr ()) (ws_unstarted, ws_ready n)
     = Return () (flow_run 9 0 0, ws_started n)"
  by (simp add: ws_start_def ws_unstarted_def default_config_def ws_ready_def ws_blank_def ws_started_def op_defs
      onFst_def ws_def exporter_will_ack_blocks_def async_send_events_def next_ws_pause_def flow_run_def new_receiver_def)

definition ws_inputs :: "ws_input list" where
  "ws_inputs = [Event Js_forks ''{}'', Timer_done, Ack_read False ''7'']"

definition ws_message :: bytes where
  "ws_message = [233, 3, 0, 0, 0, 0, 0, 0, 123, 125]"

definition ws_final :: "u32 \<Rightarrow> ws_exporter" where
  "ws_final n = (ws_started n)\<lparr>async_msg := Some ws_message, send_timer := None, ws_pause_time_msec := 0,
     msg_report_counter := 999, writing := True, written := [ws_message]\<rparr>"

definition no_envelope :: envelope where
  "no_envelope msgtype event = Inr []"

lemma ws_message_framed: "le_bytes 4 (1001 :: u32) @ le_bytes 4 (0 :: u32) @ bytes_of ''{}'' = ws_message"
proof -
  have four: "(4 :: nat) = Suc (Suc (Suc (Suc 0)))" by simp
  show ?thesis unfolding four by (simp add: ws_message_def bytes_of_def code_def)
qed

lemma ws_example_event:
  "ws_handle E no_envelope (Event Js_forks ''{}'') (s, ws_started n)
     = Return () (s, (ws_started n)\<lparr>async_queue := [ws_message], send_timer := Some 0, msg_report_counter := 999\<rparr>)"
  using ws_message_framed
  by (simp add: deliver_def ws_started_def ws_ready_def ws_blank_def bin_subscriptions_def on_event_bin_def push_msg_def
      op_defs ws_def)

lemma ws_example_timer:
  "10 \<le> n \<Longrightarrow> ws_handle E J Timer_done (s, (ws_started n)\<lparr>async_queue := [ws_message], send_timer := Some 0, msg_report_counter := 999\<rparr>)
     = Return () (regulated 1 (ws_ready n) s, ws_final n)"
  by (simp add: andThen_def ws_def updates_def async_send_events_run ret_def ws_final_def ws_started_def ws_ready_def
      ws_blank_def regulated_def)


lemma ws_example_ack:
  "ws_handle E J (Ack_read False ''7'') (flow_run 9 0 0, ws_final n) = Return () (flow_run 9 7 0, ws_final n)"
proof -
  have "stoul ''7'' = Inr 7"
    by (simp add: stoul_def sign_of_def isspace_def isdigit_def code_def number_def)
  then show ?thesis
    by (simp add: ack_read_def ack_block_def op_defs onFst_def ws_def flow_run_def new_receiver_def word_less_nat_alt
        ws_final_def ws_started_def ws_ready_def ws_blank_def)
qed

abbreviation ws_env :: run_db where
  "ws_env \<equiv> run_env no_decoders default_config"

lemma ws_example_run:
  "ws_run ws_env no_envelope (flow_run 9 0 0, ws_started 10) ws_inputs (flow_run 9 7 0, ws_final 10)"
proof -
  let ?c = "(flow_run 9 0 0, ws_started 10)"
  let ?x = "(ws_started 10)\<lparr>async_queue := [ws_message], send_timer := Some 0, msg_report_counter := 999\<rparr>"
  have "ws_run ws_env no_envelope ?c ([] @ [Event Js_forks ''{}'']) (flow_run 9 0 0, ?x)"
    by (rule ws_input [OF ws_none]) (simp, rule ws_example_event)
  moreover have timer: "ws_handle ws_env no_envelope Timer_done (flow_run 9 0 0, ?x) = Return () (flow_run 9 0 0, ws_final 10)"
    by (subst ws_example_timer) (simp_all add: regulated_def ws_ready_def flow_run_def new_receiver_def)
  ultimately have "ws_run ws_env no_envelope ?c (([] @ [Event Js_forks ''{}'']) @ [Timer_done]) (flow_run 9 0 0, ws_final 10)"
    by (intro ws_input [OF _ _ timer]) simp_all
  then have "ws_run ws_env no_envelope ?c ((([] @ [Event Js_forks ''{}'']) @ [Timer_done]) @ [Ack_read False ''7'']) (flow_run 9 7 0, ws_final 10)"
    by (rule ws_input) (simp add: ws_final_def ws_started_def, rule ws_example_ack)
  then show ?thesis by (simp add: ws_inputs_def)
qed

theorem exporter_refines_clients_witness:
  "(\<exists>cs. called ws_env (flow_run 9 0 0) cs (flow_run 9 7 0) \<and> acks_of cs = [7])
    \<and> (\<exists>e z. ws_handle ws_env no_envelope (Ack_read False ''4294967296'') (flow_run 9 7 0, ws_final 10) = Throw e (flow_run 9 7 0, z))"
proof -
  have "stoul ''7'' = Inr 7" "stoul ''4294967296'' = Inr 4294967296"
    by (simp_all add: stoul_def sign_of_def isspace_def isdigit_def code_def number_def)
  then have "concat (map acknowledged ws_inputs) = [7]"
    "calls ws_env no_envelope (Ack_read False ''4294967296'') (ws_final 10) = None"
    by (simp_all add: ws_inputs_def)
  then show ?thesis
    using exporter_refines_clients [OF ws_example_run, THEN conjunct1]
      exporter_refines_clients [OF ws_example_run, THEN conjunct2, THEN spec, of "Ack_read False ''4294967296''"]
    by (simp only: option.case)
qed

theorem exporter_stream_witness:
  "written (ws_final 10) @ async_queue (ws_final 10) = [ws_message]
   \<and> concat (map (messages no_envelope bin_subscriptions) ws_inputs) = [ws_message]"
proof -
  have "written (ws_started 10) = []" "async_queue (ws_started 10) = []" "subscriptions (ws_started 10) = bin_subscriptions"
    by (simp_all add: ws_started_def ws_ready_def ws_blank_def)
  moreover have "async_queue (ws_final 10) = []" "written (ws_final 10) = [ws_message]"
    by (simp_all add: ws_final_def ws_started_def ws_ready_def ws_blank_def)
  ultimately show ?thesis using exporter_stream [OF ws_example_run] by simp
qed

theorem send_loop_alive_witness:
  "ws_stream (ws_final 10) = Some True \<and> send_timer (ws_final 10) = None \<and> writing (ws_final 10)"
proof -
  have "(ws_stream (ws_final 10) = Some True \<longrightarrow> send_timer (ws_final 10) \<noteq> None \<or> writing (ws_final 10))
    \<and> \<not> (send_timer (ws_final 10) \<noteq> None \<and> writing (ws_final 10))"
    using send_loop_alive [OF ws_example_start _ _ _ ws_example_run] by (simp add: ws_ready_def ws_blank_def)
  then show ?thesis by (simp add: ws_final_def ws_started_def)
qed

theorem slowdown_lifted_witness:
  "\<exists>y. forM (replicate 3 (Write_done False)) (ws_handle ws_env no_envelope)
      ((flow_run 9 0 0)\<lparr>slowdown_requested := True\<rparr>, (ws_final 4)\<lparr>async_queue := [[1], [2], [3]]\<rparr>)
    = Return () ((flow_run 9 0 0)\<lparr>slowdown_requested := False\<rparr>, y) \<and> async_queue y = []"
proof -
  let ?x = "(ws_final 4)\<lparr>async_queue := [[1], [2], [3]]\<rparr>"
  have x: "writing ?x" "async_queue ?x \<noteq> []" "2 \<le> queue_lwm ?x" "queue_lwm ?x \<le> queue_hwm ?x" and len: "length (async_queue ?x) = 3"
    by (simp_all add: ws_final_def ws_started_def ws_ready_def)
  have released: "(s\<lparr>slowdown_requested := True\<rparr>)\<lparr>slowdown_requested := False\<rparr> = s\<lparr>slowdown_requested := False\<rparr>"
    for s :: "(undo_list, (u64 \<times> bytes) list) receiver" by simp
  show ?thesis
    using slowdown_lifted [OF x, of ws_env no_envelope "(flow_run 9 0 0)\<lparr>slowdown_requested := True\<rparr>"]
    unfolding len released by blast
qed

theorem small_queue_never_resumes_witness:
  "\<exists>y. ws_run ws_env no_envelope (regulated 1 (ws_ready 1) (flow_run 9 0 0), ws_final 1) [Write_done False]
        (regulated 1 (ws_ready 1) (flow_run 9 0 0), y)
     \<and> async_queue y = [] \<and> pause_needed ws_env 0 (regulated 1 (ws_ready 1) (flow_run 9 0 0))"
proof -
  let ?s = "regulated 1 (ws_ready 1) (flow_run 9 0 0)"
  have s: "slowdown_requested ?s" by (simp add: regulated_def ws_ready_def)
  have lwm: "queue_lwm (ws_final 1) = queue_lwm (ws_ready 1)" by (simp add: ws_final_def ws_started_def)
  have opt: "ws_example_options 1 ''exp-ws-max-queue'' = Some (Unsigned 1)" by (simp add: ws_example_options_def)
  have init: "ws_options (ws_example_options 1) ws_blank = Return () (ws_ready 1)" by (rule ws_example_initialized) simp
  let ?y = "(ws_final 1)\<lparr>writing := False, ws_pause_time_msec := 5, send_timer := Some 5\<rparr>"
  have "ws_handle ws_env no_envelope (Write_done False) (?s, ws_final 1) = Return () (?s, ?y)"
    by (simp add: write_completed_def andThen_def ws_def updates_def async_send_events_run ret_def ws_final_def
        ws_started_def ws_ready_def ws_blank_def next_ws_pause_def)
  then have run: "ws_run ws_env no_envelope (?s, ws_final 1) ([] @ [Write_done False]) (?s, ?y)"
    by (intro ws_input [OF ws_none]) (simp_all add: ws_final_def)
  have "pause_needed ws_env 0 ?s"
    using small_queue_never_resumes [OF init opt _ lwm s run] by simp
  moreover have "async_queue ?y = []" by (simp add: ws_final_def ws_started_def ws_ready_def ws_blank_def)
  ultimately show ?thesis using run by auto
qed

theorem ack_text_witness:
  "ack_read False ''7'' (flow_run 9 0 0, ws_blank) = Return () (flow_run 9 7 0, ws_blank\<lparr>reading_acks := True\<rparr>)"
proof -
  have "decimal 7 = ''7''" by (simp add: decimal.simps digit_def char_of_def bit_0)
  moreover have "ack_block 7 (flow_run 9 0 0) = Return () (flow_run 9 7 0)"
    by (simp add: ack_block_def op_defs flow_run_def new_receiver_def)
  ultimately show ?thesis
    using ack_text [of "flow_run 9 0 0" 7 "[]" ws_blank] by (simp add: flow_run_def)
qed

end
