(* ===== verification/Sql.thy ===== *)
theory Sql
  imports StdText
begin

text \<open>
  What the PostgreSQL exporter builds on, \<open>exp_relic_plugin.hpp\<close>: JSON values as the rapidjson
  library shows them, the text of SQL calls, and the C interface of libpq. The libraries are
  parameters; \<open>atoi\<close> and C strings are the C library's.
\<close>

section \<open>C strings and numbers\<close>

definition c_str :: "string \<Rightarrow> string" where
  "c_str t = takeWhile (\<lambda>c. code c \<noteq> 0) t"

text \<open>\<open>atoi\<close>: the number at the start, or 0; \<open>None\<close> when it does not fit an \<open>int\<close>, which is undefined.\<close>

definition atoi :: "string \<Rightarrow> int option" where
  "atoi s = (let (negative, u) = sign_of (dropWhile isspace s);
                 n = int (number (takeWhile isdigit u));
                 v = (if negative then - n else n)
     in if - (2 ^ 31) \<le> v \<and> v < 2 ^ 31 then Some v else None)"

text \<open>\<open>string::find\<close>, whether and where a text occurs.\<close>

fun find_text :: "string \<Rightarrow> string \<Rightarrow> nat option" where
  "find_text p [] = (if p = [] then Some 0 else None)"
| "find_text p (c # s) = (if take (length p) (c # s) = p then Some 0 else map_option Suc (find_text p s))"

section \<open>JSON values\<close>

text \<open>A number is the text that the writer gives it.\<close>

datatype json_value =
    Null
  | Boolean bool
  | Number string
  | String string
  | Array "json_value list"
  | Object "(string \<times> json_value) list"

text \<open>
  \<open>parse\<close> gives \<open>HasParseError\<close> and the document, \<open>accept\<close> the text of the writer.
  \<open>absent\<close> is what \<open>operator[]\<close> gives for a member that the value does not have, \<open>lacks\<close> what
  \<open>HasMember\<close> gives for a value that is not an object: assertions of the library, whose effect
  depends on how it was compiled (\<open>None\<close> is undefined).
\<close>

record rapidjson =
  parse :: "string \<Rightarrow> bool \<times> json_value"
  accept :: "json_value \<Rightarrow> string"
  absent :: "json_value \<Rightarrow> string \<Rightarrow> json_value option"
  lacks :: "json_value \<Rightarrow> bool option"

fun is_object :: "json_value \<Rightarrow> bool" where
  "is_object (Object ms) = True"
| "is_object _ = False"

fun is_string :: "json_value \<Rightarrow> bool" where
  "is_string (String t) = True"
| "is_string _ = False"

text \<open>\<open>v[k]\<close>, \<open>v.HasMember(k)\<close>, \<open>v.GetArray()\<close> and \<open>v.GetString()\<close>.\<close>

definition subscript :: "rapidjson \<Rightarrow> json_value \<Rightarrow> string \<Rightarrow> json_value option" where
  "subscript J v k = (case v of
      Object ms \<Rightarrow> (case map_of ms k of Some w \<Rightarrow> Some w | None \<Rightarrow> absent J v k)
    | _ \<Rightarrow> absent J v k)"

definition has_member :: "rapidjson \<Rightarrow> json_value \<Rightarrow> string \<Rightarrow> bool option" where
  "has_member J v k = (case v of Object ms \<Rightarrow> Some (map_of ms k \<noteq> None) | _ \<Rightarrow> lacks J v)"

fun get_array :: "json_value \<Rightarrow> json_value list option" where
  "get_array (Array vs) = Some vs"
| "get_array _ = None"

fun get_string :: "json_value \<Rightarrow> string option" where
  "get_string (String t) = Some (c_str t)"
| "get_string _ = None"

fun members_of :: "rapidjson \<Rightarrow> json_value \<Rightarrow> string list \<Rightarrow> json_value option" where
  "members_of J v [] = Some v"
| "members_of J v (k # ks) = (case subscript J v k of None \<Rightarrow> None | Some w \<Rightarrow> members_of J w ks)"

definition UNKNOWN_TIMESTAMP :: string where "UNKNOWN_TIMESTAMP = ''''"
definition UNKNOWN_STRING :: string where "UNKNOWN_STRING = ''''"
definition UNKNOWN_NUMBER_NULL :: string where "UNKNOWN_NUMBER_NULL = ''NULL''"
definition UNKNOWN_NUMBER_0 :: string where "UNKNOWN_NUMBER_0 = ''0''"
definition ALLOW_EMPTY_VALUES :: bool where "ALLOW_EMPTY_VALUES = True"
definition DISALLOW_EMPTY_VALUES :: bool where "DISALLOW_EMPTY_VALUES = False"

lemmas unknown_defs = UNKNOWN_TIMESTAMP_def UNKNOWN_STRING_def UNKNOWN_NUMBER_NULL_def UNKNOWN_NUMBER_0_def
  ALLOW_EMPTY_VALUES_def DISALLOW_EMPTY_VALUES_def

fun getjsonstring :: "rapidjson \<Rightarrow> string \<Rightarrow> json_value \<Rightarrow> bool \<Rightarrow> string" where
  "getjsonstring J defaultv (String t) allowempty =
     (let tv = c_str t in if allowempty then tv else if tv \<noteq> [] then tv else defaultv)"
| "getjsonstring J defaultv (Object ms) allowempty = c_str (accept J (Object ms))"
| "getjsonstring J defaultv (Number n) allowempty = c_str (accept J (Number n))"
| "getjsonstring J defaultv v allowempty = defaultv"

section \<open>SQL\<close>

text \<open>
  The result of a query: its status, and its fields (a null field is an empty text).
  \<open>PQgetvalue\<close> gives a null pointer for a place that does not exist.
\<close>

record pg_result =
  tuples_ok :: bool
  tuples :: "string list list"

definition getvalue :: "pg_result \<Rightarrow> nat \<Rightarrow> nat \<Rightarrow> string option" where
  "getvalue res i j = (if i < length (tuples res) \<and> j < length (tuples res ! i) then Some (tuples res ! i ! j) else None)"

text \<open>A connection object: \<open>PQconnectdb\<close>, whether \<open>PQstatus\<close> is \<open>CONNECTION_OK\<close>, \<open>PQexec\<close>, \<open>PQescapeLiteral\<close>.\<close>

record 'pg libpq =
  connectdb :: "string \<Rightarrow> 'pg"
  connection_ok :: "'pg \<Rightarrow> bool"
  pq_exec :: "'pg \<Rightarrow> string \<Rightarrow> 'pg \<times> pg_result"
  escape_literal :: "'pg \<Rightarrow> string \<Rightarrow> string option"

text \<open>An \<open>E\<close> is put before a literal that starts with its quote.\<close>

definition escapesqlstring :: "'pg libpq \<Rightarrow> 'pg \<Rightarrow> string \<Rightarrow> string" where
  "escapesqlstring P conn input = (case escape_literal P conn input of
      None \<Rightarrow> []
    | Some escaped \<Rightarrow> (case escaped of
        c # r \<Rightarrow> if c = CHR 0x27 then '' E'' @ escaped else escaped
      | [] \<Rightarrow> escaped))"

definition quoted :: "string \<Rightarrow> string" where
  "quoted v = CHR 0x27 # v @ [CHR 0x27]"

fun commas :: "string list \<Rightarrow> string" where
  "commas [] = []"
| "commas [a] = a"
| "commas (a # b # as) = a @ '','' @ commas (b # as)"

definition sql_call :: "string \<Rightarrow> string list \<Rightarrow> string" where
  "sql_call function args = ''SELECT '' @ function @ ''('' @ commas args @ '');''"

end
