(* ===== verification/Decoder.thy ===== *)
theory Decoder
  imports WsExporter Sql
begin

text \<open>
  The decoder, \<open>decoder_plugin.cpp\<close>: it turns the receiver's events into JSON texts, decoding
  action data and table rows by the contract ABIs, and reports what it could not decode. The
  printing functions of the eosio and fc libraries, the abieos decoder, the reflection of the
  state history types and the text that the rapidjson writer makes of its calls are parameters.
\<close>

section \<open>Values\<close>

text \<open>
  A value as the overloads of \<open>native_to_json\<close> see it: which overload takes it, and what that
  overload reads. A \<open>struct\<close> is the list of its reflected fields.
\<close>

datatype scalar =
    Of_string string
  | Of_optional_string "string option"
  | Of_number int
  | Of_bool bool
  | Of_fork_reason fork_reason_val
  | Of_checksum checksum256
  | Of_status nat
  | Of_name u64
  | Of_input_stream bytes
  | Of_varuint32 u32
  | Of_block_timestamp u32
  | Of_time_point int
  | Of_public_key bytes
  | Of_signature bytes

datatype native =
    Scalar scalar
  | Native_vector "native list"
  | Native_might_not_exist native
  | Native_action "(string \<times> native) list" u64 u64 bytes
  | Native_contract_row "(string \<times> native) list" u64 u64 bytes
  | Native_optional "native option"
  | Native_pair native native
  | Native_struct "(string \<times> native) list"
  | Native_only_v0 nat native
  | Native_action_trace nat native
  | Native_recurse native
  | Native_variant native

text \<open>The calls of the JSON writer; \<open>Json_raw\<close> is \<open>RawValue\<close>.\<close>

datatype json =
    Json_string string
  | Json_raw string
  | Json_null
  | Json_array "json list"
  | Json_object "(string \<times> json) list"

record 'ctx decoder_lib =
  type_for_action :: "'ctx option \<Rightarrow> u64 \<Rightarrow> u64 \<Rightarrow> string option"
  type_for_table :: "'ctx option \<Rightarrow> u64 \<Rightarrow> u64 \<Rightarrow> string option"
  abieos_name_to_string :: "'ctx option \<Rightarrow> u64 \<Rightarrow> string"
  abieos_bin_to_json :: "'ctx option \<Rightarrow> u64 \<Rightarrow> string \<Rightarrow> bytes \<Rightarrow> 'ctx option \<times> string option"
  name_to_string :: "u64 \<Rightarrow> string"
  to_hex :: "bytes \<Rightarrow> string"
  byte_array :: "checksum256 \<Rightarrow> bytes"
  value_bytes :: "checksum256 \<Rightarrow> bytes"
  status_to_string :: "nat \<Rightarrow> string"
  elapsed :: "u32 \<Rightarrow> int"
  microseconds_to_str :: "int \<Rightarrow> string"
  public_key_to_string :: "bytes \<Rightarrow> string"
  signature_to_string :: "bytes \<Rightarrow> string"
  write_json :: "json \<Rightarrow> string"
  reflect_block :: "signed_block \<Rightarrow> native"
  reflect_trace :: "ship_trace \<Rightarrow> native"
  reflect_abi :: "bytes \<Rightarrow> native"
  reflect_row :: "contract_row \<Rightarrow> (string \<times> native) list"
  reflect_permission :: "bytes \<Rightarrow> native"
  reflect_permission_link :: "bytes \<Rightarrow> native"
  reflect_account_metadata :: "bytes \<Rightarrow> native"

text \<open>The encoder works on the receiver, whose ABI cache it uses, and the errors it collects.\<close>

type_synonym ('db, 'ctx, 'a) enc_op = "(('db, 'ctx) receiver \<times> string list option, 'a) op"

section \<open>The encoder\<close>

definition add_error :: "string \<Rightarrow> ('db, 'ctx, unit) enc_op" where
  "add_error e = updates (\<lambda>(s, encoder_errors). (s, map_option (\<lambda>es. es @ [e]) encoder_errors))"

text \<open>\<open>abieos_bin_to_json\<close>; a null result is thrown with the context's error.\<close>

definition bin_to_json ::
    "('db, 'ctx) env \<Rightarrow> 'ctx decoder_lib \<Rightarrow> 'ctx option \<Rightarrow> u64 \<Rightarrow> string \<Rightarrow> bytes \<Rightarrow> ('db, 'ctx, string) enc_op" where
  "bin_to_json E D ctxt contract type data =
     (let (ctxt', js) = abieos_bin_to_json D ctxt contract type data in
      andThen (updates (\<lambda>(s, es). (s\<lparr>contract_abi_ctxt := ctxt'\<rparr>, es))) (\<lambda>_.
        case js of None \<Rightarrow> throw (Runtime_error (abieos_get_error (abilib E) ctxt')) | Some js \<Rightarrow> ret js))"

definition action_data ::
    "('db, 'ctx) env \<Rightarrow> 'ctx decoder_lib \<Rightarrow> u64 \<Rightarrow> u64 \<Rightarrow> bytes \<Rightarrow> ('db, 'ctx, json) enc_op" where
  "action_data E D account name data =
     andThen (onFst (get_contract_abi_ctxt E account)) (\<lambda>ctxt.
     catching
       (let action_type = (case type_for_action D ctxt account name of
            Some type \<Rightarrow> type | None \<Rightarrow> abieos_name_to_string D ctxt name)
        in andThen (bin_to_json E D ctxt account action_type data) (\<lambda>datajs. ret (Json_raw datajs)))
       (\<lambda>e. andThen (add_error (''Cannot decode action data for '' @ abieos_name_to_string D ctxt account @ '': ''
            @ abieos_name_to_string D ctxt name @ '' - '' @ what e)) (\<lambda>_.
          ret (Json_string (to_hex D data)))))"

definition row_value ::
    "('db, 'ctx) env \<Rightarrow> 'ctx decoder_lib \<Rightarrow> u64 \<Rightarrow> u64 \<Rightarrow> bytes \<Rightarrow> ('db, 'ctx, json) enc_op" where
  "row_value E D contract table data =
     andThen (onFst (get_contract_abi_ctxt E contract)) (\<lambda>ctxt.
     catching
       (let table_type = (case type_for_table D ctxt contract table of
            Some type \<Rightarrow> type | None \<Rightarrow> abieos_name_to_string D ctxt table)
        in andThen (bin_to_json E D ctxt contract table_type data) (\<lambda>valjs. ret (Json_raw valjs)))
       (\<lambda>e. andThen (add_error (''Cannot decode table row for '' @ abieos_name_to_string D ctxt contract @ '': ''
            @ abieos_name_to_string D ctxt table @ '' - '' @ what e)) (\<lambda>_.
          ret (Json_string (to_hex D data)))))"

text \<open>The overloads that write one text.\<close>

fun scalar_to_json :: "'ctx decoder_lib \<Rightarrow> scalar \<Rightarrow> string" where
  "scalar_to_json D (Of_string str) = str"
| "scalar_to_json D (Of_optional_string str) = (case str of Some str \<Rightarrow> str | None \<Rightarrow> [])"
| "scalar_to_json D (Of_number v) = decimal_int v"
| "scalar_to_json D (Of_bool b) = (if b then ''true'' else ''false'')"
| "scalar_to_json D (Of_fork_reason r) = to_string r"
| "scalar_to_json D (Of_checksum c) = to_hex D (byte_array D c)"
| "scalar_to_json D (Of_status st) = status_to_string D st"
| "scalar_to_json D (Of_name n) = name_to_string D n"
| "scalar_to_json D (Of_input_stream b) = to_hex D b"
| "scalar_to_json D (Of_varuint32 v) = decimal_int (uint v)"
| "scalar_to_json D (Of_block_timestamp t) = microseconds_to_str D (elapsed D t)"
| "scalar_to_json D (Of_time_point t) = microseconds_to_str D t"
| "scalar_to_json D (Of_public_key k) = public_key_to_string D k"
| "scalar_to_json D (Of_signature k) = signature_to_string D k"

text \<open>
  The overloads. The name of a field is compared with \<open>data\<close> in an action and with \<open>value\<close> in
  a contract row; \<open>Native_only_v0\<close> is a variant that is read with \<open>std::get\<close> of its first type.
\<close>

fun native_to_json :: "('db, 'ctx) env \<Rightarrow> 'ctx decoder_lib \<Rightarrow> native \<Rightarrow> ('db, 'ctx, json) enc_op"
  and elements_to_json :: "('db, 'ctx) env \<Rightarrow> 'ctx decoder_lib \<Rightarrow> native list \<Rightarrow> ('db, 'ctx, json list) enc_op"
  and fields_to_json :: "('db, 'ctx) env \<Rightarrow> 'ctx decoder_lib \<Rightarrow> (string \<times> native) list \<Rightarrow> ('db, 'ctx, (string \<times> json) list) enc_op"
  and action_to_json :: "('db, 'ctx) env \<Rightarrow> 'ctx decoder_lib \<Rightarrow> u64 \<Rightarrow> u64 \<Rightarrow> bytes \<Rightarrow> (string \<times> native) list \<Rightarrow>
        ('db, 'ctx, (string \<times> json) list) enc_op"
  and row_to_json :: "('db, 'ctx) env \<Rightarrow> 'ctx decoder_lib \<Rightarrow> u64 \<Rightarrow> u64 \<Rightarrow> bytes \<Rightarrow> (string \<times> native) list \<Rightarrow>
        ('db, 'ctx, (string \<times> json) list) enc_op"
where
  "native_to_json E D (Scalar v) = ret (Json_string (scalar_to_json D v))"
| "native_to_json E D (Native_vector vs) = andThen (elements_to_json E D vs) (\<lambda>js. ret (Json_array js))"
| "native_to_json E D (Native_might_not_exist v) = native_to_json E D v"
| "native_to_json E D (Native_action ms account name data) =
     andThen (action_to_json E D account name data ms) (\<lambda>js. ret (Json_object js))"
| "native_to_json E D (Native_contract_row ms contract table data) =
     andThen (row_to_json E D contract table data ms) (\<lambda>js. ret (Json_object js))"
| "native_to_json E D (Native_optional v) = (case v of None \<Rightarrow> ret Json_null | Some v \<Rightarrow> native_to_json E D v)"
| "native_to_json E D (Native_pair v w) =
     andThen (native_to_json E D v) (\<lambda>j. andThen (native_to_json E D w) (\<lambda>k. ret (Json_array [j, k])))"
| "native_to_json E D (Native_struct ms) = andThen (fields_to_json E D ms) (\<lambda>js. ret (Json_object js))"
| "native_to_json E D (Native_only_v0 index v) =
     (if index = 0 then native_to_json E D v else throw (Logic_error ''std::get: wrong index for variant''))"
| "native_to_json E D (Native_action_trace index v) =
     (if index = 0 then native_to_json E D v
      else if index = 1 then native_to_json E D v
      else throw (Runtime_error (''Invalid variant option in action_trace: '' @ decimal index)))"
| "native_to_json E D (Native_recurse v) = native_to_json E D v"
| "native_to_json E D (Native_variant v) = native_to_json E D v"
| "elements_to_json E D [] = ret []"
| "elements_to_json E D (v # vs) =
     andThen (native_to_json E D v) (\<lambda>j. andThen (elements_to_json E D vs) (\<lambda>js. ret (j # js)))"
| "fields_to_json E D [] = ret []"
| "fields_to_json E D ((key, member) # ms) =
     andThen (native_to_json E D member) (\<lambda>j. andThen (fields_to_json E D ms) (\<lambda>js. ret ((key, j) # js)))"
| "action_to_json E D account name data [] = ret []"
| "action_to_json E D account name data ((key, member) # ms) =
     andThen (if key = ''data'' then action_data E D account name data else native_to_json E D member) (\<lambda>j.
     andThen (action_to_json E D account name data ms) (\<lambda>js. ret ((key, j) # js)))"
| "row_to_json E D contract table data [] = ret []"
| "row_to_json E D contract table data ((key, member) # ms) =
     andThen (if key = ''value'' then row_value E D contract table data else native_to_json E D member) (\<lambda>j.
     andThen (row_to_json E D contract table data ms) (\<lambda>js. ret ((key, j) # js)))"

section \<open>Reflection of the events\<close>

text \<open>The names of \<open>EOSIO_REFLECT\<close> in \<open>receiver_plugin.hpp\<close>; a missing field is not exported.\<close>

definition stamp :: "u32 \<Rightarrow> u32 \<Rightarrow> (string \<times> native) list" where
  "stamp n t = [(''block_num'', Scalar (Of_number (uint n))), (''block_timestamp'', Scalar (Of_block_timestamp t))]"

definition reflect_fork :: "fork_event \<Rightarrow> native" where
  "reflect_fork e = Native_struct [
     (''block_num'', Scalar (Of_number (uint (fe_block_num e)))),
     (''depth'', Scalar (Of_number (uint (fe_depth e)))),
     (''fork_reason'', Scalar (Of_fork_reason (fe_fork_reason e))),
     (''last_irreversible'', Scalar (Of_number (uint (fe_last_irreversible e))))]"

definition reflect_begins :: "block_begins \<Rightarrow> native" where
  "reflect_begins e = Native_struct (stamp (bb_block_num e) (bb_block_timestamp e))"

definition reflect_block_event :: "'ctx decoder_lib \<Rightarrow> block \<Rightarrow> native" where
  "reflect_block_event D e = Native_struct [
     (''block_num'', Scalar (Of_number (uint (bl_block_num e)))),
     (''block_id'', Scalar (Of_checksum (bl_block_id e))),
     (''last_irreversible'', Scalar (Of_number (uint (bl_last_irreversible e)))),
     (''block'', reflect_block D (bl_block e))]"

definition reflect_transaction_trace :: "'ctx decoder_lib \<Rightarrow> transaction_trace \<Rightarrow> native" where
  "reflect_transaction_trace D e = Native_struct
     (stamp (tr_block_num e) (tr_block_timestamp e) @ [(''trace'', reflect_trace D (tr_trace e))])"

definition reflect_abi_update :: "'ctx decoder_lib \<Rightarrow> abi_update \<Rightarrow> native" where
  "reflect_abi_update D e = Native_struct (stamp (au_block_num e) (au_block_timestamp e)
     @ [(''account'', Scalar (Of_name (au_account e))), (''abi'', reflect_abi D (au_abi e))])"

definition reflect_abi_removal :: "abi_removal \<Rightarrow> native" where
  "reflect_abi_removal e = Native_struct (stamp (ar_block_num e) (ar_block_timestamp e)
     @ [(''account'', Scalar (Of_name (ar_account e)))])"

definition reflect_abi_error :: "abi_error \<Rightarrow> native" where
  "reflect_abi_error e = Native_struct (stamp (ae_block_num e) (ae_block_timestamp e)
     @ [(''account'', Scalar (Of_name (ae_account e))), (''error'', Scalar (Of_string (ae_error e)))])"

definition reflect_table_row_update :: "'ctx decoder_lib \<Rightarrow> table_row_update \<Rightarrow> native" where
  "reflect_table_row_update D e = Native_struct (stamp (tru_block_num e) (tru_block_timestamp e)
     @ [(''added'', Scalar (Of_bool (tru_added e))),
        (''kvo'', Native_contract_row (reflect_row D (tru_kvo e)) (kvo_code (tru_kvo e))
           (kvo_table (tru_kvo e)) (kvo_value (tru_kvo e)))])"

definition reflect_permission_update :: "'ctx decoder_lib \<Rightarrow> permission_update \<Rightarrow> native" where
  "reflect_permission_update D e = Native_struct (stamp (pu_block_num e) (pu_block_timestamp e)
     @ [(''added'', Scalar (Of_bool (pu_added e))), (''permission'', reflect_permission D (pu_permission e))])"

definition reflect_permission_link_update :: "'ctx decoder_lib \<Rightarrow> permission_link_update \<Rightarrow> native" where
  "reflect_permission_link_update D e = Native_struct (stamp (plu_block_num e) (plu_block_timestamp e)
     @ [(''added'', Scalar (Of_bool (plu_added e))),
        (''permission_link'', reflect_permission_link D (plu_permission_link e))])"

definition reflect_account_metadata_update :: "'ctx decoder_lib \<Rightarrow> account_metadata_update \<Rightarrow> native" where
  "reflect_account_metadata_update D e = Native_struct (stamp (amu_block_num e) (amu_block_timestamp e)
     @ [(''account_metadata'', reflect_account_metadata D (amu_account_metadata e))])"

definition reflect_pause :: "receiver_pause \<Rightarrow> native" where
  "reflect_pause e = Native_struct [
     (''head'', Scalar (Of_number (uint (rp_head e)))),
     (''acknowledged'', Scalar (Of_number (uint (rp_acknowledged e))))]"

definition reflect_finished :: "block_finished \<Rightarrow> native" where
  "reflect_finished e = Native_struct [
     (''block_num'', Scalar (Of_number (uint (bf_block_num e)))),
     (''block_id'', Scalar (Of_checksum (bf_block_id e))),
     (''block_timestamp'', Scalar (Of_block_timestamp (bf_block_timestamp e))),
     (''producer'', Scalar (Of_name (bf_producer e))),
     (''previous'', Scalar (Of_checksum (bf_previous e))),
     (''transaction_mroot'', Scalar (Of_checksum (bf_transaction_mroot e))),
     (''action_mroot'', Scalar (Of_checksum (bf_action_mroot e))),
     (''trx_count'', Scalar (Of_number (uint (bf_trx_count e)))),
     (''last_irreversible'', Scalar (Of_number (uint (bf_last_irreversible e))))]"

section \<open>The handlers\<close>

text \<open>The messages published on the JSON channels, in order.\<close>

type_synonym ('db, 'ctx, 'a) dec_op = "(('db, 'ctx) receiver \<times> (js_channel \<times> string) list, 'a) op"

definition publish_js :: "js_channel \<Rightarrow> string \<Rightarrow> ('db, 'ctx, unit) dec_op" where
  "publish_js ch msg = updates (\<lambda>(s, outs). (s, outs @ [(ch, msg)]))"

text \<open>The text goes through the C string that \<open>GetString\<close> gives.\<close>

definition impl_native_to_json ::
    "('db, 'ctx) env \<Rightarrow> 'ctx decoder_lib \<Rightarrow> native \<Rightarrow> string list option \<Rightarrow> ('db, 'ctx, string \<times> string list option) dec_op" where
  "impl_native_to_json E D v encoder_errors = (\<lambda>(s, outs). case native_to_json E D v (s, encoder_errors) of
      Return j (t, errs) \<Rightarrow> Return (c_str (write_json D j), errs) (t, outs)
    | Throw e (t, errs) \<Rightarrow> Throw e (t, outs)
    | Diverge \<Rightarrow> Diverge
    | Undefined \<Rightarrow> Undefined)"

definition forward :: "('db, 'ctx) env \<Rightarrow> 'ctx decoder_lib \<Rightarrow> js_channel \<Rightarrow> native \<Rightarrow> ('db, 'ctx, unit) dec_op" where
  "forward E D ch v = andThen (impl_native_to_json E D v None) (\<lambda>(msg, _). publish_js ch msg)"

text \<open>A \<open>map<string, string>\<close> is iterated in the order of its keys; keys and values go through C strings.\<close>

definition report_encoder_errors :: "'ctx decoder_lib \<Rightarrow> string list \<Rightarrow> (string \<times> string) list \<Rightarrow> ('db, 'ctx, unit) dec_op" where
  "report_encoder_errors D encoder_errors attrs =
     publish_js Js_abi_decoder_errors (c_str (write_json D (Json_object
       (map (\<lambda>(k, v). (c_str k, Json_string (c_str v))) attrs
        @ [(''errors'', Json_array (map (\<lambda>err. Json_string (c_str err)) encoder_errors))]))))"

definition trace_attrs :: "'ctx decoder_lib \<Rightarrow> transaction_trace \<Rightarrow> (string \<times> string) list" where
  "trace_attrs D e = [
     (''block_num'', decimal_int (uint (tr_block_num e))),
     (''block_timestamp'', microseconds_to_str D (elapsed D (tr_block_timestamp e))),
     (''trx_id'', to_hex D (value_bytes D (tt_id (tr_trace e)))),
     (''where'', ''transaction_trace'')]"

text \<open>The number \<open>primary_key\<close> is assigned to a string: that is the assignment of one \<open>char\<close>.\<close>

definition assigned_char :: "u64 \<Rightarrow> string" where
  "assigned_char n = [char_of (unat (ucast n :: u8))]"

definition row_attrs :: "'ctx decoder_lib \<Rightarrow> table_row_update \<Rightarrow> (string \<times> string) list" where
  "row_attrs D e = [
     (''added'', if tru_added e then ''true'' else ''false''),
     (''block_num'', decimal_int (uint (tru_block_num e))),
     (''block_timestamp'', microseconds_to_str D (elapsed D (tru_block_timestamp e))),
     (''code'', name_to_string D (kvo_code (tru_kvo e))),
     (''primary_key'', assigned_char (kvo_primary_key (tru_kvo e))),
     (''scope'', name_to_string D (kvo_scope (tru_kvo e))),
     (''table'', name_to_string D (kvo_table (tru_kvo e))),
     (''where'', ''table_row_update'')]"

definition forward_reporting ::
    "('db, 'ctx) env \<Rightarrow> 'ctx decoder_lib \<Rightarrow> js_channel \<Rightarrow> native \<Rightarrow> (string \<times> string) list \<Rightarrow> ('db, 'ctx, unit) dec_op" where
  "forward_reporting E D ch v attrs = andThen (impl_native_to_json E D v (Some [])) (\<lambda>(msg, errs).
     andThen (publish_js ch msg) (\<lambda>_.
       (case errs of Some (err # more_errs) \<Rightarrow> report_encoder_errors D (err # more_errs) attrs | _ \<Rightarrow> ret ())))"

definition on_transaction_trace :: "('db, 'ctx) env \<Rightarrow> 'ctx decoder_lib \<Rightarrow> transaction_trace \<Rightarrow> ('db, 'ctx, unit) dec_op" where
  "on_transaction_trace E D e =
     forward_reporting E D Js_transaction_traces (reflect_transaction_trace D e) (trace_attrs D e)"

definition on_table_row_update :: "('db, 'ctx) env \<Rightarrow> 'ctx decoder_lib \<Rightarrow> table_row_update \<Rightarrow> ('db, 'ctx, unit) dec_op" where
  "on_table_row_update E D e =
     forward_reporting E D Js_table_row_updates (reflect_table_row_update D e) (row_attrs D e)"

text \<open>What each subscription of \<open>start\<close> calls; the decoder has none for table deltas.\<close>

fun on_event :: "('db, 'ctx) env \<Rightarrow> 'ctx decoder_lib \<Rightarrow> event \<Rightarrow> ('db, 'ctx, unit) dec_op" where
  "on_event E D (Fork e) = forward E D Js_forks (reflect_fork e)"
| "on_event E D (Block_started e) = forward E D Js_block_started (reflect_begins e)"
| "on_event E D (Block e) = forward E D Js_blocks (reflect_block_event D e)"
| "on_event E D (Block_table_delta e) = ret ()"
| "on_event E D (Transaction_trace e) = on_transaction_trace E D e"
| "on_event E D (Abi_update e) = forward E D Js_abi_updates (reflect_abi_update D e)"
| "on_event E D (Abi_removal e) = forward E D Js_abi_removals (reflect_abi_removal e)"
| "on_event E D (Abi_error e) = forward E D Js_abi_errors (reflect_abi_error e)"
| "on_event E D (Table_row_update e) = on_table_row_update E D e"
| "on_event E D (Permission_update e) = forward E D Js_permission_updates (reflect_permission_update D e)"
| "on_event E D (Permission_link_update e) = forward E D Js_permission_link_updates (reflect_permission_link_update D e)"
| "on_event E D (Account_metadata_update e) = forward E D Js_account_metadata_updates (reflect_account_metadata_update D e)"
| "on_event E D (Receiver_pause e) = forward E D Js_receiver_pauses (reflect_pause e)"
| "on_event E D (Block_completed e) = forward E D Js_block_completed (reflect_finished e)"

fun js_channel_of :: "event \<Rightarrow> js_channel option" where
  "js_channel_of (Fork e) = Some Js_forks"
| "js_channel_of (Block_started e) = Some Js_block_started"
| "js_channel_of (Block e) = Some Js_blocks"
| "js_channel_of (Block_table_delta e) = None"
| "js_channel_of (Transaction_trace e) = Some Js_transaction_traces"
| "js_channel_of (Abi_update e) = Some Js_abi_updates"
| "js_channel_of (Abi_removal e) = Some Js_abi_removals"
| "js_channel_of (Abi_error e) = Some Js_abi_errors"
| "js_channel_of (Table_row_update e) = Some Js_table_row_updates"
| "js_channel_of (Permission_update e) = Some Js_permission_updates"
| "js_channel_of (Permission_link_update e) = Some Js_permission_link_updates"
| "js_channel_of (Account_metadata_update e) = Some Js_account_metadata_updates"
| "js_channel_of (Receiver_pause e) = Some Js_receiver_pauses"
| "js_channel_of (Block_completed e) = Some Js_block_completed"

text \<open>The decoder subscribes to a channel of the receiver when someone listens to its JSON channel.\<close>

definition decoder_subscribed :: "js_channel set \<Rightarrow> event \<Rightarrow> bool" where
  "decoder_subscribed listeners e = (case js_channel_of e of None \<Rightarrow> False | Some ch \<Rightarrow> ch \<in> listeners)"

definition decode_event :: "('db, 'ctx) env \<Rightarrow> 'ctx decoder_lib \<Rightarrow> js_channel set \<Rightarrow> event \<Rightarrow> ('db, 'ctx, unit) dec_op" where
  "decode_event E D listeners e =
     whenM (\<not> noexport_mode (cfg E) \<and> decoder_subscribed listeners e) (on_event E D e)"

section \<open>Nothing undecodable is silent\<close>

text \<open>
  \<open>places\<close> counts what the encoder has to decode with a contract's ABI: the data of the actions
  and the values of the rows. \<open>raws\<close> counts what it did decode: only the ABI decoder's output is
  written as raw JSON.
\<close>

fun places :: "native \<Rightarrow> nat" where
  "places (Native_vector vs) = sum_list (map places vs)"
| "places (Native_might_not_exist v) = places v"
| "places (Native_action ms account name data) =
     sum_list (map (\<lambda>(key, member). if key = ''data'' then 1 else places member) ms)"
| "places (Native_contract_row ms contract table data) =
     sum_list (map (\<lambda>(key, member). if key = ''value'' then 1 else places member) ms)"
| "places (Native_optional v) = (case v of None \<Rightarrow> 0 | Some w \<Rightarrow> places w)"
| "places (Native_pair v w) = places v + places w"
| "places (Native_struct ms) = sum_list (map (\<lambda>(key, member). places member) ms)"
| "places (Native_only_v0 index v) = places v"
| "places (Native_action_trace index v) = places v"
| "places (Native_recurse v) = places v"
| "places (Native_variant v) = places v"
| "places _ = 0"

fun raws :: "json \<Rightarrow> nat" where
  "raws (Json_string t) = 0"
| "raws (Json_raw t) = 1"
| "raws Json_null = 0"
| "raws (Json_array js) = sum_list (map raws js)"
| "raws (Json_object ms) = sum_list (map (\<lambda>(key, j). raws j) ms)"

definition accounts :: "nat \<Rightarrow> nat \<Rightarrow> string list option \<Rightarrow> string list option \<Rightarrow> bool" where
  "accounts decoded expected before after \<longleftrightarrow>
     (\<exists>new. after = map_option (\<lambda>es. es @ new) before \<and> decoded + length new = expected)"

lemma accounts_none [simp]: "accounts 0 0 es es"
  by (cases es) (auto simp: accounts_def)

lemma accounts_seq:
  assumes "accounts a b es fs" and "accounts c d fs gs"
  shows "accounts (a + c) (b + d) es gs"
proof -
  obtain x y where "fs = map_option (\<lambda>es. es @ x) es" "a + length x = b"
    "gs = map_option (\<lambda>es. es @ y) fs" "c + length y = d"
    using assms by (auto simp: accounts_def)
  then show ?thesis by (cases es) (auto simp: accounts_def intro!: exI [of _ "x @ y"])
qed

lemmas accounts_Suc = accounts_seq [where b = 1, simplified]

lemma add_error_run: "add_error e (s, es) = Return () (s, map_option (\<lambda>xs. xs @ [e]) es)"
  by (simp add: add_error_def updates_def)

lemma onFst_Return: "onFst m c = Return a d \<Longrightarrow> snd d = snd c"
  by (auto simp: onFst_def split: prod.splits outcome.splits)

lemma bin_to_json_errors:
  "bin_to_json E D ctxt a ty d c = Return js e \<Longrightarrow> snd e = snd c"
  "bin_to_json E D ctxt a ty d c = Throw x e \<Longrightarrow> snd e = snd c"
  by (auto simp: bin_to_json_def op_defs case_prod_beta split: option.splits outcome.splits prod.splits)

lemma decoded_or_reported:
  assumes "catching (andThen (bin_to_json E D ctxt a ty d) (\<lambda>js. ret (Json_raw js)))
      (\<lambda>e. andThen (add_error (report e)) (\<lambda>_. ret (Json_string t))) c = Return j e"
  shows "accounts (raws j) 1 (snd c) (snd e)"
proof (cases "bin_to_json E D ctxt a ty d c")
  case (Return js u)
  then have "j = Json_raw js" "e = u" using assms by (simp_all add: catching_def andThen_def ret_def)
  then show ?thesis using bin_to_json_errors(1) [OF Return] by (cases "snd c") (auto simp: accounts_def)
next
  case (Throw x u)
  then have "j = Json_string t" "e = (fst u, map_option (\<lambda>xs. xs @ [report x]) (snd u))"
    using assms by (cases u; simp add: catching_def andThen_def ret_def add_error_run)+
  then show ?thesis using bin_to_json_errors(2) [OF Throw] by (auto simp: accounts_def)
qed (use assms in \<open>simp_all add: catching_def andThen_def\<close>)

lemma action_data_accounts: "action_data E D a n d c = Return j e \<Longrightarrow> accounts (raws j) 1 (snd c) (snd e)"
  unfolding action_data_def by (auto simp: andThen_Return Let_def dest!: decoded_or_reported onFst_Return)

lemma row_value_accounts: "row_value E D a n d c = Return j e \<Longrightarrow> accounts (raws j) 1 (snd c) (snd e)"
  unfolding row_value_def by (auto simp: andThen_Return Let_def dest!: decoded_or_reported onFst_Return)

lemma encoder_accounts:
  "native_to_json E D v c = Return j d \<Longrightarrow> accounts (raws j) (places v) (snd c) (snd d)"
  "elements_to_json E D vs c = Return js d \<Longrightarrow>
     accounts (sum_list (map raws js)) (sum_list (map places vs)) (snd c) (snd d)"
  "fields_to_json E D ms c = Return ks d \<Longrightarrow>
     accounts (sum_list (map (\<lambda>(key, j). raws j) ks)) (sum_list (map (\<lambda>(key, member). places member) ms)) (snd c) (snd d)"
  "action_to_json E D a n b ms c = Return ks d \<Longrightarrow>
     accounts (sum_list (map (\<lambda>(key, j). raws j) ks))
       (sum_list (map (\<lambda>(key, member). if key = ''data'' then 1 else places member) ms)) (snd c) (snd d)"
  "row_to_json E D a n b ms c = Return ks d \<Longrightarrow>
     accounts (sum_list (map (\<lambda>(key, j). raws j) ks))
       (sum_list (map (\<lambda>(key, member). if key = ''value'' then 1 else places member) ms)) (snd c) (snd d)"
proof (induction E D v and E D vs and E D ms and E D a n b ms and E D a n b ms arbitrary: c d j and c d js and c d ks and c d ks and c d ks
    rule: native_to_json_elements_to_json_fields_to_json_action_to_json_row_to_json.induct)
qed (auto simp: andThen_Return ret_def throw_def split: if_splits option.splits;
    (drule action_data_accounts row_value_accounts)?; simp?; blast intro: accounts_seq accounts_Suc)+

section \<open>Decoding always ends with a message\<close>

text \<open>Decoding changes nothing of the receiver but the ABIs that it has loaded.\<close>

definition abi_cache_only :: "('db, 'ctx) receiver \<Rightarrow> ('db, 'ctx) receiver \<Rightarrow> bool" where
  "abi_cache_only s t \<longleftrightarrow> t = s\<lparr>contract_abi_ctxt := contract_abi_ctxt t, contract_abi_imported := contract_abi_imported t\<rparr>"

lemma abi_cache_only_refl [simp]: "abi_cache_only s s"
  by (simp add: abi_cache_only_def)

lemma abi_cache_only_trans: "abi_cache_only s t \<Longrightarrow> abi_cache_only t u \<Longrightarrow> abi_cache_only s u"
  by (cases s; cases t; cases u) (auto simp: abi_cache_only_def)

lemma abi_cache_only_dblock: "abi_cache_only s t \<Longrightarrow> dblock t = dblock s"
  by (cases s; cases t) (auto simp: abi_cache_only_def)

definition cache_total :: "('db, 'ctx, 'a) enc_op \<Rightarrow> bool" where
  "cache_total m \<longleftrightarrow> (\<forall>s es. \<not> dblock s \<longrightarrow> (\<exists>a t fs. m (s, es) = Return a (t, fs) \<and> abi_cache_only s t))"

lemma cache_total_ret: "cache_total (ret a)"
  by (simp add: cache_total_def ret_def)

lemma cache_total_andThen:
  fixes m :: "('db, 'ctx, 'a) enc_op"
  assumes "cache_total m" and "\<And>a. cache_total (f a)"
  shows "cache_total (andThen m f)"
  unfolding cache_total_def
proof (intro allI impI)
  fix s :: "('db, 'ctx) receiver" and es assume "\<not> dblock s"
  then obtain a t fs where m: "m (s, es) = Return a (t, fs)" "abi_cache_only s t"
    using assms(1) unfolding cache_total_def by blast
  with \<open>\<not> dblock s\<close> have "\<not> dblock t" by (simp add: abi_cache_only_dblock)
  then obtain b u gs where "f a (t, fs) = Return b (u, gs)" "abi_cache_only t u"
    using assms(2) [of a] unfolding cache_total_def by blast
  with m show "\<exists>a t fs. andThen m f (s, es) = Return a (t, fs) \<and> abi_cache_only s t"
    by (auto simp: andThen_def intro: abi_cache_only_trans)
qed

lemma cache_total_ctxt: "cache_total (onFst (get_contract_abi_ctxt E a))"
  by (auto simp: cache_total_def onFst_def get_contract_abi_ctxt_def get_contract_abi_ready_def op_defs
      lock_mutex_def unlock_mutex_def set_abi_bin_def abi_cache_only_def split: option.splits prod.splits)

lemma cache_total_decode:
  "cache_total (catching (andThen (bin_to_json E D ctxt a ty d) (\<lambda>js. ret (Json_raw js)))
     (\<lambda>e. andThen (add_error (report e)) (\<lambda>_. ret (Json_string t))))"
  by (auto simp: cache_total_def bin_to_json_def op_defs add_error_run abi_cache_only_def
      split: option.splits prod.splits)

lemma cache_total_action_data: "cache_total (action_data E D a n d)"
  unfolding action_data_def Let_def
  by (intro cache_total_andThen cache_total_ctxt) (rule cache_total_decode)

lemma cache_total_row_value: "cache_total (row_value E D a n d)"
  unfolding row_value_def Let_def
  by (intro cache_total_andThen cache_total_ctxt) (rule cache_total_decode)

text \<open>The variants are those that the sources know.\<close>

fun known :: "native \<Rightarrow> bool" where
  "known (Native_vector vs) = list_all known vs"
| "known (Native_might_not_exist v) = known v"
| "known (Native_action ms account name data) = list_all (\<lambda>(key, member). known member) ms"
| "known (Native_contract_row ms contract table data) = list_all (\<lambda>(key, member). known member) ms"
| "known (Native_optional v) = (case v of None \<Rightarrow> True | Some w \<Rightarrow> known w)"
| "known (Native_pair v w) = (known v \<and> known w)"
| "known (Native_struct ms) = list_all (\<lambda>(key, member). known member) ms"
| "known (Native_only_v0 index v) = (index = 0 \<and> known v)"
| "known (Native_action_trace index v) = (index \<le> 1 \<and> known v)"
| "known (Native_recurse v) = known v"
| "known (Native_variant v) = known v"
| "known _ = True"

lemma encoder_total:
  "known v \<Longrightarrow> cache_total (native_to_json E D v)"
  "list_all known vs \<Longrightarrow> cache_total (elements_to_json E D vs)"
  "list_all (\<lambda>(key, member). known member) ms \<Longrightarrow> cache_total (fields_to_json E D ms)"
  "list_all (\<lambda>(key, member). known member) ms \<Longrightarrow> cache_total (action_to_json E D a n b ms)"
  "list_all (\<lambda>(key, member). known member) ms \<Longrightarrow> cache_total (row_to_json E D a n b ms)"
proof (induction E D v and E D vs and E D ms and E D a n b ms and E D a n b ms
    rule: native_to_json_elements_to_json_fields_to_json_action_to_json_row_to_json.induct)
qed (auto intro!: cache_total_ret cache_total_andThen cache_total_action_data cache_total_row_value split: option.splits)

text \<open>
  C40: Whatever the ABIs do, a transaction trace whose variants are known is exported exactly
  once, and every action data in it is either decoded by an ABI or reported: one ENCODER_ERR
  message follows exactly when something was not decodable, and the decoded places and the
  errors it lists add up to all places. The receiver keeps everything but its loaded ABIs.
\<close>

theorem decoder_reports:
  assumes "\<not> dblock s" and "known (reflect_transaction_trace D e)"
  shows "\<exists>j errs t. on_transaction_trace E D e (s, outs) = Return () (t,
      outs @ (Js_transaction_traces, c_str (write_json D j)) #
        (if errs = [] then [] else [(Js_abi_decoder_errors, c_str (write_json D (Json_object
          (map (\<lambda>(k, v). (c_str k, Json_string (c_str v))) (trace_attrs D e)
           @ [(''errors'', Json_array (map (\<lambda>err. Json_string (c_str err)) errs))]))))]))
    \<and> raws j + length errs = places (reflect_transaction_trace D e) \<and> abi_cache_only s t"
proof -
  let ?v = "reflect_transaction_trace D e"
  obtain j t es where run: "native_to_json E D ?v (s, Some []) = Return j (t, es)" and "abi_cache_only s t"
    using encoder_total(1) [OF assms(2), of E D] assms(1) unfolding cache_total_def by blast
  moreover obtain errs where "es = Some errs" "raws j + length errs = places ?v"
    using encoder_accounts(1) [OF run] by (auto simp: accounts_def)
  ultimately show ?thesis
    by (intro exI [of _ j] exI [of _ errs] exI [of _ t])
      (simp add: on_transaction_trace_def forward_reporting_def impl_native_to_json_def andThen_def publish_js_def
        updates_def report_encoder_errors_def ret_def split: list.split)
qed

definition example_decoder :: "(u64 \<times> bytes) list decoder_lib" where
  "example_decoder = \<lparr>
     type_for_action = (\<lambda>c a n. None), type_for_table = (\<lambda>c a n. None),
     abieos_name_to_string = (\<lambda>c n. decimal (unat n)),
     abieos_bin_to_json = (\<lambda>c a ty d. (c, case c of None \<Rightarrow> None
        | Some abis \<Rightarrow> map_option (\<lambda>_. ''{}'') (map_of abis a))),
     name_to_string = (\<lambda>n. decimal (unat n)), to_hex = (\<lambda>b. concat (map (\<lambda>x. decimal (unat x)) b)),
     byte_array = (\<lambda>c. []), value_bytes = (\<lambda>c. []), status_to_string = (\<lambda>st. []), elapsed = (\<lambda>t. 0),
     microseconds_to_str = decimal_int, public_key_to_string = (\<lambda>k. []), signature_to_string = (\<lambda>k. []),
     write_json = (\<lambda>j. ''{}''), reflect_block = (\<lambda>b. Native_struct []),
     reflect_trace = (\<lambda>tt. Native_only_v0 0 (Native_struct [(''action_traces'', Native_vector (map (\<lambda>tr. case tr of
          Action_trace_v0 r a \<Rightarrow> Native_action_trace 0 (Native_action [(''account'', Scalar (Of_name (act_account a))),
             (''data'', Scalar (Of_input_stream (act_data a)))] (act_account a) (act_name a) (act_data a))
        | Action_trace_v1 r a \<Rightarrow> Native_action_trace 1 (Native_struct [])
        | Action_trace_other n \<Rightarrow> Native_action_trace n (Native_struct [])) (tt_action_traces tt)))])),
     reflect_abi = (\<lambda>b. Native_struct []), reflect_row = (\<lambda>r. []), reflect_permission = (\<lambda>b. Native_struct []),
     reflect_permission_link = (\<lambda>b. Native_struct []), reflect_account_metadata = (\<lambda>b. Native_struct [])\<rparr>"

definition example_trace :: transaction_trace where
  "example_trace = \<lparr>tr_block_num = 9, tr_block_timestamp = 0, tr_trace = \<lparr>tt_id = 0, tt_action_traces =
     [Action_trace_v0 6 \<lparr>act_account = 6, act_name = 1, act_authorization = [], act_data = [1, 2]\<rparr>]\<rparr>, tr_bin = []\<rparr>"

theorem decoder_reports_witness:
  "\<exists>j (errs :: string list) t. on_transaction_trace ws_env example_decoder example_trace (flow_run 9 0 0, []) = Return () (t,
      (Js_transaction_traces, ''{}'') # (if errs = [] then [] else [(Js_abi_decoder_errors, ''{}'')]))
    \<and> raws j + length errs = 1 \<and> abi_cache_only (flow_run 9 0 0) t"
proof -
  have trace: "known (reflect_transaction_trace example_decoder example_trace)"
    "places (reflect_transaction_trace example_decoder example_trace) = 1"
    by (simp_all add: reflect_transaction_trace_def example_decoder_def example_trace_def stamp_def)
  have json: "c_str (write_json example_decoder j) = ''{}''" for j
    by (simp add: example_decoder_def c_str_def code_def)
  have "\<not> dblock (flow_run 9 0 0)" by (simp add: flow_run_def new_receiver_def)
  from decoder_reports [OF this trace(1), of ws_env "[]"] show ?thesis
    unfolding trace(2) json append_Nil .
qed

text \<open>
  The report of an undecodable row cannot tell which row it was: of the primary key it
  carries one character made of the lowest byte, so keys that differ by a multiple of 256 give
  the same report, and a multiple of 256 gives an empty text.
\<close>

theorem report_hides_primary_key:
  "row_attrs D (e\<lparr>tru_kvo := (tru_kvo e)\<lparr>kvo_primary_key := k\<rparr>\<rparr>)
     = row_attrs D (e\<lparr>tru_kvo := (tru_kvo e)\<lparr>kvo_primary_key := k + 256 * n\<rparr>\<rparr>)
   \<and> c_str (assigned_char (256 * n)) = []"
proof -
  have low: "ucast (k + 256 * n) = (ucast k :: u8)" for k :: u64
    by transfer (simp add: take_bit_eq_mod mod_mod_cancel)
  show ?thesis
    using low [of k] low [of 0] by (simp add: row_attrs_def assigned_char_def c_str_def code_def)
qed

end
