(* ===== verification/Messages.thy ===== *)
theory Messages
  imports Decoder
begin

text \<open>
  The shape of the messages: for every event of the receiver the decoder publishes the JSON
  text of a value whose members are those that the event's reflection names, in that order,
  with every number, flag and time as a JSON string.
\<close>

section \<open>Shapes\<close>

text \<open>What stands for action data or the value of a row: the ABI decoder's JSON, or a string.\<close>

fun is_decoded :: "json \<Rightarrow> bool" where
  "is_decoded (Json_raw t) = True"
| "is_decoded (Json_string t) = True"
| "is_decoded _ = False"

inductive typed :: "native \<Rightarrow> json \<Rightarrow> bool" where
  typed_scalar: "typed (Scalar v) (Json_string t)"
| typed_vector: "list_all2 typed vs js \<Longrightarrow> typed (Native_vector vs) (Json_array js)"
| typed_might_not_exist: "typed v j \<Longrightarrow> typed (Native_might_not_exist v) j"
| typed_action: "list_all2 (\<lambda>m k. fst m = fst k \<and> (fst m \<noteq> ''data'' \<or> is_decoded (snd k)) \<and>
      (fst m = ''data'' \<or> typed (snd m) (snd k))) ms ks \<Longrightarrow> typed (Native_action ms account name data) (Json_object ks)"
| typed_row: "list_all2 (\<lambda>m k. fst m = fst k \<and> (fst m \<noteq> ''value'' \<or> is_decoded (snd k)) \<and>
      (fst m = ''value'' \<or> typed (snd m) (snd k))) ms ks \<Longrightarrow> typed (Native_contract_row ms contract table data) (Json_object ks)"
| typed_null: "typed (Native_optional None) Json_null"
| typed_some: "typed v j \<Longrightarrow> typed (Native_optional (Some v)) j"
| typed_pair: "typed v j \<Longrightarrow> typed w k \<Longrightarrow> typed (Native_pair v w) (Json_array [j, k])"
| typed_struct: "list_all2 (\<lambda>m k. fst m = fst k \<and> typed (snd m) (snd k)) ms ks \<Longrightarrow> typed (Native_struct ms) (Json_object ks)"
| typed_only_v0: "typed v j \<Longrightarrow> typed (Native_only_v0 0 v) j"
| typed_action_trace: "index \<le> 1 \<Longrightarrow> typed v j \<Longrightarrow> typed (Native_action_trace index v) j"
| typed_recurse: "typed v j \<Longrightarrow> typed (Native_recurse v) j"
| typed_variant: "typed v j \<Longrightarrow> typed (Native_variant v) j"
  monos list.rel_mono_strong

declare typed.intros [intro]
inductive_simps typed_struct_iff: "typed (Native_struct ms) j"
inductive_simps typed_scalar_iff: "typed (Scalar v) j"

lemma is_decoded_or_hex:
  assumes "catching (andThen m (\<lambda>js. ret (Json_raw js))) (\<lambda>e. andThen (f e) (\<lambda>_. ret (Json_string t))) c = Return j d"
  shows "is_decoded j"
proof (cases "m c")
  case (Throw e u)
  then show ?thesis using assms by (cases "f e u") (auto simp: catching_def andThen_def ret_def)
qed (use assms in \<open>auto simp: catching_def andThen_def ret_def\<close>)

lemma is_decoded_action_data: "action_data E D a n d c = Return j e \<Longrightarrow> is_decoded j"
  unfolding action_data_def Let_def andThen_Return by (auto dest: is_decoded_or_hex)

lemma is_decoded_row_value: "row_value E D a n d c = Return j e \<Longrightarrow> is_decoded j"
  unfolding row_value_def Let_def andThen_Return by (auto dest: is_decoded_or_hex)

lemma encoder_typed:
  "native_to_json E D v c = Return j d \<Longrightarrow> typed v j"
  "elements_to_json E D vs c = Return js d \<Longrightarrow> list_all2 typed vs js"
  "fields_to_json E D ms c = Return ks d \<Longrightarrow> list_all2 (\<lambda>m k. fst m = fst k \<and> typed (snd m) (snd k)) ms ks"
  "action_to_json E D a n b ms c = Return ks d \<Longrightarrow>
     list_all2 (\<lambda>m k. fst m = fst k \<and> (fst m \<noteq> ''data'' \<or> is_decoded (snd k)) \<and> (fst m = ''data'' \<or> typed (snd m) (snd k))) ms ks"
  "row_to_json E D a n b ms c = Return ks d \<Longrightarrow>
     list_all2 (\<lambda>m k. fst m = fst k \<and> (fst m \<noteq> ''value'' \<or> is_decoded (snd k)) \<and> (fst m = ''value'' \<or> typed (snd m) (snd k))) ms ks"
proof (induction E D v and E D vs and E D ms and E D a n b ms and E D a n b ms arbitrary: c d j and c d js and c d ks and c d ks and c d ks
    rule: native_to_json_elements_to_json_fields_to_json_action_to_json_row_to_json.induct)
qed (auto simp: andThen_Return ret_def throw_def split: if_splits option.splits
      dest: is_decoded_action_data is_decoded_row_value)

section \<open>The message of an event\<close>

fun reflection :: "'ctx decoder_lib \<Rightarrow> event \<Rightarrow> native" where
  "reflection D (Fork e) = reflect_fork e"
| "reflection D (Block_started e) = reflect_begins e"
| "reflection D (Block e) = reflect_block_event D e"
| "reflection D (Block_table_delta e) = Native_optional None"
| "reflection D (Transaction_trace e) = reflect_transaction_trace D e"
| "reflection D (Abi_update e) = reflect_abi_update D e"
| "reflection D (Abi_removal e) = reflect_abi_removal e"
| "reflection D (Abi_error e) = reflect_abi_error e"
| "reflection D (Table_row_update e) = reflect_table_row_update D e"
| "reflection D (Permission_update e) = reflect_permission_update D e"
| "reflection D (Permission_link_update e) = reflect_permission_link_update D e"
| "reflection D (Account_metadata_update e) = reflect_account_metadata_update D e"
| "reflection D (Receiver_pause e) = reflect_pause e"
| "reflection D (Block_completed e) = reflect_finished e"

text \<open>\<open>encodes D v j\<close>: \<open>j\<close> is an encoding of \<open>v\<close>, in some state of the ABIs.\<close>

definition encodes :: "('db, 'ctx) env \<Rightarrow> 'ctx decoder_lib \<Rightarrow> native \<Rightarrow> json \<Rightarrow> bool" where
  "encodes E D v j \<longleftrightarrow> (\<exists>c d. native_to_json E D v c = Return j d)"

lemma encodes_typed: "encodes E D v j \<Longrightarrow> typed v j"
  by (auto simp: encodes_def intro: encoder_typed(1))

definition report :: "'ctx decoder_lib \<Rightarrow> (string \<times> string) list \<Rightarrow> string list \<Rightarrow> string" where
  "report D attrs errs = c_str (write_json D (Json_object (map (\<lambda>(k, v). (c_str k, Json_string (c_str v))) attrs
     @ [(''errors'', Json_array (map (\<lambda>err. Json_string (c_str err)) errs))])))"

lemma report_encoder_errors_run:
  "report_encoder_errors D errs attrs (s, outs) = Return () (s, outs @ [(Js_abi_decoder_errors, report D attrs errs)])"
  by (simp add: report_encoder_errors_def publish_js_def updates_def report_def)

definition reports :: "'ctx decoder_lib \<Rightarrow> (js_channel \<times> string) list \<Rightarrow> bool" where
  "reports D msgs \<longleftrightarrow> msgs = [] \<or> (\<exists>attrs errs. errs \<noteq> [] \<and> msgs = [(Js_abi_decoder_errors, report D attrs errs)])"

lemma forward_message:
  assumes "forward E D ch v (s, outs) = Return () (t, outs')"
  shows "\<exists>j. encodes E D v j \<and> outs' = outs @ [(ch, c_str (write_json D j))]"
  using assms by (fastforce simp: forward_def impl_native_to_json_def andThen_def publish_js_def updates_def encodes_def
      split: outcome.splits prod.splits)

lemma forward_reporting_message:
  assumes "forward_reporting E D ch v attrs (s, outs) = Return () (t, outs')"
  shows "\<exists>j rest. encodes E D v j \<and> outs' = outs @ (ch, c_str (write_json D j)) # rest \<and> reports D rest"
proof (cases "native_to_json E D v (s, Some [])")
  case (Return j d)
  obtain t' es where d: "d = (t', es)" by fastforce
  have "encodes E D v j" using Return unfolding encodes_def by blast
  moreover have "\<exists>rest. outs' = outs @ (ch, c_str (write_json D j)) # rest \<and> reports D rest"
    using assms Return d
    by (auto simp: forward_reporting_def impl_native_to_json_def andThen_def publish_js_def updates_def ret_def
        report_encoder_errors_run reports_def split: option.splits list.splits)
  ultimately show ?thesis by blast
qed (use assms in \<open>auto simp: forward_reporting_def impl_native_to_json_def andThen_def split: prod.splits\<close>)

lemma on_event_message:
  assumes "on_event E D e (s, outs) = Return () (t, outs')" and "js_channel_of e = Some ch"
  shows "\<exists>j rest. encodes E D (reflection D e) j \<and> outs' = outs @ (ch, c_str (write_json D j)) # rest \<and> reports D rest
    \<and> (ch \<notin> {Js_transaction_traces, Js_table_row_updates} \<longrightarrow> rest = [])"
  using assms
  by (cases e) (auto dest!: forward_message forward_reporting_message
      simp: reports_def on_transaction_trace_def on_table_row_update_def)

lemma forward_reporting_total:
  assumes "known v" and "\<not> dblock s"
  obtains t outs' where "forward_reporting E D ch v attrs (s, outs) = Return () (t, outs')" and "abi_cache_only s t"
proof -
  obtain j t es where run: "native_to_json E D v (s, Some []) = Return j (t, es)" and t: "abi_cache_only s t"
    using encoder_total(1) [OF assms(1), of E D] assms(2) unfolding cache_total_def by blast
  have "\<exists>outs'. forward_reporting E D ch v attrs (s, outs) = Return () (t, outs')"
    using run by (auto simp: forward_reporting_def impl_native_to_json_def andThen_def publish_js_def updates_def
        report_encoder_errors_def ret_def split: option.split list.split)
  with t that show ?thesis by blast
qed

text \<open>
  C14: Every message has the shape of its event: what the decoder publishes for an event is the
  text of a JSON value whose members are, in order, those that the event's reflection names,
  with every scalar a JSON string, every list an array of the same length, and only action data
  and row values left to the contracts' ABIs; for traces and rows at most one report follows.
\<close>

theorem messages_typed:
  assumes "on_event E D e (s, outs) = Return () (t, outs')" and "js_channel_of e = Some ch"
  shows "\<exists>j rest. typed (reflection D e) j \<and> outs' = outs @ (ch, c_str (write_json D j)) # rest
    \<and> (rest = [] \<or> ch \<in> {Js_transaction_traces, Js_table_row_updates} \<and> length rest = 1 \<and> fst (hd rest) = Js_abi_decoder_errors)"
proof -
  obtain j rest where m: "encodes E D (reflection D e) j" "outs' = outs @ (ch, c_str (write_json D j)) # rest" "reports D rest"
      "ch \<notin> {Js_transaction_traces, Js_table_row_updates} \<longrightarrow> rest = []"
    using on_event_message [OF assms] by blast
  then have "rest = [] \<or> ch \<in> {Js_transaction_traces, Js_table_row_updates} \<and> length rest = 1 \<and> fst (hd rest) = Js_abi_decoder_errors"
    by (auto simp: reports_def)
  with encodes_typed [OF m(1)] m(2) show ?thesis by blast
qed

theorem messages_typed_witness:
  "\<exists>j rest t. on_event ws_env example_decoder (Transaction_trace example_trace) (flow_run 9 0 0, []) = Return () (t,
       (Js_transaction_traces, ''{}'') # rest)
     \<and> typed (reflect_transaction_trace example_decoder example_trace) j \<and> length rest \<le> 1"
proof -
  let ?v = "reflect_transaction_trace example_decoder example_trace"
  have known: "known ?v" by (simp add: reflect_transaction_trace_def example_decoder_def example_trace_def stamp_def)
  have "\<not> dblock (flow_run 9 0 0)" by (simp add: flow_run_def new_receiver_def)
  then obtain u outs where r: "on_event ws_env example_decoder (Transaction_trace example_trace) (flow_run 9 0 0, []) = Return () (u, outs)"
    using forward_reporting_total [OF known] unfolding on_event.simps on_transaction_trace_def by metis
  have json: "c_str (write_json example_decoder j) = ''{}''" for j
    by (simp add: example_decoder_def c_str_def code_def)
  show ?thesis using messages_typed [OF r] r json by fastforce
qed

end
