(* ===== verification/Names.thy ===== *)
theory Names
  imports Prelude
begin

text \<open>
  \<open>name.hpp\<close> and \<open>keyops.hpp\<close>: the 64-bit encoding of account names, the base-58 decoder
  and the derivation of a FIO account name from a public key. C strings are lists of
  characters without the terminating NUL; a read past the end or into an uninitialised
  tail is made explicit.
\<close>

section \<open>Account names (name.hpp)\<close>

definition ord :: "char \<Rightarrow> nat" where
  "ord c = of_char c"

definition char_to_symbol :: "char \<Rightarrow> u64" where
  "char_to_symbol c =
     (if ord CHR ''a'' \<le> ord c \<and> ord c \<le> ord CHR ''z'' then of_nat (ord c - ord CHR ''a'') + 6
      else if ord CHR ''1'' \<le> ord c \<and> ord c \<le> ord CHR ''5'' then of_nat (ord c - ord CHR ''1'') + 1
      else 0)"

text \<open>\<open>str[i]\<close> of a NUL-terminated string.\<close>

definition c_str_at :: "string \<Rightarrow> nat \<Rightarrow> char" where
  "c_str_at str i = (if i < length str then str ! i else CHR 0x00)"

function name_loop :: "string \<Rightarrow> nat \<Rightarrow> u64 \<Rightarrow> nat \<times> u64" where
  "name_loop str i name =
     (if c_str_at str i \<noteq> CHR 0x00 \<and> i < 12
      then name_loop str (Suc i)
             (name OR push_bit (64 - 5 * (i + 1)) (char_to_symbol (c_str_at str i) AND 0x1f))
      else (i, name))"
  by pat_completeness auto
termination
  by (relation "measure (\<lambda>(str, i, name). 12 - i)") auto

declare name_loop.simps [simp del]

definition string_to_name :: "string \<Rightarrow> u64" where
  "string_to_name str =
     (case name_loop str 0 0 of (i, name) \<Rightarrow>
        if i = 12 then name OR (char_to_symbol (c_str_at str 12) AND 0x0F) else name)"

text \<open>
  \<open>string_to_uint64_t\<close>: shifting a 64-bit value by 64 is undefined in C++, so the result is
  \<open>None\<close> there.
\<close>

fun uint64_loop :: "nat \<Rightarrow> nat \<Rightarrow> string \<Rightarrow> u64 \<Rightarrow> u64 option" where
  "uint64_loop multv i [] value = Some value"
| "uint64_loop multv i (ch # chs) value =
     (let c = of_char ch :: u64 in
      if i < 60
      then let sh = 64 - multv * (i + 1) in
           if sh < 64 then uint64_loop multv (Suc i) chs (value OR push_bit sh (c AND 0x1f)) else None
      else uint64_loop multv (Suc i) chs (value OR (c AND 0x0f)))"

definition string_to_uint64_t :: "string \<Rightarrow> u64 option" where
  "string_to_uint64_t str =
     (let len = length str; multv = (if len > 0 then 60 div len else 0)
      in uint64_loop multv 0 str 0)"

subsection \<open>The symbols of a name\<close>

definition name_char :: "char \<Rightarrow> bool" where
  "name_char c \<longleftrightarrow> c = CHR ''.'' \<or> (ord CHR ''a'' \<le> ord c \<and> ord c \<le> ord CHR ''z'')
     \<or> (ord CHR ''1'' \<le> ord c \<and> ord c \<le> ord CHR ''5'')"

definition canonical_name :: "string \<Rightarrow> bool" where
  "canonical_name str \<longleftrightarrow> length str \<le> 12 \<and> list_all name_char str \<and> (str \<noteq> [] \<longrightarrow> last str \<noteq> CHR ''.'')"

text \<open>The five bits that \<open>string_to_name\<close> gives to the character at position \<open>i\<close>.\<close>

definition name_slot :: "u64 \<Rightarrow> nat \<Rightarrow> u64" where
  "name_slot name i = drop_bit (64 - 5 * (i + 1)) name AND 0x1f"

lemma ord_inj: "ord c = ord d \<longleftrightarrow> c = d"
  by (simp add: ord_def)

lemma ord_lt: "ord c < 256"
  by (simp add: ord_def)

lemma ord_consts:
  "ord CHR ''a'' = 97" "ord CHR ''z'' = 122" "ord CHR ''1'' = 49" "ord CHR ''5'' = 53"
  "ord CHR ''.'' = 46" "ord CHR 0x00 = 0"
  by (simp_all add: ord_def)

lemma char_to_symbol_of_nat:
  "char_to_symbol c =
     of_nat (if 97 \<le> ord c \<and> ord c \<le> 122 then ord c - 91
             else if 49 \<le> ord c \<and> ord c \<le> 53 then ord c - 48 else 0)"
proof -
  have letter: "of_nat (ord c - 97) + 6 = (of_nat (ord c - 91) :: u64)" if "97 \<le> ord c"
  proof -
    have "ord c - 91 = ord c - 97 + 6" using that by simp
    then show ?thesis by (simp only: of_nat_add of_nat_numeral)
  qed
  have digit: "of_nat (ord c - 49) + 1 = (of_nat (ord c - 48) :: u64)" if "49 \<le> ord c"
  proof -
    have "ord c - 48 = ord c - 49 + 1" using that by simp
    then show ?thesis by (simp only: of_nat_add of_nat_1)
  qed
  have zero: "(0 :: u64) = of_nat 0" by simp
  show ?thesis
    unfolding char_to_symbol_def ord_consts
    by (cases "97 \<le> ord c \<and> ord c \<le> 122"; cases "49 \<le> ord c \<and> ord c \<le> 53")
      (simp_all only: letter digit if_True if_False simp_thms zero)
qed

lemma unat_symbol:
  "unat (char_to_symbol c) =
     (if 97 \<le> ord c \<and> ord c \<le> 122 then ord c - 91
      else if 49 \<le> ord c \<and> ord c \<le> 53 then ord c - 48 else 0)"
proof -
  have "(if 97 \<le> ord c \<and> ord c \<le> 122 then ord c - 91
      else if 49 \<le> ord c \<and> ord c \<le> 53 then ord c - 48 else 0) < 2 ^ 64"
    by (auto simp: order_le_less_trans)
  then show ?thesis unfolding char_to_symbol_of_nat by (simp only: unat_of_nat len_num1 mod_less) simp
qed

lemma symbol_other:
  "\<not> (97 \<le> ord c \<and> ord c \<le> 122) \<Longrightarrow> \<not> (49 \<le> ord c \<and> ord c \<le> 53) \<Longrightarrow> char_to_symbol c = 0"
  using unat_symbol [of c] by (auto simp flip: unat_eq_0 split: if_splits)

lemma symbol_nul: "char_to_symbol CHR 0x00 = 0"
  by (rule symbol_other) (simp_all add: ord_consts)

lemma unat_symbol_lt: "unat (char_to_symbol c) < 32"
  by (auto simp: unat_symbol)

lemma symbol_take_bit: "take_bit 5 (char_to_symbol c) = char_to_symbol c"
proof -
  have "unat (take_bit 5 (char_to_symbol c)) = unat (char_to_symbol c)"
    using unat_symbol_lt [of c] by (simp add: unsigned_take_bit_eq take_bit_nat_eq_self)
  then show ?thesis by (simp only: word_eq_iff_unsigned [where ?'a = nat])
qed

lemma symbol_mask: "char_to_symbol c AND 0x1f = char_to_symbol c"
  using symbol_take_bit [of c] by (simp add: take_bit_eq_mask mask_eq_exp_minus_1)

lemma symbol_bit_lt: "bit (char_to_symbol c) k \<Longrightarrow> k < 5"
  by (metis bit_take_bit_iff symbol_take_bit)

lemma symbol_inj:
  assumes "name_char c" and "name_char d" and "char_to_symbol c = char_to_symbol d"
  shows "c = d"
proof -
  have "unat (char_to_symbol c) = unat (char_to_symbol d)" using assms(3) by simp
  then have "ord c = ord d"
    using assms(1,2) by (auto simp: name_char_def ord_consts unat_symbol split: if_splits)
  then show ?thesis by (simp add: ord_inj)
qed

text \<open>The loop leaves the position at which it stopped and one slot per character it read.\<close>

lemma name_loop_bits:
  assumes "CHR 0x00 \<notin> set str" and "i \<le> min 12 (length str)"
  shows "fst (name_loop str i name) = min 12 (length str) \<and>
    (\<forall>n < 64. bit (snd (name_loop str i name)) n \<longleftrightarrow> bit name n \<or>
       (\<exists>j. i \<le> j \<and> j < min 12 (length str) \<and> 64 - 5 * (j + 1) \<le> n
          \<and> bit (char_to_symbol (str ! j)) (n - (64 - 5 * (j + 1)))))"
  using assms
proof (induction str i name rule: name_loop.induct)
  case (1 str i name)
  let ?m = "min 12 (length str)"
  let ?slot = "\<lambda>j n. 64 - 5 * (j + 1) \<le> n \<and> bit (char_to_symbol (str ! j)) (n - (64 - 5 * (j + 1)))"
  show ?case
  proof (cases "i < ?m")
    case True
    then have "str ! i \<noteq> CHR 0x00"
      using "1.prems"(1) by (metis min_less_iff_conj nth_mem)
    with True have go: "c_str_at str i \<noteq> CHR 0x00 \<and> i < 12" and at: "c_str_at str i = str ! i"
      by (auto simp: c_str_at_def)
    let ?name = "name OR push_bit (64 - 5 * (i + 1)) (char_to_symbol (str ! i))"
    have unfold: "name_loop str i name = name_loop str (Suc i) ?name"
      using go at by (subst name_loop.simps) (simp add: symbol_mask)
    have IH: "fst (name_loop str (Suc i) ?name) = ?m \<and>
        (\<forall>n < 64. bit (snd (name_loop str (Suc i) ?name)) n \<longleftrightarrow> bit ?name n \<or>
           (\<exists>j. Suc i \<le> j \<and> j < ?m \<and> ?slot j n))"
      using "1.IH" [OF go "1.prems"(1)] True at by (simp only: symbol_mask) simp
    have first: "bit ?name n \<longleftrightarrow> bit name n \<or> ?slot i n" if "n < 64" for n
      using that by (auto simp: bit_simps)
    have "(\<exists>j. i \<le> j \<and> j < ?m \<and> ?slot j n) \<longleftrightarrow> ?slot i n \<or> (\<exists>j. Suc i \<le> j \<and> j < ?m \<and> ?slot j n)" for n
      using True by (metis Suc_leD Suc_leI le_neq_implies_less order_refl)
    with IH first show ?thesis unfolding unfold by blast
  next
    case False
    then have "i = ?m" using "1.prems"(2) by linarith
    then have "name_loop str i name = (i, name)"
      by (subst name_loop.simps) (auto simp: c_str_at_def)
    with \<open>i = ?m\<close> show ?thesis by auto
  qed
qed

lemma name_slot_take_bit: "name_slot name i = take_bit 5 (drop_bit (64 - 5 * (i + 1)) name)"
  by (simp add: name_slot_def take_bit_eq_mask mask_eq_exp_minus_1)

lemma name_slot_string_to_name:
  assumes "CHR 0x00 \<notin> set str" and "length str \<le> 12" and "i < 12"
  shows "name_slot (string_to_name str) i = (if i < length str then char_to_symbol (str ! i) else 0)"
    (is "?lhs = ?rhs")
proof (rule bit_word_eqI)
  let ?sh = "\<lambda>j. 64 - 5 * (j + 1)"
  let ?name = "string_to_name str"
  have nul: "c_str_at str 12 = CHR 0x00" using assms(2) by (auto simp: c_str_at_def)
  have name: "?name = snd (name_loop str 0 0)"
    by (simp add: string_to_name_def nul symbol_nul split: prod.split)
  have bits: "bit ?name n \<longleftrightarrow> (\<exists>j < length str. ?sh j \<le> n \<and> bit (char_to_symbol (str ! j)) (n - ?sh j))"
    if "n < 64" for n
    using name_loop_bits [OF assms(1), of 0 0] assms(2) that unfolding name by (auto simp: min_def)
  fix k :: nat
  assume "k < LENGTH(64)"
  have "bit ?lhs k \<longleftrightarrow> bit ?name (?sh i + k) \<and> k < 5"
    by (auto simp: name_slot_take_bit bit_take_bit_iff bit_drop_bit_eq)
  also have "\<dots> \<longleftrightarrow> bit ?rhs k"
  proof (cases "k < 5")
    case True
    have "j = i" if "?sh j \<le> ?sh i + k" and "bit (char_to_symbol (str ! j)) (?sh i + k - ?sh j)"
      and "j < length str" for j
    proof -
      have "?sh i + k - ?sh j < 5" using that(2) by (rule symbol_bit_lt)
      then show ?thesis using that(1,3) True assms(2,3) by auto
    qed
    then have "(\<exists>j < length str. ?sh j \<le> ?sh i + k \<and> bit (char_to_symbol (str ! j)) (?sh i + k - ?sh j))
        \<longleftrightarrow> i < length str \<and> bit (char_to_symbol (str ! i)) (?sh i + k - ?sh i)"
      by (metis le_add1)
    moreover have "?sh i + k < 64" using True by simp
    ultimately show ?thesis using bits [of "?sh i + k"] True by (simp only: diff_add_inverse) simp
  next
    case False
    then show ?thesis using symbol_bit_lt [of "str ! i" k] by auto
  qed
  finally show "bit ?lhs k \<longleftrightarrow> bit ?rhs k" .
qed

lemma name_char_no_nul: "list_all name_char str \<Longrightarrow> CHR 0x00 \<notin> set str"
proof
  assume names: "list_all name_char str" and "CHR 0x00 \<in> set str"
  then have "name_char CHR 0x00" by (auto simp: list_all_iff)
  then show False by (simp add: name_char_def ord_def)
qed

text \<open>Only the dot has the symbol 0, and a canonical name does not end with one.\<close>

lemma symbol_dot: "name_char c \<Longrightarrow> char_to_symbol c = 0 \<longleftrightarrow> c = CHR ''.''"
proof
  assume c: "name_char c" and "char_to_symbol c = 0"
  then have "unat (char_to_symbol c) = 0" by simp
  with c have "ord c = ord CHR ''.''"
    by (auto simp: unat_symbol name_char_def ord_consts split: if_splits)
  then show "c = CHR ''.''" by (simp only: ord_inj)
next
  show "c = CHR ''.'' \<Longrightarrow> char_to_symbol c = 0"
    by (rule symbol_other) (simp_all add: ord_consts)
qed

text \<open>C18: on canonical names the 64-bit encoding is injective.\<close>

theorem string_to_name_inj:
  assumes "canonical_name s" and "canonical_name t" and eq: "string_to_name s = string_to_name t"
  shows "s = t"
proof -
  have slots: "(if i < length s then char_to_symbol (s ! i) else 0) =
      (if i < length t then char_to_symbol (t ! i) else 0)" if "i < 12" for i
    using assms that name_slot_string_to_name [of s i] name_slot_string_to_name [of t i]
    by (simp add: canonical_name_def name_char_no_nul)
  have short: "length u \<le> length v"
    if "canonical_name u" "canonical_name v" and
      sl: "\<And>i. i < 12 \<Longrightarrow> (if i < length u then char_to_symbol (u ! i) else 0) =
        (if i < length v then char_to_symbol (v ! i) else 0)" for u v :: string
  proof (rule ccontr)
    let ?i = "length u - 1"
    assume longer: "\<not> length u \<le> length v"
    then have u: "u \<noteq> []" "?i < length u" by auto
    have i: "?i < 12" "\<not> ?i < length v" using that(1) u longer by (auto simp: canonical_name_def)
    have "char_to_symbol (u ! ?i) = 0" using sl [OF i(1)] i(2) u(2) by simp
    then have "u ! ?i = CHR ''.''"
      using that(1) u(2) symbol_dot [of "u ! ?i"] by (simp add: canonical_name_def list_all_length)
    then show False using that(1) u(1) by (simp add: canonical_name_def last_conv_nth)
  qed
  have len: "length s = length t"
    using short [OF assms(1,2) slots] short [OF assms(2,1) slots [symmetric]] by simp
  show ?thesis
  proof (rule nth_equalityI [OF len])
    fix i assume i: "i < length s"
    then have "char_to_symbol (s ! i) = char_to_symbol (t ! i)"
      using slots [of i] len assms(1) by (simp add: canonical_name_def)
    then show "s ! i = t ! i"
      using i len assms(1,2) symbol_inj by (simp add: canonical_name_def list_all_length)
  qed
qed

theorem string_to_name_inj_witness:
  "canonical_name ''fio.token'' \<and> canonical_name ''fio.token'' \<and>
   string_to_name ''fio.token'' = string_to_name ''fio.token'' \<and> ''fio.token'' = ''fio.token''"
proof -
  have c: "canonical_name ''fio.token''"
    by (simp add: canonical_name_def name_char_def ord_def)
  show ?thesis using string_to_name_inj [OF c c refl] c by simp
qed

section \<open>Base 58 (keyops.hpp)\<close>

definition ALPHABET_MAP :: "int list" where
  "ALPHABET_MAP =
     [-1, -1, -1, -1, -1, -1, -1, -1, -1, -1, -1, -1, -1, -1, -1, -1,
      -1, -1, -1, -1, -1, -1, -1, -1, -1, -1, -1, -1, -1, -1, -1, -1,
      -1, -1, -1, -1, -1, -1, -1, -1, -1, -1, -1, -1, -1, -1, -1, -1,
      -1, 0, 1, 2, 3, 4, 5, 6, 7, 8, -1, -1, -1, -1, -1, -1,
      -1, 9, 10, 11, 12, 13, 14, 15, 16, -1, 17, 18, 19, 20, 21, -1,
      22, 23, 24, 25, 26, 27, 28, 29, 30, 31, 32, -1, -1, -1, -1, -1,
      -1, 33, 34, 35, 36, 37, 38, 39, 40, 41, 42, 43, -1, 44, 45, 46,
      47, 48, 49, 50, 51, 52, 53, 54, 55, 56, 57, -1, -1, -1, -1, -1]"

text \<open>
  The caller's buffer is a list of bytes whose length is its capacity and whose contents
  are whatever the allocation holds. A read of \<open>ALPHABET_MAP\<close> or a write to the buffer
  out of bounds is undefined behaviour, the result \<open>None\<close>.

  The inner loop over \<open>j < resultlen\<close>:
\<close>

function mul_add :: "nat \<Rightarrow> nat \<Rightarrow> u32 \<Rightarrow> bytes \<Rightarrow> u32 \<times> bytes" where
  "mul_add j resultlen carry result =
     (if j < resultlen
      then let carry' = carry + ucast (result ! j) * 58
           in mul_add (Suc j) resultlen (drop_bit 8 carry') (result[j := ucast (carry' AND 0xff)])
      else (carry, result))"
  by pat_completeness auto
termination
  by (relation "measure (\<lambda>(j, n, c, r). n - j)") auto

declare mul_add.simps [simp del]

text \<open>\<open>while (carry > 0) { result[resultlen++] = carry & 0xff; carry >>= 8; }\<close>\<close>

function push_carry :: "u32 \<Rightarrow> nat \<Rightarrow> bytes \<Rightarrow> (nat \<times> bytes) option" where
  "push_carry carry resultlen result =
     (if 0 < carry
      then if resultlen < length result
           then push_carry (drop_bit 8 carry) (Suc resultlen) (result[resultlen := ucast (carry AND 0xff)])
           else None
      else Some (resultlen, result))"
  by pat_completeness auto
termination
  by (relation "measure (\<lambda>(c, n, r). unat c)")
    (auto simp: unat_drop_bit_eq drop_bit_eq_div word_less_nat_alt unat_div)

declare push_carry.simps [simp del]

fun decode_chars :: "string \<Rightarrow> nat \<Rightarrow> bytes \<Rightarrow> (nat \<times> bytes) option" where
  "decode_chars [] resultlen result = Some (resultlen, result)"
| "decode_chars (c # cs) resultlen result =
     (if ord c < 128
      then let (carry, result1) = mul_add 0 resultlen (word_of_int (ALPHABET_MAP ! ord c)) result
           in case push_carry carry resultlen result1 of
                None \<Rightarrow> None
              | Some (n, result2) \<Rightarrow> decode_chars cs n result2
      else None)"

text \<open>\<open>for (int i = 0; i < len && str[i] == '1'; i++) result[resultlen++] = 0;\<close>\<close>

fun push_zeros :: "string \<Rightarrow> nat \<Rightarrow> bytes \<Rightarrow> (nat \<times> bytes) option" where
  "push_zeros [] resultlen result = Some (resultlen, result)"
| "push_zeros (c # cs) resultlen result =
     (if c = CHR ''1''
      then if resultlen < length result then push_zeros cs (Suc resultlen) (result[resultlen := 0]) else None
      else Some (resultlen, result))"

text \<open>The reversal: \<open>i\<close> runs down from \<open>resultlen - 1\<close> to \<open>z\<close>.\<close>

fun reverse_loop :: "nat \<Rightarrow> nat \<Rightarrow> nat \<Rightarrow> bytes \<Rightarrow> bytes" where
  "reverse_loop 0 z resultlen result = result"
| "reverse_loop (Suc i) z resultlen result =
     (if z \<le> i
      then reverse_loop i z resultlen
             (result[i := result ! (resultlen - i - 1), resultlen - i - 1 := result ! i])
      else result)"

definition DecodeBase58 :: "string \<Rightarrow> bytes \<Rightarrow> (nat \<times> bytes) option" where
  "DecodeBase58 str result =
     (if result = [] then None
      else case decode_chars str 1 (result[0 := 0]) of
        None \<Rightarrow> None
      | Some (n, result1) \<Rightarrow>
          (case push_zeros str n result1 of
             None \<Rightarrow> None
           | Some (resultlen, result2) \<Rightarrow>
               Some (resultlen,
                     reverse_loop resultlen (resultlen div 2 + resultlen mod 2) resultlen result2)))"

section \<open>From a public key to an account name\<close>

text \<open>
  \<open>shorten_key\<close>: the assertion \<open>i < 33\<close> aborts, and reading past the buffer is undefined;
  both are \<open>None\<close>.
\<close>

function shorten_loop :: "bytes \<Rightarrow> nat \<Rightarrow> nat \<Rightarrow> u64 \<Rightarrow> u64 option" where
  "shorten_loop key i len res =
     (if len \<le> 12
      then if i < 33 \<and> i < length key
           then let trimmed_char = (ucast (key ! i) :: u64) AND (if len = 12 then 0x0f else 0x1f) in
                if trimmed_char = 0 then shorten_loop key (Suc i) len res
                else shorten_loop key (Suc i) (Suc len)
                       (res OR push_bit (if len = 12 then 0 else 5 * (12 - len) - 1) trimmed_char)
           else None
      else Some res)"
  by pat_completeness auto
termination
  by (relation "measure (\<lambda>(key, i, len, res). 33 - i)") auto

declare shorten_loop.simps [simp del]

definition shorten_key :: "bytes \<Rightarrow> u64 option" where
  "shorten_key key = shorten_loop key 1 0 0"

text \<open>
  \<open>key_to_account\<close>: the 37 bytes of the buffer are uninitialised, \<open>fresh\<close> is what the
  allocation holds. \<open>name_to_string\<close> is the conversion of \<open>eosio::chain::name\<close>, which the
  repository declares only. \<open>erase(0, 3)\<close> drops the prefix. There are two ways to fail: the
  decoder leaves an array, which is undefined, or \<open>shorten_key\<close> finds too few bytes that are not
  zero, which its assertion catches.
\<close>

datatype key_failure = Outside_array | Assertion_failed

definition key_to_account :: "(u64 \<Rightarrow> string) \<Rightarrow> bytes \<Rightarrow> string \<Rightarrow> key_failure + string" where
  "key_to_account name_to_string fresh pubkey =
     (case DecodeBase58 (drop 3 pubkey) (take 37 fresh) of
        None \<Rightarrow> Inl Outside_array
      | Some (n, pub_key_bytes) \<Rightarrow> (case shorten_key pub_key_bytes of
          None \<Rightarrow> Inl Assertion_failed
        | Some res \<Rightarrow> Inr (take 12 (name_to_string res))))"

section \<open>Correctness of the base-58 decoder\<close>

text \<open>Little-endian and big-endian values, and the value a base-58 string denotes.\<close>

fun le_val :: "bytes \<Rightarrow> nat" where
  "le_val [] = 0"
| "le_val (b # bs) = unat b + 256 * le_val bs"

definition be_val :: "bytes \<Rightarrow> nat" where
  "be_val bs = le_val (rev bs)"

definition b58_char :: "char \<Rightarrow> bool" where
  "b58_char c \<longleftrightarrow> ord c < 128 \<and> 0 \<le> ALPHABET_MAP ! ord c"

definition b58_digit :: "char \<Rightarrow> nat" where
  "b58_digit c = nat (ALPHABET_MAP ! ord c)"

definition b58_val :: "nat \<Rightarrow> string \<Rightarrow> nat" where
  "b58_val = foldl (\<lambda>v c. 58 * v + b58_digit c)"

lemma b58_val_simps [simp]:
  "b58_val v [] = v" "b58_val v (c # cs) = b58_val (58 * v + b58_digit c) cs"
  by (simp_all add: b58_val_def)

lemma b58_val_mono: "v \<le> b58_val v cs"
proof (induction cs arbitrary: v)
  case (Cons c cs)
  have "v \<le> 58 * v + b58_digit c" by simp
  also have "\<dots> \<le> b58_val (58 * v + b58_digit c) cs" by (rule Cons.IH)
  finally show ?case by simp
qed simp

lemma alphabet_bound: "x \<in> set ALPHABET_MAP \<Longrightarrow> x \<le> 57"
  by (auto simp: ALPHABET_MAP_def)

lemma alphabet_length: "length ALPHABET_MAP = 128"
  by (simp add: ALPHABET_MAP_def)

lemma b58_digit_le: "b58_char c \<Longrightarrow> b58_digit c \<le> 57"
  using alphabet_bound [of "ALPHABET_MAP ! ord c"] alphabet_length
  by (simp add: b58_char_def b58_digit_def)

lemma b58_digit_word: "b58_char c \<Longrightarrow> word_of_int (ALPHABET_MAP ! ord c) = (of_nat (b58_digit c) :: u32)"
  by (simp add: b58_char_def b58_digit_def)

text \<open>The inner loop as a function of the bytes it visits.\<close>

fun mul58 :: "u32 \<Rightarrow> bytes \<Rightarrow> u32 \<times> bytes" where
  "mul58 c [] = (c, [])"
| "mul58 c (b # bs) =
     (let c' = c + ucast b * 58; (d, ys) = mul58 (drop_bit 8 c') bs in (d, ucast (c' AND 0xff) # ys))"

lemma mul_add_mul58:
  "j \<le> n \<Longrightarrow> n \<le> length r \<Longrightarrow>
     mul_add j n c r =
       (fst (mul58 c (drop j (take n r))), take j r @ snd (mul58 c (drop j (take n r))) @ drop n r)"
proof (induction j n c r rule: mul_add.induct)
  case (1 j n c r)
  show ?case
  proof (cases "j < n")
    case True
    let ?c = "c + ucast (r ! j) * 58"
    let ?r = "r[j := ucast (?c AND 0xff)]"
    have IH: "mul_add (Suc j) n (drop_bit 8 ?c) ?r =
        (fst (mul58 (drop_bit 8 ?c) (drop (Suc j) (take n ?r))),
         take (Suc j) ?r @ snd (mul58 (drop_bit 8 ?c) (drop (Suc j) (take n ?r))) @ drop n ?r)"
      using "1.IH" [OF True refl] True "1.prems" by simp
    have split: "drop j (take n r) = r ! j # drop (Suc j) (take n r)"
      using True "1.prems" by (subst Cons_nth_drop_Suc [symmetric]) auto
    have "take (Suc j) ?r = take j r @ [ucast (?c AND 0xff)]"
      using True "1.prems" by (simp add: take_Suc_conv_app_nth [of j ?r])
    moreover have "drop (Suc j) (take n ?r) = drop (Suc j) (take n r)" and "drop n ?r = drop n r"
      using True "1.prems" by (auto simp: take_update_swap drop_update_swap)
    ultimately show ?thesis
      using True IH by (subst mul_add.simps) (simp add: Let_def split case_prod_beta)
  next
    case False
    then show ?thesis using "1.prems" by (subst mul_add.simps) auto
  qed
qed

lemma u8_lt: "unat (b :: u8) < 256"
  by (rule order_less_le_trans [OF unsigned_less]) simp

lemma widen_u8: "unat (ucast (b :: u8) :: u32) = unat b"
  using u8_lt [of b] by (simp add: unsigned_ucast_eq take_bit_nat_eq_self)

lemma carry_high: "unat (drop_bit 8 (c :: u32)) = unat c div 256"
  by (simp only: unat_drop_bit_eq) (simp add: drop_bit_eq_div)

lemma carry_low: "unat (ucast (c AND 0xff :: u32) :: u8) = unat c mod 256"
proof -
  have "c AND 0xff = take_bit 8 c" by (simp add: take_bit_eq_mask mask_eq_exp_minus_1)
  then show ?thesis by (simp add: unsigned_ucast_eq unsigned_take_bit_eq) (simp add: take_bit_eq_mod)
qed

lemma mul58_val:
  "unat c \<le> 57 \<Longrightarrow> mul58 c bs = (d, ys) \<Longrightarrow>
     unat d \<le> 57 \<and> length ys = length bs \<and> le_val ys + 256 ^ length bs * unat d = 58 * le_val bs + unat c"
proof (induction c bs arbitrary: d ys rule: mul58.induct)
  case (2 c b bs)
  let ?c = "c + ucast b * 58"
  have b: "unat b \<le> 255" using u8_lt [of b] by simp
  have c': "unat ?c = unat c + unat b * 58"
    using b "2.prems"(1) by (simp add: unat_word_ariths widen_u8)
  have hi: "unat (drop_bit 8 ?c) = unat ?c div 256"
    by (rule carry_high)
  have lo: "unat (ucast (?c AND 0xff) :: u8) = unat ?c mod 256"
    by (rule carry_low)
  obtain e zs where rec: "mul58 (drop_bit 8 ?c) bs = (e, zs)" by fastforce
  have small: "unat (drop_bit 8 ?c) \<le> 57" using hi c' b "2.prems"(1) by simp
  note IH = "2.IH" [OF refl small rec]
  have "d = e" and ys: "ys = ucast (?c AND 0xff) # zs"
    using "2.prems"(2) rec by (simp_all add: Let_def)
  let ?m = "unat ?c" and ?p = "256 ^ length bs"
  have "le_val zs + ?p * unat e = 58 * le_val bs + ?m div 256"
    using IH hi by simp
  then have "256 * le_val zs + 256 * (?p * unat e) = 256 * (58 * le_val bs) + 256 * (?m div 256)"
    by (metis distrib_left)
  moreover have "?m mod 256 + 256 * (?m div 256) = ?m" by simp
  ultimately have "?m mod 256 + 256 * le_val zs + 256 * (?p * unat e) = 58 * (256 * le_val bs) + ?m"
    by linarith
  then show ?case using IH lo c' by (simp add: \<open>d = e\<close> ys mult.assoc)
qed simp

text \<open>One character multiplies the number in the first \<open>n\<close> bytes by 58 and adds a digit.\<close>

lemma push_carry_small:
  assumes "unat carry \<le> 57"
  shows "push_carry carry n r =
    (if carry = 0 then Some (n, r)
     else if n < length r then Some (Suc n, r[n := ucast (carry AND 0xff)]) else None)"
proof -
  have "unat (drop_bit 8 carry) = 0" using assms by (simp add: carry_high)
  then have gone: "drop_bit 8 carry = 0" by (simp only: unat_eq_0)
  have "push_carry 0 m q = Some (m, q)" for m q by (subst push_carry.simps) simp
  then show ?thesis by (subst push_carry.simps) (simp add: gone word_neq_0_conv)
qed

lemma le_val_append: "le_val (xs @ ys) = le_val xs + 256 ^ length xs * le_val ys"
  by (induction xs) (simp_all add: algebra_simps)

lemma le_val_lt: "le_val bs < 256 ^ length bs"
proof (induction bs)
  case (Cons b bs)
  then have "le_val bs + 1 \<le> 256 ^ length bs" by simp
  then have "256 * (le_val bs + 1) \<le> 256 * 256 ^ length bs" by (rule mult_le_mono2)
  then show ?case using u8_lt [of b] by simp
qed simp

text \<open>The number held, with no superfluous high byte.\<close>

definition holds :: "nat \<Rightarrow> bytes \<Rightarrow> nat \<Rightarrow> bool" where
  "holds n r v \<longleftrightarrow> 1 \<le> n \<and> n \<le> length r \<and> le_val (take n r) = v \<and> (1 < n \<longrightarrow> 256 ^ (n - 1) \<le> v)"

lemma one_char:
  assumes c: "b58_char c" and r: "holds n r v"
    and step: "mul_add 0 n (word_of_int (ALPHABET_MAP ! ord c)) r = (carry, r1)"
  shows "case push_carry carry n r1 of
      None \<Rightarrow> 256 ^ length r \<le> 58 * v + b58_digit c
    | Some (n', r2) \<Rightarrow> length r2 = length r \<and> holds n' r2 (58 * v + b58_digit c)"
proof -
  let ?d = "of_nat (b58_digit c) :: u32"
  have d: "unat ?d = b58_digit c" using b58_digit_le [OF c] by (simp add: unat_of_nat)
  obtain e ys where m: "mul58 ?d (take n r) = (e, ys)" by fastforce
  have v: "unat e \<le> 57" "length ys = n" "le_val ys + 256 ^ n * unat e = 58 * v + b58_digit c"
    using mul58_val [OF _ m] r d b58_digit_le [OF c] by (simp_all add: holds_def)
  have r1: "carry = e" "r1 = ys @ drop n r"
    using step mul_add_mul58 [of 0 n r ?d] m r by (simp_all add: b58_digit_word [OF c] holds_def)
  have old: "1 < n \<longrightarrow> 256 ^ (n - 1) \<le> 58 * v + b58_digit c" using r by (auto simp: holds_def)
  show ?thesis
  proof (cases "e = 0")
    case True
    then show ?thesis using v r1 r old by (simp add: push_carry_small holds_def)
  next
    case False
    then have e: "1 \<le> unat e" using unat_eq_0 [of e] by linarith
    have low: "unat (ucast (e AND 0xff) :: u8) = unat e" using v(1) by (simp add: carry_low)
    have big: "256 ^ n \<le> 58 * v + b58_digit c"
    proof -
      have "256 ^ n * 1 \<le> 256 ^ n * unat e" using e by (rule mult_le_mono2)
      then show ?thesis using v(3) by linarith
    qed
    show ?thesis
    proof (cases "n < length r")
      case True
      have "take (Suc n) ((ys @ drop n r)[n := ucast (e AND 0xff)]) = ys @ [ucast (e AND 0xff)]"
        using True v(2) by (simp add: take_Suc_conv_app_nth list_update_append)
      then show ?thesis using False True v r1 r low big
        by (simp add: push_carry_small holds_def le_val_append)
    next
      case False
      then have "n = length r" using r by (simp add: holds_def)
      then show ?thesis using \<open>e \<noteq> 0\<close> v r1 big by (simp add: push_carry_small)
    qed
  qed
qed

lemma decode_chars_val:
  "list_all b58_char cs \<Longrightarrow> holds n r v \<Longrightarrow>
   (case decode_chars cs n r of
      None \<Rightarrow> 256 ^ length r \<le> b58_val v cs
    | Some (n', r') \<Rightarrow> length r' = length r \<and> holds n' r' (b58_val v cs))"
proof (induction cs arbitrary: n r v)
  case (Cons c cs)
  obtain carry r1 where m: "mul_add 0 n (word_of_int (ALPHABET_MAP ! ord c)) r = (carry, r1)" by fastforce
  have c: "b58_char c" using Cons.prems(1) by simp
  note step = one_char [OF c Cons.prems(2) m]
  have ascii: "ord c < 128" using c by (simp add: b58_char_def)
  show ?case
  proof (cases "push_carry carry n r1")
    case None
    then have "256 ^ length r \<le> 58 * v + b58_digit c" using step by simp
    also have "\<dots> \<le> b58_val (58 * v + b58_digit c) cs" by (rule b58_val_mono)
    finally show ?thesis using None m ascii by simp
  next
    case (Some q)
    obtain n' r2 where q: "q = (n', r2)" by fastforce
    then have "length r2 = length r" "holds n' r2 (58 * v + b58_digit c)" using step Some by auto
    with Cons.IH [of n' r2 "58 * v + b58_digit c"] Cons.prems(1) show ?thesis
      using Some q m ascii by (simp split: option.splits prod.splits)
  qed
qed simp

definition leading_ones :: "string \<Rightarrow> nat" where
  "leading_ones str = length (takeWhile (\<lambda>c. c = CHR ''1'') str)"

lemma push_zeros_eq:
  "n \<le> length r \<Longrightarrow> push_zeros cs n r =
     (if n + leading_ones cs \<le> length r
      then Some (n + leading_ones cs, take n r @ replicate (leading_ones cs) 0 @ drop (n + leading_ones cs) r)
      else None)"
proof (induction cs n r rule: push_zeros.induct)
  case (2 c cs n r)
  show ?case
  proof (cases "c = CHR ''1'' \<and> n < length r")
    case True
    then have "take (Suc n) (r[n := 0]) = take n r @ [0]"
      by (simp add: take_Suc_conv_app_nth)
    moreover have "drop (Suc (n + leading_ones cs)) (r[n := 0]) = drop (Suc (n + leading_ones cs)) r"
      by (simp add: drop_update_cancel)
    ultimately show ?thesis using "2.IH" True by (simp add: leading_ones_def replicate_append_same)
  next
    case False
    then show ?thesis using "2.prems" by (auto simp: leading_ones_def)
  qed
qed (simp add: leading_ones_def)

text \<open>The loop of swaps reverses the first \<open>n\<close> bytes.\<close>

lemma reverse_loop_nth:
  "n div 2 + n mod 2 = z \<Longrightarrow> k \<le> n \<Longrightarrow> n \<le> length r \<Longrightarrow>
     length (reverse_loop k z n r) = length r \<and>
     (\<forall>p < length r. reverse_loop k z n r ! p =
        (if p < n \<and> (z \<le> p \<and> p < k \<or> z \<le> n - p - 1 \<and> n - p - 1 < k) then r ! (n - p - 1) else r ! p))"
proof (induction k z n r rule: reverse_loop.induct)
  case (2 i z n r)
  show ?case
  proof (cases "z \<le> i")
    case True
    let ?r = "r[i := r ! (n - i - 1), n - i - 1 := r ! i]"
    have IH: "length (reverse_loop i z n ?r) = length ?r"
      "\<And>p. p < length ?r \<Longrightarrow> reverse_loop i z n ?r ! p =
        (if p < n \<and> (z \<le> p \<and> p < i \<or> z \<le> n - p - 1 \<and> n - p - 1 < i) then ?r ! (n - p - 1) else ?r ! p)"
      using "2.IH" [OF True "2.prems"(1)] "2.prems"(2,3) by simp_all
    let ?j = "n - i - 1"
    have z: "n \<le> 2 * z" "2 * z \<le> n + 1" using "2.prems"(1) by arith+
    have swap: "?r ! q = (if q = ?j then r ! i else if q = i then r ! ?j else r ! q)" if "q < length r" for q
      using that "2.prems"(2,3) by (simp add: nth_list_update)
    have "reverse_loop (Suc i) z n r ! p =
        (if p < n \<and> (z \<le> p \<and> p < Suc i \<or> z \<le> n - p - 1 \<and> n - p - 1 < Suc i)
         then r ! (n - p - 1) else r ! p)" if p: "p < length r" for p
    proof -
      have unfold: "reverse_loop (Suc i) z n r ! p = reverse_loop i z n ?r ! p" using True by simp
      consider "n \<le> p" | "p = i" | "p = ?j" "p \<noteq> i" | "p < n" "p \<noteq> i" "p \<noteq> ?j" by linarith
      then show ?thesis
      proof cases
        case 1
        then show ?thesis using unfold IH(2) [of p] swap [OF p] p "2.prems"(2) by simp
      next
        case 2
        then have c: "\<not> (z \<le> ?j \<and> ?j < i)" "p < n" using z True "2.prems"(2) by arith+
        then have "reverse_loop i z n ?r ! p = ?r ! p"
          using IH(2) [of p] p 2 by (simp only: length_list_update less_irrefl simp_thms if_False)
        moreover have "?r ! p = r ! ?j" using swap [OF p] 2 by simp
        ultimately show ?thesis using unfold c True 2 by simp
      next
        case 3
        then have c: "\<not> (z \<le> p \<and> p < i)" "n - p - 1 = i" "p < n" using z True "2.prems"(2) by arith+
        then have "reverse_loop i z n ?r ! p = ?r ! p"
          using IH(2) [of p] p by (simp only: length_list_update less_irrefl simp_thms if_False)
        moreover have "?r ! p = r ! i" using swap [OF p] 3(1) by (simp only: if_True simp_thms)
        ultimately show ?thesis using unfold c True by simp
      next
        case 4
        then have ne: "n - p - 1 \<noteq> i" "n - p - 1 \<noteq> ?j" "n - p - 1 < length r"
          using "2.prems"(2,3) by arith+
        then show ?thesis
          using 4 unfold IH(2) [of p] swap [OF p] swap [of "n - p - 1"] p by (simp add: less_Suc_eq)
      qed
    qed
    then show ?thesis using IH(1) True by simp
  next
    case False
    then have "reverse_loop (Suc i) z n r = r" by simp
    then show ?thesis using False by auto
  qed
qed auto

lemma reverse_loop_rev:
  assumes "n \<le> length r"
  shows "reverse_loop n (n div 2 + n mod 2) n r = rev (take n r) @ drop n r"
proof -
  define z where "z = n div 2 + n mod 2"
  have z: "n \<le> 2 * z" "2 * z \<le> n + 1" unfolding z_def by presburger+
  have len: "length (reverse_loop n z n r) = length r"
    and nth: "\<forall>p < length r. reverse_loop n z n r ! p =
        (if p < n \<and> (z \<le> p \<and> p < n \<or> z \<le> n - p - 1 \<and> n - p - 1 < n) then r ! (n - p - 1) else r ! p)"
    using reverse_loop_nth [OF z_def [symmetric] order_refl assms] by (rule conjunct1, rule conjunct2)
  have "reverse_loop n z n r = rev (take n r) @ drop n r"
  proof (rule nth_equalityI)
    show "length (reverse_loop n z n r) = length (rev (take n r) @ drop n r)" using len assms by simp
    fix p assume "p < length (reverse_loop n z n r)"
    then have p: "p < length r" using len by simp
    show "reverse_loop n z n r ! p = (rev (take n r) @ drop n r) ! p"
    proof (cases "p < n")
      case True
      then have r: "(rev (take n r) @ drop n r) ! p = r ! (n - p - 1)"
        using assms by (simp add: nth_append rev_nth)
      have "z \<le> p \<or> z \<le> n - p - 1 \<or> n - p - 1 = p" using z True by linarith
      then show ?thesis using nth [rule_format, OF p] r True by auto
    next
      case False
      then show ?thesis using nth [rule_format, OF p] p assms by (simp add: nth_append)
    qed
  qed
  then show ?thesis by (simp only: z_def)
qed

lemma holds_zero: "r \<noteq> [] \<Longrightarrow> holds 1 (r[0 := 0]) 0"
  by (cases r) (simp_all add: holds_def)

lemma DecodeBase58_cases:
  assumes "list_all b58_char str" and "result \<noteq> []"
  shows "case DecodeBase58 str result of
      None \<Rightarrow> 256 ^ length result \<le> b58_val 0 str \<or>
        (\<exists>n r. holds n r (b58_val 0 str) \<and> length r = length result \<and> length result < n + leading_ones str)
    | Some (resultlen, out) \<Rightarrow> \<exists>n r. holds n r (b58_val 0 str) \<and> length r = length result
        \<and> resultlen = n + leading_ones str \<and> resultlen \<le> length result
        \<and> out = rev (take n r @ replicate (leading_ones str) 0) @ drop resultlen r"
proof (cases "decode_chars str 1 (result[0 := 0])")
  case None
  then show ?thesis
    using decode_chars_val [OF assms(1) holds_zero [OF assms(2)]] assms(2)
    by (simp add: DecodeBase58_def)
next
  case (Some q)
  obtain n r where q: "q = (n, r)" by fastforce
  then have r: "length r = length result" "holds n r (b58_val 0 str)" "n \<le> length r"
    using decode_chars_val [OF assms(1) holds_zero [OF assms(2)]] Some by (auto simp: holds_def)
  show ?thesis
  proof (cases "n + leading_ones str \<le> length r")
    case True
    then have "DecodeBase58 str result =
        Some (n + leading_ones str,
              rev (take n r @ replicate (leading_ones str) 0) @ drop (n + leading_ones str) r)"
      using Some q r(3) assms(2) by (simp add: DecodeBase58_def push_zeros_eq reverse_loop_rev)
    then show ?thesis using r True by auto
  next
    case False
    then have "DecodeBase58 str result = None"
      using Some q r(3) assms(2) by (simp add: DecodeBase58_def push_zeros_eq)
    moreover have "\<exists>n r. holds n r (b58_val 0 str) \<and> length r = length result
        \<and> length result < n + leading_ones str"
      using r False by (intro exI [of _ n] exI [of _ r]) simp
    ultimately show ?thesis by simp
  qed
qed

lemma DecodeBase58_length:
  assumes "DecodeBase58 str result = Some (resultlen, out)" and "list_all b58_char str"
  shows "length out = length result"
proof -
  have "result \<noteq> []" using assms(1) by (auto simp: DecodeBase58_def)
  then show ?thesis using DecodeBase58_cases [OF assms(2), of result] assms(1) by auto
qed

text \<open>
  C19: on a base-58 string the decoder, whenever it stays inside the buffer, leaves the
  big-endian bytes of the number the string denotes, led by one zero byte per leading '1'.
\<close>

theorem DecodeBase58_correct:
  assumes "list_all b58_char str" and "DecodeBase58 str result = Some (resultlen, out)"
  shows "be_val (take resultlen out) = b58_val 0 str
    \<and> take (leading_ones str) out = replicate (leading_ones str) 0
    \<and> length out = length result \<and> resultlen \<le> length result"
proof -
  have "result \<noteq> []" using assms(2) by (auto simp: DecodeBase58_def)
  have "\<exists>n r. holds n r (b58_val 0 str) \<and> length r = length result
      \<and> resultlen = n + leading_ones str \<and> resultlen \<le> length result
      \<and> out = rev (take n r @ replicate (leading_ones str) 0) @ drop resultlen r"
    using DecodeBase58_cases [OF assms(1) \<open>result \<noteq> []\<close>] assms(2) by simp
  then obtain n r where
    r: "holds n r (b58_val 0 str)" "length r = length result" "resultlen = n + leading_ones str"
       "resultlen \<le> length result" "out = rev (take n r @ replicate (leading_ones str) 0) @ drop resultlen r"
    by blast
  have "take resultlen out = rev (take n r @ replicate (leading_ones str) 0)"
    using r by simp
  moreover have "le_val (replicate k 0) = 0" for k by (induction k) simp_all
  ultimately have "be_val (take resultlen out) = b58_val 0 str"
    using r(1) by (simp add: be_val_def le_val_append holds_def)
  then show ?thesis using r by simp
qed

theorem DecodeBase58_correct_witness:
  "list_all b58_char ''15Q'' \<and> DecodeBase58 ''15Q'' [7, 7, 7, 7, 7] = Some (2, [0, 255, 7, 7, 7])
   \<and> be_val (take 2 [0, 255, 7, 7, 7]) = b58_val 0 ''15Q''"
proof -
  have h: "list_all b58_char ''15Q''" "DecodeBase58 ''15Q'' [7, 7, 7, 7, 7] = Some (2, [0, 255, 7, 7, 7])"
    by code_simp+
  show ?thesis using DecodeBase58_correct [OF h] h by simp
qed

text \<open>The decoder stays inside the buffer when the number leaves room for the zero bytes.\<close>

lemma decode_in_bounds:
  assumes "list_all b58_char str" and "b58_val 0 str < 256 ^ k" and "1 \<le> k"
    and "k + leading_ones str \<le> length result"
  shows "\<exists>resultlen out. DecodeBase58 str result = Some (resultlen, out) \<and> resultlen \<le> k + leading_ones str"
proof -
  have ne: "result \<noteq> []" using assms(3,4) by auto
  have len: "n \<le> k" if "holds n r (b58_val 0 str)" for n r
  proof (rule ccontr)
    assume "\<not> n \<le> k"
    then have "256 ^ k \<le> (256 :: nat) ^ (n - 1)" by (intro power_increasing) auto
    moreover have "256 ^ (n - 1) \<le> b58_val 0 str"
      using that \<open>\<not> n \<le> k\<close> assms(3) by (simp add: holds_def)
    ultimately show False using assms(2) by linarith
  qed
  have "(256 :: nat) ^ k \<le> 256 ^ length result" using assms(4) by (intro power_increasing) auto
  then have fits: "\<not> 256 ^ length result \<le> b58_val 0 str" using assms(2) by linarith
  show ?thesis
  proof (cases "DecodeBase58 str result")
    case None
    then obtain n r where "holds n r (b58_val 0 str)" "length result < n + leading_ones str"
      using DecodeBase58_cases [OF assms(1) ne] fits by auto
    then show ?thesis using len assms(4) by fastforce
  next
    case (Some q)
    obtain resultlen out where q: "q = (resultlen, out)" by fastforce
    then obtain n r where "holds n r (b58_val 0 str)" "resultlen = n + leading_ones str"
      using DecodeBase58_cases [OF assms(1) ne] Some by auto
    then show ?thesis using len Some q by auto
  qed
qed

section \<open>Keys and accounts\<close>

lemma b58_val_lt: "list_all b58_char cs \<Longrightarrow> b58_val v cs < 58 ^ length cs * (v + 1)"
proof (induction cs arbitrary: v)
  case (Cons c cs)
  have "58 * v + b58_digit c + 1 \<le> 58 * (v + 1)" using b58_digit_le [of c] Cons.prems by simp
  then have "58 ^ length cs * (58 * v + b58_digit c + 1) \<le> 58 ^ length cs * (58 * (v + 1))"
    by (rule mult_le_mono2)
  moreover have "b58_val (58 * v + b58_digit c) cs < 58 ^ length cs * (58 * v + b58_digit c + 1)"
    using Cons.IH [of "58 * v + b58_digit c"] Cons.prems by simp
  ultimately have "b58_val (58 * v + b58_digit c) cs < 58 ^ length cs * (58 * (v + 1))"
    by (rule order_less_le_trans [rotated])
  then show ?case by (simp only: b58_val_simps list.size power_add power_one_right mult.assoc)
      (simp add: mult.commute mult.left_commute)
qed simp

text \<open>The bytes of a key as \<open>shorten_key\<close> sees them: the low five bits, zeros skipped.\<close>

definition key_symbols :: "nat \<Rightarrow> bytes \<Rightarrow> u64 list" where
  "key_symbols i key = filter (\<lambda>x. x \<noteq> 0) (map (\<lambda>b. ucast b AND 0x1f) (drop i (take 33 key)))"

lemma key_symbols_step:
  "i < 33 \<Longrightarrow> i < length key \<Longrightarrow> key_symbols i key =
     (if (ucast (key ! i) :: u64) AND 0x1f = 0 then key_symbols (Suc i) key
      else (ucast (key ! i) AND 0x1f) # key_symbols (Suc i) key)"
  unfolding key_symbols_def by (subst Cons_nth_drop_Suc [symmetric]) auto

lemma name_slot_or: "name_slot (a OR b) l = name_slot a l OR name_slot b l"
  by (simp add: name_slot_take_bit drop_bit_or take_bit_or)

lemma name_slot_push:
  assumes t: "take_bit 5 t = t" and "len < 12" and "l < 12"
  shows "name_slot (push_bit (5 * (12 - len) - 1) t) l = (if l = len then t else 0)"
proof (rule bit_word_eqI)
  fix n :: nat assume n: "n < LENGTH(64)"
  define sh where "sh = 5 * (12 - len) - 1"
  define q where "q = 64 - 5 * (l + 1)"
  have q: "q + 5 * l = 59" and sh: "sh + 5 * len = 59" using assms(2,3) by (simp_all add: q_def sh_def)
  have lt5: "bit t m \<Longrightarrow> m < 5" for m using t by (metis bit_take_bit_iff)
  have bits: "bit (name_slot (push_bit sh t) l) n \<longleftrightarrow> n < 5 \<and> sh \<le> q + n \<and> bit t (q + n - sh)"
    using assms(3) by (auto simp: name_slot_take_bit q_def [symmetric] bit_take_bit_iff bit_drop_bit_eq
        bit_push_bit_iff q_def)
  have "bit (name_slot (push_bit sh t) l) n \<longleftrightarrow> bit (if l = len then t else 0) n"
  proof (cases "l = len")
    case True
    then have "q = sh" using q sh by simp
    then show ?thesis using True bits lt5 by auto
  next
    case False
    have "\<not> (n < 5 \<and> sh \<le> q + n \<and> q + n - sh < 5)"
    proof
      assume a: "n < 5 \<and> sh \<le> q + n \<and> q + n - sh < 5"
      then have "q + n < sh + 5" by linarith
      with a q sh have "l = len" by linarith
      with False show False ..
    qed
    then show ?thesis using False bits lt5 by auto
  qed
  then show "bit (name_slot (push_bit (5 * (12 - len) - 1) t) l) n \<longleftrightarrow> bit (if l = len then t else 0) n"
    by (simp only: sh_def)
qed

lemma name_slot_low: "l < 12 \<Longrightarrow> name_slot (x AND 0x0f) l = 0"
proof (rule bit_word_eqI)
  fix n :: nat assume "l < 12"
  have "x AND 0x0f = take_bit 4 x" by (simp add: take_bit_eq_mask mask_eq_exp_minus_1)
  with \<open>l < 12\<close> show "bit (name_slot (x AND 0x0f) l) n \<longleftrightarrow> bit (0 :: u64) n"
    by (auto simp: name_slot_take_bit bit_take_bit_iff bit_drop_bit_eq)
qed

lemma shorten_loop_slots:
  "shorten_loop key i len res = Some out \<Longrightarrow> l < 12 \<Longrightarrow>
     (\<forall>m. len \<le> m \<and> m < 12 \<longrightarrow> name_slot res m = 0) \<Longrightarrow>
     (if l < len then name_slot out l = name_slot res l
      else l - len < length (key_symbols i key) \<and> name_slot out l = key_symbols i key ! (l - len))"
proof (induction key i len res rule: shorten_loop.induct)
  case (1 key i len res)
  show ?case
  proof (cases "len \<le> 12")
    case False
    then have "out = res" using "1.prems"(1) by (simp add: shorten_loop.simps)
    then show ?thesis using False "1.prems"(2) by simp
  next
    case True
    define t where "t = (ucast (key ! i) :: u64) AND (if len = 12 then 0x0f else 0x1f)"
    define res' where "res' = res OR push_bit (if len = 12 then 0 else 5 * (12 - len) - 1) t"
    have i: "i < 33 \<and> i < length key"
      using "1.prems"(1) True by (subst (asm) shorten_loop.simps) (auto split: if_splits)
    have eq: "shorten_loop key i len res =
        (if t = 0 then shorten_loop key (Suc i) len res else shorten_loop key (Suc i) (Suc len) res')"
      using True i by (subst shorten_loop.simps) (simp add: Let_def t_def res'_def)
    note IH = "1.IH" [OF \<open>len \<le> 12\<close> i t_def, folded res'_def]
    show ?thesis
    proof (cases "len = 12")
      case True
      have "name_slot res' m = name_slot res m" if "m < 12" for m
        using True that by (simp add: res'_def t_def name_slot_or name_slot_low)
      then show ?thesis
        using IH eq "1.prems" True by (auto split: if_splits)
    next
      case False
      then have t: "t = ucast (key ! i) AND 0x1f" by (simp add: t_def)
      have t5: "take_bit 5 t = t" unfolding t by (simp add: take_bit_eq_mask mask_eq_exp_minus_1 and.assoc)
      have slot: "name_slot res' m = (if m = len then t else name_slot res m)" if "m < 12" for m
        using name_slot_push [OF t5 _ that, of len] False \<open>len \<le> 12\<close> "1.prems"(3) that
        by (simp add: name_slot_or res'_def)
      note sym = key_symbols_step [of i key, folded t]
      show ?thesis
      proof (cases "t = 0")
        case True
        then show ?thesis using IH(1) [OF True] eq "1.prems" sym i by simp
      next
        case nz: False
        have "shorten_loop key (Suc i) (Suc len) res' = Some out" using eq nz "1.prems"(1) by simp
        moreover have "\<forall>m. Suc len \<le> m \<and> m < 12 \<longrightarrow> name_slot res' m = 0" using slot "1.prems"(3) by simp
        ultimately have IH': "if l < Suc len then name_slot out l = name_slot res' l
            else l - Suc len < length (key_symbols (Suc i) key)
              \<and> name_slot out l = key_symbols (Suc i) key ! (l - Suc len)"
          using IH(2) [OF nz _ "1.prems"(2)] by blast
        have sym': "key_symbols i key = t # key_symbols (Suc i) key" using sym i nz by simp
        consider "l < len" | "l = len" | "len < l" by linarith
        then show ?thesis
        proof cases
          case 1 then show ?thesis using IH' slot [OF "1.prems"(2)] by simp
        next
          case 2 then show ?thesis using IH' slot [OF "1.prems"(2)] sym' by simp
        next
          case 3
          then have "l - len = Suc (l - Suc len)" by simp
          then show ?thesis using 3 IH' sym' by simp
        qed
      qed
    qed
  qed
qed

text \<open>
  when \<open>shorten_key\<close> returns, the twelve characters of the account name are the first
  twelve non-zero five-bit values of the key bytes 1 to 32, so none of them is a dot.
\<close>

theorem shorten_key_slots:
  assumes "shorten_key key = Some res" and "l < 12"
  shows "l < length (key_symbols 1 key) \<and> name_slot res l = key_symbols 1 key ! l \<and> name_slot res l \<noteq> 0"
proof -
  have "name_slot 0 m = 0" for m by (simp add: name_slot_def)
  then have "l < length (key_symbols 1 key) \<and> name_slot res l = key_symbols 1 key ! l"
    using shorten_loop_slots [OF assms(1) [unfolded shorten_key_def] assms(2)] by simp
  moreover have "x \<in> set (key_symbols 1 key) \<Longrightarrow> x \<noteq> 0" for x by (auto simp: key_symbols_def)
  ultimately show ?thesis by (metis nth_mem)
qed

theorem shorten_key_slots_witness:
  "shorten_key (replicate 33 1) = Some 0x0842108421084211
   \<and> (11 :: nat) < 12
   \<and> 11 < length (key_symbols 1 (replicate 33 1)) \<and> name_slot 0x0842108421084211 11 \<noteq> 0"
proof -
  have h: "shorten_key (replicate 33 1) = Some 0x0842108421084211" by code_simp
  have l: "(11 :: nat) < 12" by simp
  show ?thesis using shorten_key_slots [OF h l] h l by blast
qed

lemma key_decode_fits_aux:
  assumes "list_all b58_char s" and "length s \<le> 50"
  shows "b58_val 0 s < 256 ^ 37"
proof -
  have "b58_val 0 s < 58 ^ length s" using b58_val_lt [OF assms(1), of 0] by simp
  also have "\<dots> \<le> 58 ^ 50" using assms(2) by (intro power_increasing) simp_all
  also have "\<dots> < (256 :: nat) ^ 37" by simp
  finally show ?thesis .
qed

text \<open>
  the 37-byte buffer of \<open>key_to_account\<close> is large enough for every base-58 key of at
  most 50 characters that does not start with '1'.
\<close>

theorem key_decode_fits:
  assumes "list_all b58_char (drop 3 pubkey)" and "length (drop 3 pubkey) \<le> 50"
    and "leading_ones (drop 3 pubkey) = 0" and "length fresh = 37"
  shows "\<exists>n out. DecodeBase58 (drop 3 pubkey) fresh = Some (n, out) \<and> length out = 37
    \<and> key_to_account f fresh pubkey = (case shorten_key out of
        None \<Rightarrow> Inl Assertion_failed | Some res \<Rightarrow> Inr (take 12 (f res)))"
proof -
  obtain n out where d: "DecodeBase58 (drop 3 pubkey) fresh = Some (n, out)"
    using decode_in_bounds [OF assms(1) key_decode_fits_aux [OF assms(1,2)], of fresh] assms(3,4)
    by auto
  moreover have "length out = length fresh"
    using d assms(1) by (rule DecodeBase58_length)
  ultimately show ?thesis using assms(4) by (simp add: key_to_account_def)
qed

theorem key_decode_fits_witness:
  "list_all b58_char (drop 3 ''FIO6abc'') \<and> length (drop 3 ''FIO6abc'') \<le> 50
   \<and> leading_ones (drop 3 ''FIO6abc'') = 0 \<and> length (replicate 37 (0 :: u8)) = 37
   \<and> (\<exists>n out. DecodeBase58 (drop 3 ''FIO6abc'') (replicate 37 0) = Some (n, out) \<and> length out = 37)"
proof -
  have h: "list_all b58_char (drop 3 ''FIO6abc'')" "leading_ones (drop 3 ''FIO6abc'') = 0"
    by code_simp+
  show ?thesis
    using key_decode_fits [of "''FIO6abc''" "replicate 37 0" "\<lambda>_. ''''"] h by auto
qed

text \<open>A buffer of twice the key's length is always large enough: the leading '1's add nothing to the value.\<close>

lemma b58_val_ones: "list_all b58_char str \<Longrightarrow> b58_val 0 str < 58 ^ (length str - leading_ones str)"
proof (induction str)
  case (Cons c cs)
  have "b58_digit CHR ''1'' = 0" by code_simp
  then show ?case
    using Cons b58_val_lt [of "c # cs" 0] by (cases "c = CHR ''1''") (simp_all add: leading_ones_def)
qed (simp add: leading_ones_def)

lemma decode_double_length:
  assumes "list_all b58_char str" and "str \<noteq> []" and "2 * length str \<le> length result"
  obtains resultlen out where "DecodeBase58 str result = Some (resultlen, out)" and "leading_ones str < resultlen"
proof -
  let ?k = "max 1 (length str - leading_ones str)"
  have ones: "leading_ones str \<le> length str" by (simp add: leading_ones_def length_takeWhile_le)
  have "b58_val 0 str < 58 ^ (length str - leading_ones str)" by (rule b58_val_ones [OF assms(1)])
  also have "\<dots> \<le> 256 ^ (length str - leading_ones str)" by (intro power_mono) simp_all
  also have "\<dots> \<le> (256 :: nat) ^ ?k" by (intro power_increasing) simp_all
  finally have fits: "b58_val 0 str < 256 ^ ?k" .
  have "length str > 0" using assms(2) by simp
  then have "?k + leading_ones str \<le> length result" using assms(3) ones by linarith
  then obtain resultlen out where d: "DecodeBase58 str result = Some (resultlen, out)"
    using decode_in_bounds [OF assms(1) fits max.cobounded1, of result] by blast
  have "result \<noteq> []" using assms(2,3) by auto
  then obtain n r where "holds n r (b58_val 0 str)" "resultlen = n + leading_ones str"
    using DecodeBase58_cases [OF assms(1), of result] d by auto
  then have "leading_ones str < resultlen" by (simp add: holds_def)
  with d show ?thesis by (rule that)
qed

text \<open>
  C20: A base-58 key with 37 or more leading '1' characters is decoded past the end of the
  37-byte buffer of \<open>key_to_account\<close>: it is the decoder that leaves the array, not the assertion
  of \<open>shorten_key\<close> that fails; and the buffer is the reason, since in every buffer of the size that
  the comment over \<open>DecodeBase58\<close> asks for, twice the length of the text, the decoder ends, with
  more than 37 bytes.
\<close>

theorem key_decode_overflow:
  assumes "list_all b58_char (drop 3 pubkey)" and "37 \<le> leading_ones (drop 3 pubkey)"
    and "length fresh = 37" and "2 * length (drop 3 pubkey) \<le> length large"
  shows "key_to_account f fresh pubkey = Inl Outside_array
    \<and> (\<exists>resultlen out. DecodeBase58 (drop 3 pubkey) large = Some (resultlen, out) \<and> 37 < resultlen)"
proof
  show "key_to_account f fresh pubkey = Inl Outside_array"
  proof (cases "DecodeBase58 (drop 3 pubkey) fresh")
    case None
    then show ?thesis using assms(3) by (simp add: key_to_account_def)
  next
    case (Some q)
    obtain resultlen out where q: "q = (resultlen, out)" by fastforce
    have "fresh \<noteq> []" using assms(3) by auto
    note DecodeBase58_cases [OF assms(1) this]
    then obtain n r where "holds n r (b58_val 0 (drop 3 pubkey))"
      "resultlen = n + leading_ones (drop 3 pubkey)" "resultlen \<le> length fresh"
      unfolding Some q option.case prod.case by blast
    then have "1 \<le> n" "n + leading_ones (drop 3 pubkey) \<le> 37" using assms(3) by (simp_all add: holds_def)
    then show ?thesis using assms(2) by linarith
  qed
  have "drop 3 pubkey \<noteq> []"
  proof
    assume "drop 3 pubkey = []"
    then have "leading_ones (drop 3 pubkey) = 0" by (simp only: leading_ones_def) simp
    with assms(2) show False by simp
  qed
  then obtain resultlen out where "DecodeBase58 (drop 3 pubkey) large = Some (resultlen, out)"
    "leading_ones (drop 3 pubkey) < resultlen"
    using decode_double_length [OF assms(1) _ assms(4)] by blast
  then show "\<exists>resultlen out. DecodeBase58 (drop 3 pubkey) large = Some (resultlen, out) \<and> 37 < resultlen"
    using assms(2) by fastforce
qed

theorem key_decode_overflow_witness:
  "key_to_account (\<lambda>_. '''') (replicate 37 0) (''FIO'' @ replicate 37 CHR ''1'') = Inl Outside_array
   \<and> (\<exists>resultlen out. DecodeBase58 (replicate 37 CHR ''1'') (replicate 74 0) = Some (resultlen, out) \<and> 37 < resultlen)"
proof -
  have h: "list_all b58_char (drop 3 (''FIO'' @ replicate 37 CHR ''1''))"
    "37 \<le> leading_ones (drop 3 (''FIO'' @ replicate 37 CHR ''1''))"
    by code_simp+
  show ?thesis using key_decode_overflow [OF h, of "replicate 37 0" "replicate 74 0" "\<lambda>_. ''''"] by simp
qed

text \<open>
  for an empty public key (which the exporter passes on when an action names no owner
  key) the account depends on the uninitialised bytes of the buffer.
\<close>

theorem empty_key_reads_uninitialised:
  "key_to_account f (replicate 37 0) '''' = Inl Assertion_failed
   \<and> (\<exists>name. key_to_account f (replicate 37 1) '''' = Inr name)"
proof -
  have "DecodeBase58 '''' (replicate 37 0) = Some (1, replicate 37 0)"
    and "DecodeBase58 '''' (replicate 37 1) = Some (1, 0 # replicate 36 1)"
    by code_simp+
  moreover have "shorten_key (replicate 37 0) = None"
    and "shorten_key (0 # replicate 36 1) = Some 0x0842108421084211"
    by code_simp+
  ultimately show ?thesis by (simp add: key_to_account_def)
qed

end
