(* ===== verification/RelicState.thy ===== *)
theory RelicState
  imports Decoder Names
begin

text \<open>
  The state of the PostgreSQL exporter, \<open>exp_relic_plugin_impl\<close>, and the steps that its
  handlers are made of: reading a JSON member, running a query, escaping a text, and ending
  with \<open>terminalerror\<close>.
\<close>

text \<open>
  The libraries: libpq, rapidjson, the printing of account names, and what the \<open>n\<close>-th buffer
  that \<open>key_to_account\<close> allocates holds.
\<close>

record 'pg relic_lib =
  pq :: "'pg libpq"
  rj :: rapidjson
  account_name :: "u64 \<Rightarrow> string"
  fresh_buffer :: "nat \<Rightarrow> bytes"

text \<open>What leaves the exporter, in order: the queries given to the database, and the acknowledgements.\<close>

datatype relic_effect = Query string | Ack u32

text \<open>
  \<open>relic_conn\<close> is \<open>None\<close> before \<open>PQconnectdb\<close> and after \<open>PQfinish\<close>: the pointer then must not
  be used. \<open>relic_timer\<close> is the wait in flight; a cancelled one is due at once.
  \<open>taken\<close> collects the messages taken from the queue, \<open>effects\<close> what they led to.
\<close>

record 'pg relic =
  relic_host :: string
  relic_port :: string
  relic_user :: string
  relic_password :: string
  relic_db :: string
  relic_bin_headers :: bool
  relic_maxunack :: u32
  relic_conn :: "'pg option"
  relic_subscriptions :: "(js_channel \<times> handler) list"
  relic_queue :: "bytes list"
  relic_msg :: "bytes option"
  relic_hwm :: u32
  relic_lwm :: u32
  relic_timer :: "u32 option"
  relic_pause_time :: u32
  relic_report_counter :: u32
  domainjsons :: "string list"
  handlejsons :: "string list"
  burnaddresses :: "string list"
  burnexpiredthisblock :: bool
  burnexpiredtrid :: u64
  burnexpiredtimestamp :: string
  taken :: "bytes list"
  effects :: "relic_effect list"

type_synonym ('db, 'ctx, 'pg, 'a) relic_op = "(('db, 'ctx) receiver \<times> 'pg relic, 'a) op"

definition rx :: "('pg relic \<Rightarrow> 'pg relic) \<Rightarrow> ('db, 'ctx, 'pg, unit) relic_op" where
  "rx f = updates (\<lambda>(s, x). (s, f x))"

definition defined :: "'a option \<Rightarrow> ('s, 'a) op" where
  "defined v = (\<lambda>s. case v of None \<Rightarrow> Undefined | Some a \<Rightarrow> Return a s)"

definition with_conn :: "('pg \<Rightarrow> ('db, 'ctx, 'pg, 'a) relic_op) \<Rightarrow> ('db, 'ctx, 'pg, 'a) relic_op" where
  "with_conn f = inspect (\<lambda>(s, x). andThen (defined (relic_conn x)) f)"

section \<open>Queries\<close>

definition exec_query :: "'pg relic_lib \<Rightarrow> string \<Rightarrow> ('db, 'ctx, 'pg, pg_result) relic_op" where
  "exec_query P insertQuery = with_conn (\<lambda>conn.
     let (conn', res) = pq_exec (pq P) conn (c_str insertQuery) in
     andThen (rx (\<lambda>x. x\<lparr>relic_conn := Some conn', effects := effects x @ [Query insertQuery]\<rparr>)) (\<lambda>_. ret res))"

text \<open>\<open>if (PQstatus(conn) != CONNECTION_OK) { PQfinish(conn); then }\<close>.\<close>

definition finish_if_lost :: "'pg relic_lib \<Rightarrow> ('db, 'ctx, 'pg, unit) relic_op \<Rightarrow> ('db, 'ctx, 'pg, unit) relic_op" where
  "finish_if_lost P m = with_conn (\<lambda>conn.
     whenM (\<not> connection_ok (pq P) conn) (stmts [rx (\<lambda>x. x\<lparr>relic_conn := None\<rparr>), m]))"

definition terminalerror :: "'pg relic_lib \<Rightarrow> ('db, 'ctx, 'pg, 'a) relic_op" where
  "terminalerror P = andThen (finish_if_lost P (ret ())) (\<lambda>_.
     throw (Runtime_error ''Unexpected error in exporter, receiver will shut down.''))"

definition query :: "'pg relic_lib \<Rightarrow> string \<Rightarrow> ('db, 'ctx, 'pg, pg_result) relic_op" where
  "query P insertQuery = andThen (exec_query P insertQuery) (\<lambda>res.
     if tuples_ok res then ret res else terminalerror P)"

definition run :: "'pg relic_lib \<Rightarrow> string \<Rightarrow> ('db, 'ctx, 'pg, unit) relic_op" where
  "run P insertQuery = andThen (query P insertQuery) (\<lambda>res. ret ())"

text \<open>The number in the first field of a result, if there is one.\<close>

definition first_number :: "int \<Rightarrow> pg_result \<Rightarrow> ('s, int) op" where
  "first_number initial res = (case getvalue res 0 0 of None \<Rightarrow> ret initial | Some v \<Rightarrow> defined (atoi v))"

section \<open>Fields\<close>

definition field :: "'pg relic_lib \<Rightarrow> string \<Rightarrow> json_value \<Rightarrow> string list \<Rightarrow> bool \<Rightarrow> ('s, string) op" where
  "field P defaultv v ks allowempty = andThen (defined (members_of (rj P) v ks)) (\<lambda>w.
     ret (getjsonstring (rj P) defaultv w allowempty))"

definition escape :: "'pg relic_lib \<Rightarrow> string \<Rightarrow> ('db, 'ctx, 'pg, string) relic_op" where
  "escape P t = with_conn (\<lambda>conn. ret (escapesqlstring (pq P) conn t))"

definition getjsonsqlescapedstring ::
    "'pg relic_lib \<Rightarrow> string \<Rightarrow> json_value \<Rightarrow> string list \<Rightarrow> bool \<Rightarrow> ('db, 'ctx, 'pg, string) relic_op" where
  "getjsonsqlescapedstring P defaultv v ks allowempty = andThen (field P defaultv v ks allowempty) (escape P)"

text \<open>Leaving the buffer is undefined, and the failed assertion aborts the program; neither goes on.\<close>

definition account_of :: "'pg relic_lib \<Rightarrow> string \<Rightarrow> ('db, 'ctx, 'pg, string) relic_op" where
  "account_of P pubkey = inspect (\<lambda>(s, x).
     case key_to_account (account_name P) (fresh_buffer P (length (effects x))) pubkey of
       Inl _ \<Rightarrow> (\<lambda>_. Undefined)
     | Inr account \<Rightarrow> ret account)"

definition elements :: "'pg relic_lib \<Rightarrow> json_value \<Rightarrow> string list \<Rightarrow> ('s, json_value list) op" where
  "elements P v ks = andThen (defined (members_of (rj P) v ks)) (\<lambda>w. defined (get_array w))"

end
