(* ===== verification/Timestamps.thy ===== *)
theory Timestamps
  imports StdText
begin

text \<open>
  The expiration timestamps of \<open>exp_relic_plugin.cpp\<close>: parsing \<open>YYYY-MM-DDThh:mm:ss\<close>, the
  calendar, and the correction of the malformed dates that one contract action produces.
\<close>

section \<open>The code\<close>

text \<open>\<open>int\<close> arithmetic; the years come from four digits, so nothing overflows.\<close>

definition is_leap_year :: "int \<Rightarrow> bool" where
  "is_leap_year year \<longleftrightarrow> (year mod 4 = 0 \<and> year mod 100 \<noteq> 0) \<or> year mod 400 = 0"

definition days_in_month :: "int \<Rightarrow> int \<Rightarrow> int" where
  "days_in_month year month =
     (if month < 1 \<or> month > 12 then 0
      else if month = 2 \<and> is_leap_year year then 29
      else [31, 28, 31, 30, 31, 30, 31, 31, 30, 31, 30, 31] ! nat (month - 1))"

record timestamp =
  ts_year :: int
  ts_month :: int
  ts_day :: int
  ts_hour :: int
  ts_minute :: int
  ts_second :: int

definition substr :: "nat \<Rightarrow> nat \<Rightarrow> string \<Rightarrow> string" where
  "substr pos n s = take n (drop pos s)"

definition separators :: "nat set" where
  "separators = {4, 7, 10, 13, 16}"

text \<open>\<open>false\<close> is \<open>None\<close>; \<open>std::stoi\<close> could throw, which is \<open>Inl\<close>.\<close>

definition parse_iso_timestamp :: "string \<Rightarrow> error + timestamp option" where
  "parse_iso_timestamp ts =
     (if length ts \<noteq> 19 \<or> ts ! 4 \<noteq> CHR ''-'' \<or> ts ! 7 \<noteq> CHR ''-'' \<or> ts ! 10 \<noteq> CHR ''T''
         \<or> ts ! 13 \<noteq> CHR '':'' \<or> ts ! 16 \<noteq> CHR '':'' then Inr None
      else if list_ex (\<lambda>i. i \<notin> separators \<and> \<not> isdigit (ts ! i)) [0..<length ts] then Inr None
      else (case stoi (substr 0 4 ts) of Inl e \<Rightarrow> Inl e | Inr year \<Rightarrow>
        (case stoi (substr 5 2 ts) of Inl e \<Rightarrow> Inl e | Inr month \<Rightarrow>
        (case stoi (substr 8 2 ts) of Inl e \<Rightarrow> Inl e | Inr day \<Rightarrow>
        (case stoi (substr 11 2 ts) of Inl e \<Rightarrow> Inl e | Inr hour \<Rightarrow>
        (case stoi (substr 14 2 ts) of Inl e \<Rightarrow> Inl e | Inr minute \<Rightarrow>
        (case stoi (substr 17 2 ts) of Inl e \<Rightarrow> Inl e | Inr second \<Rightarrow>
           Inr (Some \<lparr>ts_year = year, ts_month = month, ts_day = day,
             ts_hour = hour, ts_minute = minute, ts_second = second\<rparr>))))))))"

text \<open>\<open>%0wd\<close> of \<open>printf\<close>: the sign, then zeros up to the width.\<close>

definition padded :: "nat \<Rightarrow> int \<Rightarrow> string" where
  "padded w i = (if i < 0 then CHR ''-'' # replicate (w - 1 - length (decimal (nat (- i)))) (CHR ''0'') @ decimal (nat (- i))
     else replicate (w - length (decimal (nat i))) (CHR ''0'') @ decimal (nat i))"

definition print_timestamp :: "timestamp \<Rightarrow> string" where
  "print_timestamp t = padded 4 (ts_year t) @ ''-'' @ padded 2 (ts_month t) @ ''-'' @ padded 2 (ts_day t) @ ''T''
     @ padded 2 (ts_hour t) @ '':'' @ padded 2 (ts_minute t) @ '':'' @ padded 2 (ts_second t)"

definition valid_date :: "timestamp \<Rightarrow> bool" where
  "valid_date t \<longleftrightarrow> (let max_day = days_in_month (ts_year t) (ts_month t) in
     max_day > 0 \<and> ts_day t \<ge> 1 \<and> ts_day t \<le> max_day \<and> ts_hour t \<ge> 0 \<and> ts_hour t \<le> 23
     \<and> ts_minute t \<ge> 0 \<and> ts_minute t \<le> 59 \<and> ts_second t \<ge> 0 \<and> ts_second t \<le> 59)"

text \<open>\<open>snprintf\<close> into 20 characters keeps the first 19; the result goes through a C string.\<close>

definition normalize_contract_expiration_timestamp :: "string \<Rightarrow> string \<Rightarrow> error + string" where
  "normalize_contract_expiration_timestamp expirationtimestamp actionname =
     (case parse_iso_timestamp expirationtimestamp of
        Inl e \<Rightarrow> Inl e
      | Inr None \<Rightarrow> Inr expirationtimestamp
      | Inr (Some t) \<Rightarrow>
          if valid_date t then Inr expirationtimestamp
          else if actionname = ''renewdomain'' \<and> ts_month t = 2 \<and> ts_day t = 29
              \<and> \<not> is_leap_year (ts_year t) \<and> is_leap_year (ts_year t + 1) then
            Inr (take 19 (print_timestamp (t\<lparr>ts_year := ts_year t + 1\<rparr>)))
          else Inr expirationtimestamp)"

section \<open>Digits\<close>

lemma number_bound: "\<forall>c \<in> set ds. isdigit c \<Longrightarrow> number ds < 10 ^ length ds"
proof (induction ds rule: rev_induct)
  case (snoc c ds)
  then have "code c - 48 < 10" by (auto simp: isdigit_def)
  then show ?case using snoc by simp
qed (simp add: number_def)

lemma stoi_digits:
  assumes "\<forall>c \<in> set ds. isdigit c" and "ds \<noteq> []" and "length ds \<le> 4"
  shows "stoi ds = Inr (int (number ds))"
proof -
  obtain c cs where ds: "ds = c # cs" using assms(2) by (cases ds) auto
  then have "sign_of (dropWhile isspace ds) = (False, ds)"
    using assms(1) digit_not_space digit_not_sign by (simp add: sign_of_def)
  moreover have run: "takeWhile isdigit ds = ds" using assms(1) by simp
  moreover have "(10::nat) ^ length ds \<le> 10 ^ 4" by (rule power_increasing [OF assms(3)]) simp
  then have "number ds < 10 ^ 4" using number_bound [OF assms(1)] by linarith
  ultimately show ?thesis using assms(2) by (simp add: stoi_def Let_def run)
qed

lemma digit_eq: "isdigit c \<Longrightarrow> digit (code c - 48) = c"
  by (auto simp: isdigit_def digit_def code_def)

lemma number_zero:
  assumes "\<forall>c \<in> set ds. isdigit c" and "number ds = 0"
  shows "ds = replicate (length ds) (CHR ''0'')"
proof (rule replicate_eqI [OF refl])
  fix c assume "c \<in> set ds"
  then show "c = CHR ''0''" using assms
  proof (induction ds rule: rev_induct)
    case (snoc d ds)
    then have "code d = 48" "number ds = 0" by (auto simp: isdigit_def)
    then show ?case using snoc code_inject [of d "CHR ''0''"] by (auto simp: code_def)
  qed simp
qed

lemma padded_nat: "padded w (int n) = replicate (w - length (decimal n)) (CHR ''0'') @ decimal n"
  by (simp add: padded_def)

text \<open>Printing the number of a run of digits at its width gives the digits back.\<close>

lemma padded_number:
  "\<forall>c \<in> set ds. isdigit c \<Longrightarrow> ds \<noteq> [] \<Longrightarrow> padded (length ds) (int (number ds)) = ds"
proof (induction ds rule: rev_induct)
  case (snoc c ds)
  have c: "isdigit c" "code c - 48 < 10" and ds: "\<forall>c \<in> set ds. isdigit c"
    using snoc.prems by (auto simp: isdigit_def)
  show ?case
  proof (cases "number ds = 0")
    case True
    then have "decimal (number (ds @ [c])) = [c]"
      using c by (subst decimal.simps) (simp add: digit_eq)
    moreover have "ds = replicate (length ds) (CHR ''0'')" using number_zero [OF ds True] .
    ultimately show ?thesis by (simp add: padded_nat del: number_append)
  next
    case False
    then have "ds \<noteq> []" by (auto simp: number_def)
    then have IH: "padded (length ds) (int (number ds)) = ds" using snoc.IH ds by blast
    have "decimal (number (ds @ [c])) = decimal (number ds) @ [c]"
      using c False by (subst decimal.simps) (simp add: digit_eq)
    then show ?thesis using IH by (simp add: padded_nat del: number_append)
  qed
qed simp

lemma number_zeros: "number (replicate k (CHR ''0'') @ ds) = number ds"
  by (induction k) (simp_all add: number_def code_def)

lemma decimal_length: "n < 10 ^ Suc w \<Longrightarrow> length (decimal n) \<le> Suc w"
proof (induction w arbitrary: n)
  case (Suc w)
  then show ?case by (subst decimal.simps) simp
qed (subst decimal.simps, simp)

lemma padded_digits:
  assumes "0 \<le> i" and "i < 10 ^ w" and "0 < w"
  shows "length (padded w i) = w" and "\<forall>c \<in> set (padded w i). isdigit c" and "int (number (padded w i)) = i"
proof -
  obtain v where w: "w = Suc v" using assms(3) by (cases w) auto
  have "nat i < 10 ^ w" using assms by (simp add: nat_less_iff)
  then have len: "length (decimal (nat i)) \<le> w" using decimal_length [of "nat i" v] w by simp
  show "length (padded w i) = w" using assms(1) len by (simp add: padded_def)
  show "\<forall>c \<in> set (padded w i). isdigit c"
    using assms(1) decimal_digits [of "nat i"] by (auto simp: padded_def isdigit_def code_def)
  show "int (number (padded w i)) = i" using assms(1) by (simp add: padded_def number_zeros)
qed

section \<open>Parsing and printing\<close>

definition in_range :: "timestamp \<Rightarrow> bool" where
  "in_range t \<longleftrightarrow> 0 \<le> ts_year t \<and> ts_year t < 10000 \<and> 0 \<le> ts_month t \<and> ts_month t < 100
     \<and> 0 \<le> ts_day t \<and> ts_day t < 100 \<and> 0 \<le> ts_hour t \<and> ts_hour t < 100
     \<and> 0 \<le> ts_minute t \<and> ts_minute t < 100 \<and> 0 \<le> ts_second t \<and> ts_second t < 100"

text \<open>The shape of the text: six runs of digits between the separators.\<close>

definition joined :: "string \<Rightarrow> string \<Rightarrow> string \<Rightarrow> string \<Rightarrow> string \<Rightarrow> string \<Rightarrow> string" where
  "joined y m d h i s = y @ ''-'' @ m @ ''-'' @ d @ ''T'' @ h @ '':'' @ i @ '':'' @ s"

definition shape :: "string \<Rightarrow> string \<Rightarrow> string \<Rightarrow> string \<Rightarrow> string \<Rightarrow> string \<Rightarrow> bool" where
  "shape y m d h i s \<longleftrightarrow> length y = 4 \<and> length m = 2 \<and> length d = 2 \<and> length h = 2 \<and> length i = 2 \<and> length s = 2
     \<and> (\<forall>c \<in> set (y @ m @ d @ h @ i @ s). isdigit c)"

lemma length4: "length y = 4 \<longleftrightarrow> (\<exists>a b c d. y = [a, b, c, d])"
  by (simp add: eval_nat_numeral length_Suc_conv) blast

lemma length2: "length y = 2 \<longleftrightarrow> (\<exists>a b. y = [a, b])"
  by (simp add: eval_nat_numeral length_Suc_conv) blast

lemma indices19: "[0..<19] = [0, 1, 2, 3, 4, 5, 6, 7, 8, 9, 10, 11, 12, 13, 14, 15, 16, 17, 18::nat]"
  by (simp add: upt_rec)

lemma parse_joined:
  assumes "shape y m d h i s"
  shows "parse_iso_timestamp (joined y m d h i s) = Inr (Some \<lparr>ts_year = int (number y), ts_month = int (number m),
    ts_day = int (number d), ts_hour = int (number h), ts_minute = int (number i), ts_second = int (number s)\<rparr>)"
proof -
  obtain y1 y2 y3 y4 m1 m2 d1 d2 h1 h2 i1 i2 s1 s2 where l:
    "y = [y1, y2, y3, y4]" "m = [m1, m2]" "d = [d1, d2]" "h = [h1, h2]" "i = [i1, i2]" "s = [s1, s2]"
    using assms by (auto simp: shape_def length4 length2)
  have n: "stoi y = Inr (int (number y))" "stoi m = Inr (int (number m))" "stoi d = Inr (int (number d))"
    "stoi h = Inr (int (number h))" "stoi i = Inr (int (number i))" "stoi s = Inr (int (number s))"
    using assms by (auto simp: shape_def intro!: stoi_digits)
  show ?thesis
    using assms n unfolding l by (simp add: parse_iso_timestamp_def joined_def shape_def substr_def separators_def indices19)
qed

lemma parse_shape:
  assumes "parse_iso_timestamp ts \<noteq> Inr None"
  shows "\<exists>y m d h i s. ts = joined y m d h i s \<and> shape y m d h i s"
proof -
  have len: "length ts = 19" by (rule ccontr) (use assms in \<open>simp add: parse_iso_timestamp_def\<close>)
  then obtain c0 c1 c2 c3 c4 c5 c6 c7 c8 c9 where a: "take 10 ts = [c0, c1, c2, c3, c4, c5, c6, c7, c8, c9]"
    by (auto simp: eval_nat_numeral length_Suc_conv)
  from len obtain e0 e1 e2 e3 e4 e5 e6 e7 e8 where b: "drop 10 ts = [e0, e1, e2, e3, e4, e5, e6, e7, e8]"
    by (auto simp: eval_nat_numeral length_Suc_conv)
  have ts: "ts = [c0, c1, c2, c3, c4, c5, c6, c7, c8, c9, e0, e1, e2, e3, e4, e5, e6, e7, e8]"
    using a b append_take_drop_id [of 10 ts] by simp
  have "joined [c0, c1, c2, c3] [c5, c6] [c8, c9] [e1, e2] [e4, e5] [e7, e8] = ts
      \<and> shape [c0, c1, c2, c3] [c5, c6] [c8, c9] [e1, e2] [e4, e5] [e7, e8]"
    using assms unfolding ts
    by (simp add: parse_iso_timestamp_def joined_def shape_def separators_def indices19 split: if_splits)
  then show ?thesis by metis
qed

lemma shape_bounds:
  assumes "shape y m d h i s"
  shows "number y < 10000" "number m < 100" "number d < 100" "number h < 100" "number i < 100" "number s < 100"
  using assms number_bound [of y] number_bound [of m] number_bound [of d] number_bound [of h] number_bound [of i]
    number_bound [of s] by (simp_all add: shape_def)

lemma print_shape:
  assumes "in_range t"
  shows "print_timestamp t = joined (padded 4 (ts_year t)) (padded 2 (ts_month t)) (padded 2 (ts_day t))
      (padded 2 (ts_hour t)) (padded 2 (ts_minute t)) (padded 2 (ts_second t))"
    and "shape (padded 4 (ts_year t)) (padded 2 (ts_month t)) (padded 2 (ts_day t))
      (padded 2 (ts_hour t)) (padded 2 (ts_minute t)) (padded 2 (ts_second t))"
proof -
  have p: "length (padded 4 i) = 4 \<and> (\<forall>c \<in> set (padded 4 i). isdigit c)" if "0 \<le> i" "i < 10000" for i
    using padded_digits [of i 4] that by simp
  have q: "length (padded 2 i) = 2 \<and> (\<forall>c \<in> set (padded 2 i). isdigit c)" if "0 \<le> i" "i < 100" for i
    using padded_digits [of i 2] that by simp
  show "shape (padded 4 (ts_year t)) (padded 2 (ts_month t)) (padded 2 (ts_day t))
      (padded 2 (ts_hour t)) (padded 2 (ts_minute t)) (padded 2 (ts_second t))"
    unfolding shape_def using assms p q by (auto simp: in_range_def)
qed (simp add: print_timestamp_def joined_def)

text \<open>
  C37: Parsing and printing are inverse to each other: every printed timestamp whose fields fit
  their widths is parsed to the same fields, and every text that the parser accepts is the
  print of its fields; the parser never throws.
\<close>

theorem timestamp_round_trip:
  "(in_range t \<longrightarrow> parse_iso_timestamp (print_timestamp t) = Inr (Some t))
   \<and> (parse_iso_timestamp s = Inr None
     \<or> (\<exists>u. parse_iso_timestamp s = Inr (Some u) \<and> in_range u \<and> print_timestamp u = s))"
proof (intro conjI impI)
  assume t: "in_range t"
  show "parse_iso_timestamp (print_timestamp t) = Inr (Some t)"
    unfolding print_shape(1) [OF t] parse_joined [OF print_shape(2) [OF t]]
    using t padded_digits(3) by (cases t) (simp add: in_range_def)
next
  show "parse_iso_timestamp s = Inr None
     \<or> (\<exists>u. parse_iso_timestamp s = Inr (Some u) \<and> in_range u \<and> print_timestamp u = s)"
  proof (cases "parse_iso_timestamp s = Inr None")
    case False
    then obtain y m d h i e where s: "s = joined y m d h i e" and sh: "shape y m d h i e"
      using parse_shape by blast
    have len: "length y = 4" "length m = 2" "length d = 2" "length h = 2" "length i = 2" "length e = 2"
      and dig: "\<forall>c \<in> set y. isdigit c" "\<forall>c \<in> set m. isdigit c" "\<forall>c \<in> set d. isdigit c"
        "\<forall>c \<in> set h. isdigit c" "\<forall>c \<in> set i. isdigit c" "\<forall>c \<in> set e. isdigit c"
      using sh by (auto simp: shape_def)
    have pad: "padded 4 (int (number y)) = y" "padded 2 (int (number m)) = m" "padded 2 (int (number d)) = d"
      "padded 2 (int (number h)) = h" "padded 2 (int (number i)) = i" "padded 2 (int (number e)) = e"
      using padded_number dig len by (metis list.size(3) zero_neq_numeral)+
    show ?thesis
      unfolding s parse_joined [OF sh] using shape_bounds [OF sh] by (simp add: in_range_def print_timestamp_def pad joined_def)
  qed simp
qed


definition leap_example :: timestamp where
  "leap_example = \<lparr>ts_year = 2023, ts_month = 2, ts_day = 29, ts_hour = 7, ts_minute = 5, ts_second = 59\<rparr>"

lemma leap_example_text: "print_timestamp leap_example = ''2023-02-29T07:05:59''"
  by (simp add: print_timestamp_def leap_example_def padded_def decimal.simps digit_def char_of_def bit_0)

theorem timestamp_round_trip_witness:
  "parse_iso_timestamp ''2023-02-29T07:05:59'' = Inr (Some leap_example)"
  using timestamp_round_trip [of leap_example "[]"] leap_example_text by (simp add: in_range_def leap_example_def)

section \<open>The correction\<close>

text \<open>What the correction is for: the 29th of February of the year before a leap year.\<close>

definition misdated :: "timestamp \<Rightarrow> bool" where
  "misdated t \<longleftrightarrow> ts_month t = 2 \<and> ts_day t = 29 \<and> \<not> is_leap_year (ts_year t) \<and> is_leap_year (ts_year t + 1)"

lemma misdated_invalid: "misdated t \<Longrightarrow> \<not> valid_date t"
  by (simp add: misdated_def valid_date_def days_in_month_def)

lemma parse_accepts:
  assumes "parse_iso_timestamp s = Inr (Some t)"
  shows "in_range t"
proof -
  obtain y m d h i e where s: "s = joined y m d h i e" and sh: "shape y m d h i e"
    using parse_shape [of s] assms by auto
  show ?thesis
    using shape_bounds [OF sh] assms [unfolded s parse_joined [OF sh]] by (auto simp: in_range_def)
qed

lemma parse_print: "in_range t \<Longrightarrow> parse_iso_timestamp (print_timestamp t) = Inr (Some t)"
  unfolding print_shape(1) by (subst parse_joined [OF print_shape(2)])
    (auto simp: in_range_def intro!: timestamp.equality padded_digits(3))

lemma print_length: "in_range t \<Longrightarrow> length (print_timestamp t) = 19"
  using print_shape [of t] by (simp add: joined_def shape_def)

text \<open>
  C38: Only a text that denotes the 29th of February of the year before a leap year, in the
  response of a renewdomain action, is changed; every other text, valid date or not, is
  returned as it is. Up to the year 9998 the changed text denotes the same instant of the
  29th of February of the leap year, a date that the calendar has.
\<close>

theorem expiration_correction:
  assumes "parse_iso_timestamp s = Inr r"
  shows "case r of
      Some t \<Rightarrow> if action = ''renewdomain'' \<and> misdated t then
          ts_year t < 9999 \<longrightarrow> (\<exists>s'. normalize_contract_expiration_timestamp s action = Inr s'
            \<and> parse_iso_timestamp s' = Inr (Some (t\<lparr>ts_year := ts_year t + 1\<rparr>))
            \<and> 29 = days_in_month (ts_year t + 1) 2)
        else normalize_contract_expiration_timestamp s action = Inr s
    | None \<Rightarrow> normalize_contract_expiration_timestamp s action = Inr s"
proof (cases r)
  case None
  then show ?thesis using assms by (simp add: normalize_contract_expiration_timestamp_def)
next
  case (Some t)
  let ?u = "t\<lparr>ts_year := ts_year t + 1\<rparr>"
  have t: "in_range t" using parse_accepts assms Some by simp
  show ?thesis
  proof (cases "action = ''renewdomain'' \<and> misdated t")
    case False
    then show ?thesis using assms Some by (auto simp: normalize_contract_expiration_timestamp_def misdated_def)
  next
    case True
    then have leap: "is_leap_year (ts_year t + 1)" and run: "normalize_contract_expiration_timestamp s action = Inr (take 19 (print_timestamp ?u))"
      using assms Some misdated_invalid [of t] by (auto simp: normalize_contract_expiration_timestamp_def misdated_def)
    have "parse_iso_timestamp (take 19 (print_timestamp ?u)) = Inr (Some ?u)" if "ts_year t < 9999"
    proof -
      have "in_range ?u" using t that by (simp add: in_range_def)
      then show ?thesis using print_length parse_print by simp
    qed
    then show ?thesis using True Some run leap by (simp add: days_in_month_def)
  qed
qed

theorem expiration_correction_witness:
  "normalize_contract_expiration_timestamp ''2023-02-29T07:05:59'' ''renewdomain'' = Inr ''2024-02-29T07:05:59''
   \<and> normalize_contract_expiration_timestamp ''2023-02-29T07:05:59'' ''regdomain'' = Inr ''2023-02-29T07:05:59''"
proof -
  have p: "parse_iso_timestamp ''2023-02-29T07:05:59'' = Inr (Some leap_example)"
    using parse_print [of leap_example] leap_example_text by (simp add: in_range_def leap_example_def)
  have m: "misdated leap_example" by (simp add: misdated_def leap_example_def is_leap_year_def)
  have "print_timestamp (leap_example\<lparr>ts_year := 2024\<rparr>) = ''2024-02-29T07:05:59''"
    by (simp add: print_timestamp_def leap_example_def padded_def decimal.simps digit_def char_of_def bit_0)
  then have "normalize_contract_expiration_timestamp ''2023-02-29T07:05:59'' ''renewdomain'' = Inr ''2024-02-29T07:05:59''"
    using p misdated_invalid [OF m] m
    by (simp add: normalize_contract_expiration_timestamp_def misdated_def leap_example_def)
  moreover have "normalize_contract_expiration_timestamp ''2023-02-29T07:05:59'' ''regdomain'' = Inr ''2023-02-29T07:05:59''"
    using expiration_correction [OF p, of "''regdomain''"] by simp
  ultimately show ?thesis by simp
qed

end
