(* ===== verification/RelicActions.thy ===== *)
theory RelicActions
  imports RelicState Timestamps
begin

text \<open>
  What the PostgreSQL exporter does for each FIO action of a transaction: one definition per
  branch of the chain over \<open>actionname\<close> in \<open>async_send_events\<close>. Every branch reads members of
  the action's data and of the contract's response and calls functions of the database.
\<close>

section \<open>The action at hand\<close>

record fio_action =
  bnums :: string
  blocktimestamp :: string
  trid :: string
  fktransactionid :: int
  actionname :: string
  contractaccount :: string
  actdata :: json_value
  respdoc :: json_value

type_synonym ('db, 'ctx, 'pg) action_op = "'pg relic_lib \<Rightarrow> fio_action \<Rightarrow> ('db, 'ctx, 'pg, unit) relic_op"

abbreviation data_field :: "'pg relic_lib \<Rightarrow> fio_action \<Rightarrow> string \<Rightarrow> bool \<Rightarrow> ('s, string) op" where
  "data_field P A k allowempty \<equiv> field P UNKNOWN_STRING (actdata A) [k] allowempty"

abbreviation data_sql_field :: "'pg relic_lib \<Rightarrow> fio_action \<Rightarrow> string \<Rightarrow> bool \<Rightarrow> ('db, 'ctx, 'pg, string) relic_op" where
  "data_sql_field P A k allowempty \<equiv> getjsonsqlescapedstring P UNKNOWN_STRING (actdata A) [k] allowempty"

text \<open>The calls that several branches make.\<close>

definition insdomainactivities :: "fio_action \<Rightarrow> string \<Rightarrow> string \<Rightarrow> string" where
  "insdomainactivities A domainname activity = sql_call ''insdomainactivities''
     [decimal_int (fktransactionid A), bnums A, quoted domainname, quoted activity, quoted (blocktimestamp A)]"

definition inshandleactivities :: "fio_action \<Rightarrow> string \<Rightarrow> string \<Rightarrow> string" where
  "inshandleactivities A handle activity = sql_call ''inshandleactivities''
     [decimal_int (fktransactionid A), bnums A, quoted handle, quoted activity, quoted (blocktimestamp A)]"

definition insaccountactivities :: "fio_action \<Rightarrow> string \<Rightarrow> string \<Rightarrow> string" where
  "insaccountactivities A account role = sql_call ''insaccountactivities''
     [decimal_int (fktransactionid A), bnums A, quoted account, quoted role]"

definition instokentransfers :: "fio_action \<Rightarrow> string \<Rightarrow> string \<Rightarrow> string \<Rightarrow> string \<Rightarrow> string \<Rightarrow> string" where
  "instokentransfers A payer payee sufamount trnstype memo = sql_call ''instokentransfers''
     [decimal_int (fktransactionid A), bnums A, quoted payer, quoted payee, sufamount, quoted trnstype, memo,
      quoted (blocktimestamp A)]"

definition insupdpubaddresses :: "fio_action \<Rightarrow> string \<Rightarrow> string \<Rightarrow> string \<Rightarrow> string \<Rightarrow> string" where
  "insupdpubaddresses A handle chaincode tokencode pubkey = sql_call ''insupdpubaddresses''
     [bnums A, quoted handle, quoted chaincode, quoted tokencode, pubkey]"

text \<open>The part of a handle after the first \<open>@\<close>, or nothing.\<close>

definition domain_of :: "string \<Rightarrow> string" where
  "domain_of handle = tl (dropWhile (\<lambda>c. c \<noteq> CHR ''@'') handle)"

text \<open>
  Without a key in the action the owner is the actor, and the key is looked up in the database;
  with one, the account of the key is entered. A missing first row is a null pointer, from
  which no \<open>std::string\<close> can be made.
\<close>

definition getaccountpubkeyandid :: "string \<Rightarrow> string" where
  "getaccountpubkeyandid actoraccount = ''SELECT * FROM getaccountpubkeyandid('' @ quoted actoraccount @ '');''"

definition actor_account_info :: "'pg relic_lib \<Rightarrow> string \<Rightarrow> ('db, 'ctx, 'pg, pg_result) relic_op" where
  "actor_account_info P actoraccount = andThen (query P (getaccountpubkeyandid actoraccount)) (\<lambda>res.
     if length (tuples res) > 1 then terminalerror P else ret res)"

definition insupdaccounts :: "fio_action \<Rightarrow> string \<Rightarrow> string \<Rightarrow> string \<Rightarrow> string" where
  "insupdaccounts A owneracct pubkey bound = sql_call ''insupdaccounts''
     [bnums A, quoted owneracct, pubkey, quoted (blocktimestamp A), quoted bound]"

definition resolve_owner ::
    "'pg relic_lib \<Rightarrow> fio_action \<Rightarrow> string \<Rightarrow> string \<Rightarrow> string \<Rightarrow> string \<Rightarrow> ('db, 'ctx, 'pg, string \<times> string) relic_op" where
  "resolve_owner P A actoraccount pubkeyt pubkey owneracct =
     (if pubkeyt = UNKNOWN_STRING then
        andThen (actor_account_info P actoraccount) (\<lambda>res.
        andThen (defined (getvalue res 0 1)) (\<lambda>pubkeyt.
        andThen (escape P pubkeyt) (\<lambda>pubkey. ret (pubkey, actoraccount))))
      else andThen (run P (insupdaccounts A owneracct pubkey ''false'')) (\<lambda>_. ret (pubkey, owneracct)))"

section \<open>Tokens to a public key\<close>

definition trnsfiopubky :: "('db, 'ctx, 'pg) action_op" where
  "trnsfiopubky P A =
     andThen (data_field P A ''actor'' ALLOW_EMPTY_VALUES) (\<lambda>payeracct.
     andThen (data_field P A ''payee_public_key'' ALLOW_EMPTY_VALUES) (\<lambda>pubkey.
     andThen (account_of P pubkey) (\<lambda>payeeacct.
     let trnstype = (if actionname A = ''trnsloctoks'' then ''transfer_locked'' else ''transfer'') in
     andThen (data_field P A ''amount'' ALLOW_EMPTY_VALUES) (\<lambda>sufamount.
     run P (instokentransfers A payeracct payeeacct sufamount trnstype (quoted []))))))"

section \<open>Domains\<close>

definition regdomain :: "('db, 'ctx, 'pg) action_op" where
  "regdomain P A =
     andThen (if actionname A = ''regdomain''
        then andThen (data_field P A ''fio_domain'' ALLOW_EMPTY_VALUES) (\<lambda>domainname. ret ([], domainname))
        else andThen (data_field P A ''fio_address'' ALLOW_EMPTY_VALUES) (\<lambda>handle. ret (handle, domain_of handle)))
       (\<lambda>(handle, domainname).
     andThen (data_field P A ''actor'' ALLOW_EMPTY_VALUES) (\<lambda>actoraccount.
     andThen (data_field P A ''owner_fio_public_key'' ALLOW_EMPTY_VALUES) (\<lambda>pubkeyt.
     andThen (account_of P pubkeyt) (\<lambda>owneracct.
     andThen (escape P pubkeyt) (\<lambda>pubkey.
     andThen (field P UNKNOWN_TIMESTAMP (respdoc A) [''expiration''] ALLOW_EMPTY_VALUES) (\<lambda>expirationtimestamp.
     andThen (resolve_owner P A actoraccount pubkeyt pubkey owneracct) (\<lambda>(pubkey, owneracct). stmts [
       run P (sql_call ''insdomains'' [bnums A, quoted domainname, quoted owneracct, quoted ''false'',
         quoted expirationtimestamp, quoted ''active'']),
       run P (insdomainactivities A domainname ''register''),
       whenM (actionname A = ''regdomadd'')
         (andThen (field P UNKNOWN_TIMESTAMP (respdoc A) [''expiration''] ALLOW_EMPTY_VALUES) (\<lambda>expirationtimestamp. stmts [
            run P (sql_call ''insupdhandles'' [bnums A, quoted domainname, quoted owneracct, quoted handle, pubkey,
              quoted ''false'', quoted expirationtimestamp, quoted ''active'']),
            run P (inshandleactivities A handle ''register''),
            run P (insupdpubaddresses A handle ''FIO'' ''FIO'' pubkey)])),
       whenM (actoraccount \<noteq> owneracct) (run P (insaccountactivities A owneracct ''receiver''))])))))))"

definition renewdomain :: "('db, 'ctx, 'pg) action_op" where
  "renewdomain P A =
     andThen (data_field P A ''fio_domain'' ALLOW_EMPTY_VALUES) (\<lambda>domainname.
     andThen (field P UNKNOWN_TIMESTAMP (respdoc A) [''expiration''] ALLOW_EMPTY_VALUES) (\<lambda>expirationtimestamp.
     andThen (liftE (normalize_contract_expiration_timestamp expirationtimestamp (actionname A))) (\<lambda>expirationtimestamp. stmts [
       run P (sql_call ''upddomainexp'' [quoted domainname, quoted expirationtimestamp]),
       run P (insdomainactivities A domainname ''renew'')])))"

definition xferdomain :: "('db, 'ctx, 'pg) action_op" where
  "xferdomain P A =
     andThen (data_field P A ''fio_domain'' ALLOW_EMPTY_VALUES) (\<lambda>domainname.
     andThen (data_field P A ''new_owner_fio_public_key'' ALLOW_EMPTY_VALUES) (\<lambda>pubkeyt.
     andThen (account_of P pubkeyt) (\<lambda>owneracct.
     andThen (escape P pubkeyt) (\<lambda>pubkey.
     andThen (data_field P A ''actor'' ALLOW_EMPTY_VALUES) (\<lambda>actoraccount.
     andThen (if pubkeyt = UNKNOWN_STRING
        then andThen (actor_account_info P actoraccount) (\<lambda>res. ret actoraccount)
        else andThen (run P (insupdaccounts A owneracct pubkey ''false'')) (\<lambda>_. ret owneracct)) (\<lambda>owneracct. stmts [
       run P (sql_call ''upddomainowner'' [quoted domainname, quoted owneracct]),
       run P (insdomainactivities A domainname ''transfer''),
       run P (insaccountactivities A owneracct ''receiver'')]))))))"

definition setdomainpub :: "('db, 'ctx, 'pg) action_op" where
  "setdomainpub P A =
     andThen (data_field P A ''fio_domain'' ALLOW_EMPTY_VALUES) (\<lambda>domainname.
     andThen (data_field P A ''is_public'' ALLOW_EMPTY_VALUES) (\<lambda>publicstr. stmts [
       run P (sql_call ''upddomainispublic'' [quoted domainname, quoted publicstr]),
       run P (insdomainactivities A domainname (if publicstr = ''0'' then ''non-public'' else ''public''))]))"

definition wrapdomain :: "('db, 'ctx, 'pg) action_op" where
  "wrapdomain P A =
     andThen (data_field P A ''fio_domain'' ALLOW_EMPTY_VALUES) (\<lambda>domainname. stmts [
       run P (sql_call ''upddomainowner'' [quoted domainname, quoted ''fio.oracle'']),
       run P (insdomainactivities A domainname ''wrap''),
       run P (insaccountactivities A ''fio.oracle'' ''receiver'')])"

definition xferescrow :: "('db, 'ctx, 'pg) action_op" where
  "xferescrow P A =
     andThen (data_field P A ''fio_domain'' ALLOW_EMPTY_VALUES) (\<lambda>domainname.
     andThen (data_field P A ''public_key'' ALLOW_EMPTY_VALUES) (\<lambda>pubkey.
     andThen (account_of P pubkey) (\<lambda>owneracct. stmts [
       run P (sql_call ''upddomainowner'' [quoted domainname, quoted owneracct]),
       run P (insdomainactivities A domainname ''unwrap''),
       run P (insaccountactivities A owneracct ''receiver''),
       run P (insaccountactivities A ''fio.oracle'' ''sender'')])))"

section \<open>Handles\<close>

definition updcryptkey :: "('db, 'ctx, 'pg) action_op" where
  "updcryptkey P A =
     andThen (data_field P A ''fio_address'' ALLOW_EMPTY_VALUES) (\<lambda>handle.
     andThen (data_field P A ''encrypt_public_key'' ALLOW_EMPTY_VALUES) (\<lambda>pubkey. stmts [
       run P (sql_call ''updhandlessetencryptkey'' [bnums A, quoted handle, quoted pubkey]),
       run P (inshandleactivities A handle ''upd_encryptkey'')]))"

text \<open>The transaction's index is stored as an unsigned number.\<close>

definition burnexpired :: "('db, 'ctx, 'pg) action_op" where
  "burnexpired P A = rx (\<lambda>x. x\<lparr>burnexpiredthisblock := True, burnexpiredtimestamp := blocktimestamp A,
     burnexpiredtrid := word_of_int (fktransactionid A)\<rparr>)"

definition burnaddress :: "('db, 'ctx, 'pg) action_op" where
  "burnaddress P A =
     andThen (data_field P A ''fio_address'' ALLOW_EMPTY_VALUES) (\<lambda>handle.
     andThen (data_field P A ''encrypt_public_key'' ALLOW_EMPTY_VALUES) (\<lambda>pubkey. stmts [
       rx (\<lambda>x. x\<lparr>burnaddresses := burnaddresses x @ [handle]\<rparr>),
       run P (sql_call ''updhandleburnt'' [bnums A, quoted handle]),
       run P (inshandleactivities A handle ''self_burn''),
       run P (sql_call ''delpubaddresses'' [quoted handle]),
       run P (sql_call ''delnftsignatures'' [quoted handle])]))"

definition regaddress :: "('db, 'ctx, 'pg) action_op" where
  "regaddress P A =
     andThen (data_field P A ''fio_address'' ALLOW_EMPTY_VALUES) (\<lambda>handle.
     andThen (data_field P A ''actor'' ALLOW_EMPTY_VALUES) (\<lambda>actoraccount.
     andThen (data_field P A ''owner_fio_public_key'' ALLOW_EMPTY_VALUES) (\<lambda>pubkeyt.
     andThen (account_of P pubkeyt) (\<lambda>owneracct.
     andThen (escape P pubkeyt) (\<lambda>pubkey.
     andThen (field P UNKNOWN_TIMESTAMP (respdoc A) [''expiration''] ALLOW_EMPTY_VALUES) (\<lambda>expirationtimestamp.
     andThen (resolve_owner P A actoraccount pubkeyt pubkey owneracct) (\<lambda>(pubkey, owneracct). stmts [
       run P (sql_call ''insupdhandles'' [bnums A, quoted (domain_of handle), quoted owneracct, quoted handle, pubkey,
         quoted ''false'', quoted expirationtimestamp, quoted ''active'']),
       run P (inshandleactivities A handle ''register''),
       whenM (actoraccount \<noteq> owneracct) (run P (insaccountactivities A owneracct ''receiver'')),
       run P (insupdpubaddresses A handle ''FIO'' ''FIO'' pubkey)])))))))"

definition renewaddress :: "('db, 'ctx, 'pg) action_op" where
  "renewaddress P A =
     andThen (data_field P A ''fio_address'' ALLOW_EMPTY_VALUES) (\<lambda>handle.
     andThen (field P UNKNOWN_TIMESTAMP (respdoc A) [''expiration''] ALLOW_EMPTY_VALUES) (\<lambda>expirationtimestamp.
     run P (inshandleactivities A handle ''renew'')))"

definition addbundles :: "('db, 'ctx, 'pg) action_op" where
  "addbundles P A =
     andThen (data_field P A ''fio_address'' ALLOW_EMPTY_VALUES) (\<lambda>handle.
     andThen (data_field P A ''bundle_sets'' ALLOW_EMPTY_VALUES) (\<lambda>bundlesetss.
     run P (inshandleactivities A handle ''add_bundles'')))"

text \<open>When the owner comes from the database its result is cleared twice, which is undefined.\<close>

definition xferaddress :: "('db, 'ctx, 'pg) action_op" where
  "xferaddress P A =
     andThen (data_field P A ''fio_address'' ALLOW_EMPTY_VALUES) (\<lambda>handle.
     andThen (data_field P A ''new_owner_fio_public_key'' ALLOW_EMPTY_VALUES) (\<lambda>pubkeyt.
     andThen (account_of P pubkeyt) (\<lambda>owneracct.
     andThen (escape P pubkeyt) (\<lambda>pubkey.
     andThen (data_field P A ''actor'' ALLOW_EMPTY_VALUES) (\<lambda>actoraccount.
     andThen (resolve_owner P A actoraccount pubkeyt pubkey owneracct) (\<lambda>(pubkey, owneracct). stmts [
       whenM (pubkeyt = UNKNOWN_STRING) (\<lambda>_. Undefined),
       run P (sql_call ''updhandlesxferowner'' [bnums A, quoted handle, quoted owneracct, pubkey, quoted ''false'']),
       run P (inshandleactivities A handle ''transfer''),
       run P (insaccountactivities A owneracct ''receiver''),
       run P (sql_call ''delpubaddresses'' [quoted handle]),
       run P (insupdpubaddresses A handle ''FIO'' ''FIO'' pubkey),
       run P (sql_call ''delnftsignatures'' [quoted handle])]))))))"

section \<open>Requests for funds\<close>

definition insaccountactivitieshandle :: "fio_action \<Rightarrow> string \<Rightarrow> string" where
  "insaccountactivitieshandle A handle = sql_call ''insaccountactivitieshandle''
     [decimal_int (fktransactionid A), bnums A, quoted handle, quoted ''receiver'']"

definition newfundsreq :: "('db, 'ctx, 'pg) action_op" where
  "newfundsreq P A =
     andThen (data_field P A ''actor'' ALLOW_EMPTY_VALUES) (\<lambda>actoraccount.
     andThen (data_field P A ''payer_fio_address'' ALLOW_EMPTY_VALUES) (\<lambda>payerhandle.
     andThen (data_field P A ''payee_fio_address'' ALLOW_EMPTY_VALUES) (\<lambda>payeehandle.
     andThen (data_sql_field P A ''content'' ALLOW_EMPTY_VALUES) (\<lambda>content.
     andThen (field P UNKNOWN_NUMBER_NULL (respdoc A) [''fio_request_id''] ALLOW_EMPTY_VALUES) (\<lambda>fiochainrequestid. stmts [
       run P (inshandleactivities A payeehandle ''new_request''),
       run P (insaccountactivitieshandle A payerhandle),
       run P (sql_call ''insfiorequests'' [decimal_int (fktransactionid A), bnums A, fiochainrequestid,
         quoted payerhandle, quoted payeehandle, content, quoted ''pending'', quoted (blocktimestamp A)])])))))"

definition updfiorequestsstatus :: "string \<Rightarrow> string \<Rightarrow> string" where
  "updfiorequestsstatus fiochainrequestid status = sql_call ''updfiorequestsstatus'' [fiochainrequestid, quoted status]"

definition recordobt :: "('db, 'ctx, 'pg) action_op" where
  "recordobt P A =
     andThen (data_field P A ''actor'' ALLOW_EMPTY_VALUES) (\<lambda>actoraccount.
     andThen (data_field P A ''payer_fio_address'' ALLOW_EMPTY_VALUES) (\<lambda>payerhandle.
     andThen (data_field P A ''payee_fio_address'' ALLOW_EMPTY_VALUES) (\<lambda>payeehandle.
     andThen (data_sql_field P A ''content'' ALLOW_EMPTY_VALUES) (\<lambda>content.
     andThen (field P ''NULL'' (actdata A) [''fio_request_id''] DISALLOW_EMPTY_VALUES) (\<lambda>fiochainrequestid. stmts [
       run P (inshandleactivities A payerhandle ''record_obt''),
       run P (insaccountactivitieshandle A payeehandle),
       run P (sql_call ''insfiodatas'' [decimal_int (fktransactionid A), bnums A, fiochainrequestid,
         quoted payerhandle, quoted payeehandle, content, quoted ''sent_to_blockchain'', quoted (blocktimestamp A)]),
       run P (updfiorequestsstatus fiochainrequestid ''sent_to_blockchain'')])))))"

definition cancelfndreq :: "('db, 'ctx, 'pg) action_op" where
  "cancelfndreq P A =
     andThen (data_field P A ''fio_request_id'' ALLOW_EMPTY_VALUES) (\<lambda>fiochainrequestid. stmts [
       run P (sql_call ''inshandleactivitiesfiorequest'' [decimal_int (fktransactionid A), bnums A, fiochainrequestid,
         quoted ''cancel_request'', quoted (blocktimestamp A)]),
       run P (updfiorequestsstatus fiochainrequestid ''cancelled'')])"

definition rejectfndreq :: "('db, 'ctx, 'pg) action_op" where
  "rejectfndreq P A =
     andThen (data_field P A ''fio_request_id'' ALLOW_EMPTY_VALUES) (\<lambda>fiochainrequestid. stmts [
       run P (sql_call ''inshandleactivitiesfiorequest'' [decimal_int (fktransactionid A), bnums A, fiochainrequestid,
         quoted ''reject_request'', quoted (blocktimestamp A)]),
       run P (updfiorequestsstatus fiochainrequestid ''rejected'')])"
section \<open>Tokens and public addresses of a handle\<close>

text \<open>
  An element of an array that is not an object is passed over, as long as the connection is
  good; a lost connection is finished, and then used again by the second test.
\<close>

definition not_an_object :: "'pg relic_lib \<Rightarrow> ('db, 'ctx, 'pg, unit) relic_op \<Rightarrow> ('db, 'ctx, 'pg, unit) relic_op" where
  "not_an_object P first = stmts [finish_if_lost P first, finish_if_lost P (onFst abort_receiver)]"

definition for_objects ::
    "'pg relic_lib \<Rightarrow> ('db, 'ctx, 'pg, unit) relic_op \<Rightarrow> json_value list \<Rightarrow>
     (json_value \<Rightarrow> ('db, 'ctx, 'pg, unit) relic_op) \<Rightarrow> ('db, 'ctx, 'pg, unit) relic_op" where
  "for_objects P first vs f = forM vs (\<lambda>v. if is_object v then f v else not_an_object P first)"

definition addnft :: "('db, 'ctx, 'pg) action_op" where
  "addnft P A =
     andThen (data_field P A ''fio_address'' ALLOW_EMPTY_VALUES) (\<lambda>handle.
     andThen (data_field P A ''fio_address'' ALLOW_EMPTY_VALUES) (\<lambda>chaincode. stmts [
       run P (inshandleactivities A handle ''add_nft''),
       andThen (elements P (actdata A) [''nfts'']) (\<lambda>nfts. for_objects P (ret ()) nfts (\<lambda>nftdata.
         andThen (field P UNKNOWN_STRING nftdata [''chain_code''] ALLOW_EMPTY_VALUES) (\<lambda>chaincode.
         andThen (getjsonsqlescapedstring P UNKNOWN_STRING nftdata [''contract_address''] ALLOW_EMPTY_VALUES) (\<lambda>contractaddress.
         andThen (getjsonsqlescapedstring P UNKNOWN_STRING nftdata [''token_id''] ALLOW_EMPTY_VALUES) (\<lambda>tokenid.
         andThen (getjsonsqlescapedstring P UNKNOWN_STRING nftdata [''url''] ALLOW_EMPTY_VALUES) (\<lambda>url.
         andThen (getjsonsqlescapedstring P UNKNOWN_STRING nftdata [''hash''] ALLOW_EMPTY_VALUES) (\<lambda>hash.
         andThen (getjsonsqlescapedstring P UNKNOWN_STRING nftdata [''metadata''] ALLOW_EMPTY_VALUES) (\<lambda>metadata.
         run P (sql_call ''insupdnftsignatures'' [bnums A, quoted handle, quoted chaincode, contractaddress, tokenid,
           url, hash, metadata])))))))))]))"

definition remnft :: "('db, 'ctx, 'pg) action_op" where
  "remnft P A =
     andThen (data_field P A ''fio_address'' ALLOW_EMPTY_VALUES) (\<lambda>handle. stmts [
       run P (inshandleactivities A handle ''rem_nft''),
       andThen (elements P (actdata A) [''nfts'']) (\<lambda>nfts. for_objects P (onFst abort_receiver) nfts (\<lambda>nftdata.
         andThen (field P UNKNOWN_STRING nftdata [''chain_code''] ALLOW_EMPTY_VALUES) (\<lambda>chaincode.
         andThen (field P UNKNOWN_STRING nftdata [''contract_address''] ALLOW_EMPTY_VALUES) (\<lambda>contractaddress.
         andThen (field P UNKNOWN_STRING nftdata [''token_id''] ALLOW_EMPTY_VALUES) (\<lambda>tokenid.
         run P (sql_call ''delnftsignature'' [quoted handle, quoted chaincode, quoted contractaddress, quoted tokenid]))))))])"

definition remallnfts :: "('db, 'ctx, 'pg) action_op" where
  "remallnfts P A =
     andThen (data_field P A ''fio_address'' ALLOW_EMPTY_VALUES) (\<lambda>handle. stmts [
       run P (inshandleactivities A handle ''rem_all_nft''),
       run P (sql_call ''delnftsignatures'' [quoted handle])])"

definition remalladdr :: "('db, 'ctx, 'pg) action_op" where
  "remalladdr P A =
     andThen (data_field P A ''fio_address'' ALLOW_EMPTY_VALUES) (\<lambda>handle. stmts [
       run P (inshandleactivities A handle ''rem_all_pubadd''),
       run P (sql_call ''clearpubaddresses'' [quoted handle])])"

definition addaddress :: "('db, 'ctx, 'pg) action_op" where
  "addaddress P A =
     andThen (data_field P A ''fio_address'' ALLOW_EMPTY_VALUES) (\<lambda>handle.
     andThen (elements P (actdata A) [''public_addresses'']) (\<lambda>addresses. for_objects P (onFst abort_receiver) addresses (\<lambda>addressdata.
       andThen (field P UNKNOWN_STRING addressdata [''chain_code''] ALLOW_EMPTY_VALUES) (\<lambda>chaincode.
       andThen (field P UNKNOWN_STRING addressdata [''token_code''] ALLOW_EMPTY_VALUES) (\<lambda>tokencode.
       andThen (getjsonsqlescapedstring P UNKNOWN_STRING addressdata [''public_address''] ALLOW_EMPTY_VALUES) (\<lambda>pubaddress. stmts [
         run P (inshandleactivities A handle ''add_pubadd''),
         run P (insupdpubaddresses A handle chaincode tokencode pubaddress),
         whenM (chaincode = ''FIO'' \<and> (tokencode = ''FIO'' \<or> tokencode = ''*''))
           (run P (sql_call ''updhandlesencryptkey'' [bnums A, quoted handle, pubaddress]))]))))))"

definition remaddress :: "('db, 'ctx, 'pg) action_op" where
  "remaddress P A =
     andThen (data_field P A ''fio_address'' ALLOW_EMPTY_VALUES) (\<lambda>handle.
     andThen (elements P (actdata A) [''public_addresses'']) (\<lambda>addresses. for_objects P (onFst abort_receiver) addresses (\<lambda>addressdata.
       andThen (field P UNKNOWN_STRING addressdata [''chain_code''] ALLOW_EMPTY_VALUES) (\<lambda>chaincode.
       andThen (field P UNKNOWN_STRING addressdata [''token_code''] ALLOW_EMPTY_VALUES) (\<lambda>tokencode.
       andThen (field P UNKNOWN_STRING addressdata [''public_address''] ALLOW_EMPTY_VALUES) (\<lambda>pubaddress. stmts [
         run P (inshandleactivities A handle ''rem_pubadd''),
         run P (sql_call ''delpubaddress'' [quoted handle, quoted chaincode, quoted tokencode, quoted pubaddress])]))))))"

section \<open>Staking, retiring and FIP-48\<close>

definition instokenstakings :: "fio_action \<Rightarrow> string \<Rightarrow> string \<Rightarrow> string" where
  "instokenstakings A account sufamount = sql_call ''instokenstakings''
     [decimal_int (fktransactionid A), bnums A, quoted account, quoted sufamount]"

definition stakefio :: "('db, 'ctx, 'pg) action_op" where
  "stakefio P A =
     andThen (data_field P A ''actor'' ALLOW_EMPTY_VALUES) (\<lambda>stakingacct.
     andThen (data_field P A ''amount'' DISALLOW_EMPTY_VALUES) (\<lambda>sufamount.
     run P (instokenstakings A stakingacct sufamount)))"

definition unstakefio :: "('db, 'ctx, 'pg) action_op" where
  "unstakefio P A =
     andThen (data_field P A ''actor'' ALLOW_EMPTY_VALUES) (\<lambda>stakingacct.
     andThen (data_field P A ''amount'' DISALLOW_EMPTY_VALUES) (\<lambda>sufamount.
     run P (instokenstakings A stakingacct (''-'' @ sufamount))))"

definition retire :: "('db, 'ctx, 'pg) action_op" where
  "retire P A =
     andThen (data_field P A ''actor'' ALLOW_EMPTY_VALUES) (\<lambda>payeracct.
     andThen (data_sql_field P A ''memo'' ALLOW_EMPTY_VALUES) (\<lambda>memo.
     andThen (data_field P A ''quantity'' DISALLOW_EMPTY_VALUES) (\<lambda>sufamount.
     run P (instokentransfers A payeracct ''fio.token'' sufamount ''retire'' memo))))"

definition fip48_transfers :: "(string \<times> string) list" where
  "fip48_transfers = [
     (''xkezj1ocwe4r'', ''9999960000000000''),
     (''mck32myftiau'', ''10000000000000000''),
     (''hjvwdy5p4zvs'', ''7000000000000000''),
     (''2mskjvkhj334'', ''5500000000000000''),
     (''oadme4v54cly'', ''2500000000000000''),
     (''jsniuyaaeblr'', ''1999999400000000''),
     (''nadppzyxtxjx'', ''1500000000000000''),
     (''zvt11xu5czlk'', ''1000000000000''),
     (''dioxleem5hmr'', ''1000000000000''),
     (''iud1tjwtt2ey'', ''1000000000000''),
     (''xgyg22tfizja'', ''1000000000000''),
     (''4urqjmtfvmjj'', ''1000000000000''),
     (''deq54dxuyquh'', ''1000000000000'')]"

definition fipxlviii :: "('db, 'ctx, 'pg) action_op" where
  "fipxlviii P A =
     andThen (escape P ''FIP-48'') (\<lambda>memo. forM fip48_transfers (\<lambda>(payer_account, amount_suf). stmts [
       run P (instokentransfers A payer_account ''pkfbwyi2qzii'' amount_suf ''transfer'' memo),
       run P (insaccountactivities A payer_account ''sender''),
       run P (insaccountactivities A ''pkfbwyi2qzii'' ''receiver'')]))"

section \<open>The chain over the action's name\<close>

text \<open>\<open>wraptokens\<close> continues with the next action trace at once, which is \<open>True\<close>.\<close>

definition action_branch :: "'pg relic_lib \<Rightarrow> fio_action \<Rightarrow> ('db, 'ctx, 'pg, unit) relic_op" where
  "action_branch P A = (let name = actionname A in
     if name = ''trnsfiopubky'' \<or> name = ''trnsloctoks'' then trnsfiopubky P A
     else if name = ''regdomain'' \<or> name = ''regdomadd'' then regdomain P A
     else if name = ''renewdomain'' then renewdomain P A
     else if name = ''xferdomain'' then xferdomain P A
     else if name = ''setdomainpub'' then setdomainpub P A
     else if name = ''wrapdomain'' then wrapdomain P A
     else if name = ''xferescrow'' then xferescrow P A
     else if name = ''updcryptkey'' then updcryptkey P A
     else if name = ''burnexpired'' then burnexpired P A
     else if name = ''burnaddress'' then burnaddress P A
     else if name = ''newfundsreq'' then newfundsreq P A
     else if name = ''recordobt'' then recordobt P A
     else if name = ''cancelfndreq'' then cancelfndreq P A
     else if name = ''rejectfndreq'' then rejectfndreq P A
     else if name = ''regaddress'' then regaddress P A
     else if name = ''renewaddress'' then renewaddress P A
     else if name = ''addbundles'' then addbundles P A
     else if name = ''addnft'' then addnft P A
     else if name = ''remnft'' then remnft P A
     else if name = ''remallnfts'' then remallnfts P A
     else if name = ''xferaddress'' then xferaddress P A
     else if name = ''remalladdr'' then remalladdr P A
     else if name = ''addaddress'' then addaddress P A
     else if name = ''remaddress'' then remaddress P A
     else if name = ''wraptokens'' then ret ()
     else if name = ''stakefio'' then stakefio P A
     else if name = ''unstakefio'' then unstakefio P A
     else if name = ''retire'' then retire P A
     else if name = ''fipxlviii'' \<and> contractaccount A = ''fio.token'' then fipxlviii P A
     else ret ())"

section \<open>Actions of the token contract\<close>

definition transfer_type :: "string \<Rightarrow> string" where
  "transfer_type memot =
     (if find_text ''FIO fee'' memot \<noteq> None then ''blockchain_fee''
      else if find_text ''Paying TPID from treasury'' memot \<noteq> None then ''tpid_reward''
      else if find_text ''Paying Staking Rewards'' memot \<noteq> None then ''staking_reward''
      else if find_text ''Paying producer from treasury'' memot \<noteq> None then ''bp_reward''
      else if find_text ''Paying foundation from treasury'' memot \<noteq> None then ''foundation_reward''
      else if find_text ''Token Wrapping Oracle Fee'' memot \<noteq> None then ''oracle_fee''
      else if find_text ''Token Unwrapping'' memot \<noteq> None then ''unwrap''
      else if find_text ''Token Wrapping'' memot \<noteq> None then ''wrap''
      else ''transfer'')"

text \<open>The amount without its dots and without the first \<open> FIO\<close>.\<close>

definition suf_of_quantity :: "string \<Rightarrow> string" where
  "suf_of_quantity quantity = (let sufamount = filter (\<lambda>c. c \<noteq> CHR ''.'') quantity in
     case find_text '' FIO'' sufamount of
       None \<Rightarrow> sufamount
     | Some position \<Rightarrow> take position sufamount @ drop (position + 4) sufamount)"

definition token_transfer :: "('db, 'ctx, 'pg) action_op" where
  "token_transfer P A =
     andThen (data_field P A ''from'' DISALLOW_EMPTY_VALUES) (\<lambda>payeracct.
     andThen (data_field P A ''to'' DISALLOW_EMPTY_VALUES) (\<lambda>payeeacct.
     andThen (data_field P A ''memo'' DISALLOW_EMPTY_VALUES) (\<lambda>memot.
     andThen (escape P memot) (\<lambda>memo.
     andThen (data_field P A ''quantity'' DISALLOW_EMPTY_VALUES) (\<lambda>quantity.
     run P (instokentransfers A payeracct payeeacct (suf_of_quantity quantity) (transfer_type memot) memo))))))"

definition token_issue :: "('db, 'ctx, 'pg) action_op" where
  "token_issue P A =
     andThen (data_sql_field P A ''memo'' DISALLOW_EMPTY_VALUES) (\<lambda>memo.
     andThen (data_field P A ''quantity'' DISALLOW_EMPTY_VALUES) (\<lambda>quantity.
     run P (instokentransfers A ''fio.token'' ''eosio'' (suf_of_quantity quantity) ''token_mint'' memo)))"

definition bind2eosio :: "('db, 'ctx, 'pg) action_op" where
  "bind2eosio P A =
     andThen (data_field P A ''account'' ALLOW_EMPTY_VALUES) (\<lambda>accountnm.
     andThen (data_field P A ''client_key'' ALLOW_EMPTY_VALUES) (\<lambda>pubkeyt.
     andThen (escape P pubkeyt) (\<lambda>pubkey. stmts [
       run P (insupdaccounts A accountnm pubkey ''true''),
       run P (insaccountactivities A accountnm ''receiver'')])))"

end
