(* ===== verification/Relic.thy ===== *)
theory Relic
  imports RelicActions
begin

text \<open>
  The PostgreSQL exporter, \<open>exp_relic_plugin.cpp\<close>: the handling of each message of the queue,
  the send loop, and the start. It acknowledges a block's predecessor when the block is
  completed. A failed query ends the loop and the receiver.
\<close>

section \<open>Transaction traces\<close>

text \<open>
  The authorisation's first element is assigned to a reference of the action trace, so it
  replaces the trace itself: afterwards only its member \<open>actor\<close> is read, and the data, which
  an earlier reference still reaches.
\<close>

definition first_auth :: "json_value \<Rightarrow> json_value \<Rightarrow> json_value" where
  "first_auth object arrayauth = (case arrayauth of Array (auth # _) \<Rightarrow> auth | _ \<Rightarrow> object)"

definition ordinal :: "string \<Rightarrow> ('s, int) op" where
  "ordinal t = (if t = UNKNOWN_NUMBER_NULL then ret (-1) else defined (atoi t))"

definition token_actions :: "'pg relic_lib \<Rightarrow> fio_action \<Rightarrow> string \<Rightarrow> ('db, 'ctx, 'pg, unit) relic_op" where
  "token_actions P A receiveraccount =
     (if actionname A = ''transfer'' \<and> receiveraccount = ''fio.token'' then token_transfer P A
      else if actionname A = ''issue'' \<and> receiveraccount = ''fio.token'' then token_issue P A
      else if actionname A = ''bind2eosio'' then bind2eosio P A
      else ret ())"

text \<open>\<open>fk\<close> is the index of the transaction, which the rounds of the loop hand on.\<close>

definition action_trace_round ::
    "'pg relic_lib \<Rightarrow> string \<Rightarrow> string \<Rightarrow> string \<Rightarrow> string \<Rightarrow> int \<Rightarrow> json_value \<Rightarrow> ('db, 'ctx, 'pg, int) relic_op" where
  "action_trace_round P block_num timestamp tr_id status fk object =
     andThen (field P UNKNOWN_NUMBER_NULL object [''action_ordinal''] DISALLOW_EMPTY_VALUES) (\<lambda>actionordinal.
     andThen (field P UNKNOWN_NUMBER_NULL object [''creator_action_ordinal''] DISALLOW_EMPTY_VALUES) (\<lambda>creatoractionordinal.
     andThen (field P UNKNOWN_STRING object [''receipt'', ''response''] ALLOW_EMPTY_VALUES) (\<lambda>response.
     andThen (ordinal actionordinal) (\<lambda>iactordinal.
     andThen (ordinal creatoractionordinal) (\<lambda>icactordinal.
     andThen (field P UNKNOWN_STRING object [''receiver''] DISALLOW_EMPTY_VALUES) (\<lambda>receiveraccount.
     andThen (field P UNKNOWN_STRING object [''act'', ''account''] DISALLOW_EMPTY_VALUES) (\<lambda>contract.
     andThen (field P UNKNOWN_STRING object [''act'', ''name''] DISALLOW_EMPTY_VALUES) (\<lambda>name.
     andThen (defined (members_of (rj P) object [''act'', ''data''])) (\<lambda>data.
     let resp = snd (parse (rj P) response) in
     andThen (field P UNKNOWN_NUMBER_0 resp [''fee_collected''] ALLOW_EMPTY_VALUES) (\<lambda>feeamount.
     andThen (defined (members_of (rj P) object [''act'', ''authorization''])) (\<lambda>arrayauth.
     let firstauth = first_auth object arrayauth in
     andThen (field P UNKNOWN_STRING firstauth [''actor''] DISALLOW_EMPTY_VALUES) (\<lambda>actionaccount.
     andThen (if is_object data then field P UNKNOWN_STRING data [''tpid''] ALLOW_EMPTY_VALUES else ret []) (\<lambda>tpid.
     andThen (getjsonsqlescapedstring P UNKNOWN_STRING data [] ALLOW_EMPTY_VALUES) (\<lambda>requestdata.
     let A = (\<lambda>fk. \<lparr>bnums = block_num, blocktimestamp = timestamp, trid = tr_id, fktransactionid = fk, actionname = name,
               contractaccount = contract, actdata = data, respdoc = resp\<rparr>) in
     if icactordinal = 0 \<and> name \<noteq> ''onblock'' \<and> name \<noteq> ''nonce'' then
       andThen (query P (sql_call ''instransactions'' [block_num, quoted timestamp, quoted tr_id, quoted contract,
           quoted actionaccount, quoted name, quoted tpid, feeamount, requestdata, quoted response, quoted status])) (\<lambda>res.
       andThen (first_number fk res) (\<lambda>fk.
       andThen (action_branch P (A fk)) (\<lambda>_.
       if name = ''wraptokens'' then ret fk
       else andThen (token_actions P (A fk) receiveraccount) (\<lambda>_. ret fk))))
     else andThen (whenM (iactordinal > 1 \<and> fk > -1)
           (run P (sql_call ''instraces'' [decimal_int fk, block_num, quoted actionaccount, quoted receiveraccount,
             actionordinal, quoted name, requestdata, quoted timestamp]))) (\<lambda>_.
       andThen (token_actions P (A fk) receiveraccount) (\<lambda>_. ret fk))))))))))))))))"

fun action_traces_loop ::
    "'pg relic_lib \<Rightarrow> string \<Rightarrow> string \<Rightarrow> string \<Rightarrow> string \<Rightarrow> int \<Rightarrow> json_value list \<Rightarrow> ('db, 'ctx, 'pg, unit) relic_op" where
  "action_traces_loop P block_num timestamp tr_id status fk [] = ret ()"
| "action_traces_loop P block_num timestamp tr_id status fk (object # objects) =
     (if \<not> is_object object then action_traces_loop P block_num timestamp tr_id status fk objects
      else andThen (action_trace_round P block_num timestamp tr_id status fk object) (\<lambda>fk.
        action_traces_loop P block_num timestamp tr_id status fk objects))"

definition tx_trace :: "'pg relic_lib \<Rightarrow> json_value \<Rightarrow> string \<Rightarrow> ('db, 'ctx, 'pg, unit) relic_op" where
  "tx_trace P document block_num =
     andThen (field P UNKNOWN_TIMESTAMP document [''data'', ''block_timestamp''] DISALLOW_EMPTY_VALUES) (\<lambda>timestamp.
     andThen (field P UNKNOWN_STRING document [''data'', ''trace'', ''id''] DISALLOW_EMPTY_VALUES) (\<lambda>tr_id.
     andThen (field P UNKNOWN_STRING document [''data'', ''trace'', ''status''] DISALLOW_EMPTY_VALUES) (\<lambda>status.
     andThen (elements P document [''data'', ''trace'', ''action_traces'']) (\<lambda>objects.
     action_traces_loop P block_num timestamp tr_id status (-1) objects))))"

section \<open>Blocks, forks and removed rows\<close>

definition block_message :: "'pg relic_lib \<Rightarrow> json_value \<Rightarrow> string \<Rightarrow> ('db, 'ctx, 'pg, unit) relic_op" where
  "block_message P document block_num =
     andThen (field P UNKNOWN_TIMESTAMP document [''data'', ''block'', ''timestamp''] DISALLOW_EMPTY_VALUES) (\<lambda>btimestamp.
     andThen (field P UNKNOWN_STRING document [''data'', ''block'', ''producer''] DISALLOW_EMPTY_VALUES) (\<lambda>bproducer.
     andThen (field P UNKNOWN_STRING document [''data'', ''block'', ''schedule_version''] DISALLOW_EMPTY_VALUES) (\<lambda>bschedv.
     andThen (field P UNKNOWN_STRING document [''data'', ''block_id''] DISALLOW_EMPTY_VALUES) (\<lambda>bid.
     run P (sql_call ''insblocks'' [block_num, quoted btimestamp, quoted bid, quoted bproducer, quoted bschedv])))))"

definition ack :: "u32 \<Rightarrow> ('db, 'ctx, 'pg, unit) relic_op" where
  "ack n = stmts [rx (\<lambda>x. x\<lparr>effects := effects x @ [Ack n]\<rparr>), onFst (ack_block n)]"

definition fork_message :: "'pg relic_lib \<Rightarrow> string \<Rightarrow> u32 \<Rightarrow> ('db, 'ctx, 'pg, unit) relic_op" where
  "fork_message P block_num bnum = stmts [run P (sql_call ''rbfork'' [block_num]), ack (bnum - 1)]"

definition table_row_message :: "'pg relic_lib \<Rightarrow> json_value \<Rightarrow> ('db, 'ctx, 'pg, unit) relic_op" where
  "table_row_message P document =
     andThen (field P UNKNOWN_TIMESTAMP document [''data'', ''added''] DISALLOW_EMPTY_VALUES) (\<lambda>dataadded.
     andThen (field P UNKNOWN_TIMESTAMP document [''data'', ''kvo'', ''table''] DISALLOW_EMPTY_VALUES) (\<lambda>kvotable.
     andThen (field P UNKNOWN_STRING document [''data''] DISALLOW_EMPTY_VALUES) (\<lambda>datavs.
     if dataadded = ''false'' \<and> kvotable = ''domains'' then rx (\<lambda>x. x\<lparr>domainjsons := domainjsons x @ [datavs]\<rparr>)
     else whenM (dataadded = ''false'' \<and> kvotable = ''fiohandles'')
       (rx (\<lambda>x. x\<lparr>handlejsons := handlejsons x @ [datavs]\<rparr>)))))"

section \<open>Expired domains and handles\<close>

definition auto_burn :: "string \<Rightarrow> 'pg relic \<Rightarrow> string \<Rightarrow> string \<Rightarrow> string" where
  "auto_burn function x block_num name = sql_call function [decimal (unat (burnexpiredtrid x)), block_num,
     quoted name, quoted ''auto_burn'', quoted (burnexpiredtimestamp x)]"

definition burn_domain :: "'pg relic_lib \<Rightarrow> string \<Rightarrow> string \<Rightarrow> ('db, 'ctx, 'pg, unit) relic_op" where
  "burn_domain P block_num datastr = (let object = snd (parse (rj P) datastr) in
     andThen (field P UNKNOWN_STRING object [''kvo'', ''value'', ''name''] ALLOW_EMPTY_VALUES) (\<lambda>domname.
     andThen (field P UNKNOWN_STRING object [''kvo'', ''value'', ''is_public''] ALLOW_EMPTY_VALUES) (\<lambda>ispublic.
     andThen (field P UNKNOWN_TIMESTAMP object [''kvo'', ''value'', ''expiration''] ALLOW_EMPTY_VALUES) (\<lambda>expiration.
     andThen (field P UNKNOWN_STRING object [''block_num''] ALLOW_EMPTY_VALUES) (\<lambda>domainbnum.
     whenM (block_num = domainbnum)
       (andThen (query P (sql_call ''upddomainburnt'' [quoted domname])) (\<lambda>res.
        andThen (first_number 0 res) (\<lambda>updburntres.
        whenM (updburntres = 1) (inspect (\<lambda>(s, x). run P (auto_burn ''insdomainactivities'' x block_num domname)))))))))))"

text \<open>Whether every public address of the list is in the database.\<close>

fun addresses_known :: "'pg relic_lib \<Rightarrow> string \<Rightarrow> json_value list \<Rightarrow> ('db, 'ctx, 'pg, bool) relic_op" where
  "addresses_known P handle [] = ret True"
| "addresses_known P handle (object # objects) =
     (if \<not> is_object object then addresses_known P handle objects
      else
        andThen (field P UNKNOWN_STRING object [''token_code''] DISALLOW_EMPTY_VALUES) (\<lambda>tokencode.
        andThen (field P UNKNOWN_STRING object [''chain_code''] DISALLOW_EMPTY_VALUES) (\<lambda>chaincode.
        andThen (field P UNKNOWN_STRING object [''public_address''] DISALLOW_EMPTY_VALUES) (\<lambda>publicaddress.
        andThen (query P (sql_call ''existspubaddress'' [quoted handle, quoted chaincode, quoted tokencode, quoted publicaddress])) (\<lambda>res.
        andThen (first_number 0 res) (\<lambda>hasparesult.
        if hasparesult = 0 then ret False else addresses_known P handle objects))))))"

text \<open>The addresses are looked for in the message at hand, not in the removed row.\<close>

definition burn_handle :: "'pg relic_lib \<Rightarrow> json_value \<Rightarrow> string \<Rightarrow> string \<Rightarrow> ('db, 'ctx, 'pg, unit) relic_op" where
  "burn_handle P document block_num datastr = (let object = snd (parse (rj P) datastr) in
     andThen (field P UNKNOWN_STRING object [''kvo'', ''value'', ''name''] ALLOW_EMPTY_VALUES) (\<lambda>handle.
     andThen (field P UNKNOWN_TIMESTAMP object [''kvo'', ''value'', ''expiration''] ALLOW_EMPTY_VALUES) (\<lambda>expiration.
     andThen (field P UNKNOWN_STRING object [''block_num''] ALLOW_EMPTY_VALUES) (\<lambda>handlebnum.
     inspect (\<lambda>(s, x). whenM (handle \<notin> set (burnaddresses x) \<and> block_num = handlebnum)
       (andThen (elements P document [''kvo'', ''value'', ''addresses'']) (\<lambda>dvaddresses.
        andThen (addresses_known P handle dvaddresses) (\<lambda>makehandleburnt. whenM makehandleburnt
          (andThen (query P (sql_call ''updhandleburnt'' [block_num, quoted handle])) (\<lambda>res.
           andThen (first_number 0 res) (\<lambda>updhandleres.
           whenM (updhandleres = 1) (inspect (\<lambda>(s, x).
             run P (auto_burn ''inshandleactivities'' x block_num handle))))))))))))))"

definition block_completed_message :: "'pg relic_lib \<Rightarrow> json_value \<Rightarrow> string \<Rightarrow> u32 \<Rightarrow> ('db, 'ctx, 'pg, unit) relic_op" where
  "block_completed_message P document block_num bnum = stmts [
     inspect (\<lambda>(s, x). whenM (burnexpiredthisblock x) (stmts [
       forM (domainjsons x) (burn_domain P block_num),
       forM (handlejsons x) (burn_handle P document block_num)])),
     rx (\<lambda>x. x\<lparr>domainjsons := [], handlejsons := [], burnexpiredthisblock := False, burnexpiredtrid := 0,
       burnexpiredtimestamp := [], burnaddresses := []\<rparr>),
     ack (bnum - 1)]"

section \<open>A message\<close>

definition process_data :: "'pg relic_lib \<Rightarrow> json_value \<Rightarrow> string \<Rightarrow> string \<Rightarrow> ('db, 'ctx, 'pg, unit) relic_op" where
  "process_data P document msgtype block_num =
     andThen (liftE (stoul block_num)) (\<lambda>n. let bnum = ucast n in
       if msgtype = ''BLOCK_COMPLETED'' then block_completed_message P document block_num bnum
       else if msgtype = ''BLOCK'' then block_message P document block_num
       else if msgtype = ''TX_TRACE'' then tx_trace P document block_num
       else if msgtype = ''TBL_ROW'' then table_row_message P document
       else if msgtype = ''FORK'' then fork_message P block_num bnum
       else ret ())"

text \<open>\<open>v.HasMember(k) && p(v[k])\<close>.\<close>

definition has_such :: "rapidjson \<Rightarrow> json_value \<Rightarrow> string \<Rightarrow> (json_value \<Rightarrow> bool) \<Rightarrow> ('s, bool) op" where
  "has_such J v k p = andThen (defined (has_member J v k)) (\<lambda>has.
     if has then andThen (defined (subscript J v k)) (\<lambda>w. ret (p w)) else ret False)"

definition text_of :: "bytes \<Rightarrow> string" where
  "text_of bs = map (\<lambda>b. char_of (unat b)) bs"

definition process_msg :: "'pg relic_lib \<Rightarrow> bytes \<Rightarrow> ('db, 'ctx, 'pg, unit) relic_op" where
  "process_msg P msg = (let document = snd (parse (rj P) (text_of msg)) in
     andThen (has_such (rj P) document ''msgtype'' is_string) (\<lambda>typed.
     andThen (if typed then has_such (rj P) document ''data'' is_object else ret False) (\<lambda>carries_data.
     whenM carries_data
       (andThen (defined (members_of (rj P) document [''data''])) (\<lambda>dataj.
        andThen (has_such (rj P) dataj ''block_num'' is_string) (\<lambda>numbered.
        whenM numbered
          (andThen (defined (Option.bind (members_of (rj P) document [''msgtype'']) get_string)) (\<lambda>msgtype.
           andThen (defined (Option.bind (members_of (rj P) dataj [''block_num'']) get_string)) (\<lambda>block_num.
           process_data P document msgtype block_num)))))))))"

section \<open>The send loop\<close>

definition relic_regulate :: "('db, 'ctx, 'pg, unit) relic_op" where
  "relic_regulate = inspect (\<lambda>(s, x).
     if length (relic_queue x) \<ge> unat (relic_hwm x) then onFst (slowdown True)
     else whenM (length (relic_queue x) < unat (relic_lwm x)) (onFst (slowdown False)))"

definition idle :: "('db, 'ctx, 'pg, unit) relic_op" where
  "idle = rx (\<lambda>x. x\<lparr>relic_pause_time := next_ws_pause (relic_pause_time x),
     relic_timer := Some (next_ws_pause (relic_pause_time x))\<rparr>)"

definition give_up :: "'pg relic_lib \<Rightarrow> ('db, 'ctx, 'pg, unit) relic_op" where
  "give_up P = stmts [finish_if_lost P (ret ()), onFst abort_receiver]"

text \<open>
  \<open>async_send_events\<close> calls itself after each message; nothing is queued meanwhile, so the
  length of the queue bounds the calls.
\<close>

fun send_rounds :: "'pg relic_lib \<Rightarrow> nat \<Rightarrow> ('db, 'ctx, 'pg, unit) relic_op" where
  "send_rounds P 0 = (\<lambda>_. Diverge)"
| "send_rounds P (Suc n) = catching
     (inspect (\<lambda>(s, x). case relic_queue x of
        [] \<Rightarrow> idle
      | msg # rest \<Rightarrow> stmts [
          rx (\<lambda>x. x\<lparr>relic_pause_time := 0\<rparr>),
          relic_regulate,
          rx (\<lambda>x. x\<lparr>relic_msg := Some msg, relic_queue := rest, taken := taken x @ [msg]\<rparr>),
          process_msg P msg,
          send_rounds P n]))
     (\<lambda>_. give_up P)"

definition relic_async_send_events :: "'pg relic_lib \<Rightarrow> ('db, 'ctx, 'pg, unit) relic_op" where
  "relic_async_send_events P = inspect (\<lambda>(s, x). send_rounds P (Suc (length (relic_queue x))))"

section \<open>Events\<close>

definition relic_push_msg :: "bytes \<Rightarrow> ('db, 'ctx, 'pg, unit) relic_op" where
  "relic_push_msg buf = stmts [
     rx (\<lambda>x. x\<lparr>relic_queue := relic_queue x @ [buf]\<rparr>),
     inspect (\<lambda>(s, x). whenM (relic_pause_time x > 0)
       (rx (\<lambda>x. x\<lparr>relic_timer := map_option (\<lambda>_. 0) (relic_timer x)\<rparr>))),
     rx (\<lambda>x. x\<lparr>relic_report_counter := relic_report_counter x - 1\<rparr>),
     inspect (\<lambda>(s, x). whenM (relic_report_counter x = 0) (rx (\<lambda>x. x\<lparr>relic_report_counter := 10000\<rparr>)))]"

definition relic_on_event_json :: "envelope \<Rightarrow> string \<Rightarrow> string \<Rightarrow> ('db, 'ctx, 'pg, unit) relic_op" where
  "relic_on_event_json envelope msgtype event = catching
     (andThen (liftE (envelope msgtype event)) (\<lambda>json. andThen (defined (c_string_copy json)) relic_push_msg))
     (\<lambda>_. onFst abort_receiver)"

definition relic_on_event_bin :: "u32 \<Rightarrow> u32 \<Rightarrow> string \<Rightarrow> ('db, 'ctx, 'pg, unit) relic_op" where
  "relic_on_event_bin msgtype msgopts event =
     relic_push_msg (le_bytes 4 msgtype @ le_bytes 4 msgopts @ bytes_of event)"

definition relic_deliver :: "envelope \<Rightarrow> js_channel \<Rightarrow> string \<Rightarrow> ('db, 'ctx, 'pg, unit) relic_op" where
  "relic_deliver envelope ch event = inspect (\<lambda>(s, x). case map_of (relic_subscriptions x) ch of
      None \<Rightarrow> ret ()
    | Some (On_event_bin msgtype msgopts) \<Rightarrow> relic_on_event_bin msgtype msgopts event
    | Some (On_event_json msgtype) \<Rightarrow> relic_on_event_json envelope msgtype event)"

section \<open>Initialisation and start\<close>

text \<open>The subscriptions are those of the WebSocket exporter. A failed connection leaves none.\<close>

definition relic_init :: "'pg relic_lib \<Rightarrow> ('pg relic, unit) op" where
  "relic_init P = updates (\<lambda>x.
     let conninfo = ''dbname='' @ relic_db x @ '' user='' @ relic_user x @ '' password='' @ relic_password x
           @ '' host='' @ relic_host x @ '' port='' @ relic_port x;
         conn = connectdb (pq P) (c_str conninfo)
     in if \<not> connection_ok (pq P) conn then x\<lparr>relic_conn := None\<rparr>
        else x\<lparr>relic_conn := Some conn,
               relic_subscriptions := (if relic_bin_headers x then bin_subscriptions else json_subscriptions)\<rparr>)"

definition relic_options :: "'pg relic_lib \<Rightarrow> variables_map \<Rightarrow> ('pg relic, unit) op" where
  "relic_options P options = stmts [
     whenM (\<not> given options ''exp-relic-host'' \<or> \<not> given options ''exp-relic-port'')
       (throw (Runtime_error ''Mandatory option missing'')),
     andThen (liftE (as_text options ''exp-relic-host'')) (\<lambda>v. updates (\<lambda>x. x\<lparr>relic_host := v\<rparr>)),
     andThen (liftE (as_text options ''exp-relic-port'')) (\<lambda>v. updates (\<lambda>x. x\<lparr>relic_port := v\<rparr>)),
     andThen (liftE (as_text options ''exp-relic-username'')) (\<lambda>v. updates (\<lambda>x. x\<lparr>relic_user := v\<rparr>)),
     andThen (liftE (as_text options ''exp-relic-password'')) (\<lambda>v. updates (\<lambda>x. x\<lparr>relic_password := v\<rparr>)),
     andThen (liftE (as_text options ''exp-relic-db'')) (\<lambda>v. updates (\<lambda>x. x\<lparr>relic_db := v\<rparr>)),
     andThen (liftE (as_unsigned options ''exp-relic-max-unack'')) (\<lambda>v. updates (\<lambda>x. x\<lparr>relic_maxunack := v\<rparr>)),
     inspect (\<lambda>x. whenM (relic_maxunack x = 0)
       (throw (Runtime_error ''Maximum unacked blocks must be a positive integer''))),
     andThen (liftE (as_unsigned options ''exp-reic-max-queue'')) (\<lambda>v. updates (\<lambda>x. x\<lparr>relic_hwm := v\<rparr>)),
     inspect (\<lambda>x. whenM (relic_hwm x = 0)
       (throw (Runtime_error ''Maximum queue size must be a positive integer''))),
     updates (\<lambda>x. x\<lparr>relic_lwm := relic_hwm x * 3 div 4\<rparr>),
     andThen (liftE (as_switch options ''exp-relic-bin-header'')) (\<lambda>v. updates (\<lambda>x. x\<lparr>relic_bin_headers := v\<rparr>)),
     relic_init P]"

definition relic_plugin_initialize :: "'pg relic_lib \<Rightarrow> variables_map \<Rightarrow> (app \<times> 'pg relic, unit) op" where
  "relic_plugin_initialize P options = andThen (liftE (is_noexport_opt options)) (\<lambda>noexport.
     whenM (\<not> noexport) (stmts [
       onFst (initialize_decoder options),
       onFst (donot_start_receiver_before ''exp_relic_plugin''),
       onSnd (relic_options P options),
       onFst exporter_initialized]))"

definition relic_start :: "('db, 'ctx) env \<Rightarrow> 'pg relic_lib \<Rightarrow> ('db, 'ctx, 'pg, unit) relic_op" where
  "relic_start E P = stmts [
     whenM (\<not> interactive_mode (cfg E))
       (inspect (\<lambda>(s, x). onFst (exporter_will_ack_blocks E (relic_maxunack x)))),
     relic_async_send_events P]"

definition relic_plugin_startup :: "('db, 'ctx) env \<Rightarrow> 'pg relic_lib \<Rightarrow> ('db, 'ctx, 'pg, unit) relic_op" where
  "relic_plugin_startup E P = whenM (\<not> noexport_mode (cfg E)) (relic_start E P)"

section \<open>A run\<close>

text \<open>What the executor runs after the start; the receiver has transitions of its own.\<close>

datatype relic_input = Relic_event js_channel string | Relic_timer

fun relic_enabled :: "relic_input \<Rightarrow> 'pg relic \<Rightarrow> bool" where
  "relic_enabled (Relic_event ch event) x = True"
| "relic_enabled Relic_timer x = (relic_timer x \<noteq> None)"

fun relic_handle :: "'pg relic_lib \<Rightarrow> envelope \<Rightarrow> relic_input \<Rightarrow> ('db, 'ctx, 'pg, unit) relic_op" where
  "relic_handle P J (Relic_event ch event) = relic_deliver J ch event"
| "relic_handle P J Relic_timer = stmts [rx (\<lambda>x. x\<lparr>relic_timer := None\<rparr>), relic_async_send_events P]"

inductive relic_run :: "('db, 'ctx) env \<Rightarrow> 'pg relic_lib \<Rightarrow> envelope \<Rightarrow> ('db, 'ctx) receiver \<times> 'pg relic \<Rightarrow>
    relic_input list \<Rightarrow> ('db, 'ctx) receiver \<times> 'pg relic \<Rightarrow> bool"
  for E :: "('db, 'ctx) env" and P :: "'pg relic_lib" and J :: envelope and c :: "('db, 'ctx) receiver \<times> 'pg relic" where
  relic_none: "relic_run E P J c [] c"
| relic_input: "relic_run E P J c is (s, x) \<Longrightarrow> relic_enabled i x \<Longrightarrow> relic_handle P J i (s, x) = Return () d \<Longrightarrow>
    relic_run E P J c (is @ [i]) d"
| relic_receiver: "relic_run E P J c is (s, x) \<Longrightarrow> own_step E s t \<Longrightarrow> relic_run E P J c is (t, x)"

inductive_cases relic_run_cases: "relic_run E P J c is d"

end
