(* ===== verification/RelicFrame.thy ===== *)
theory RelicFrame
  imports Relic
begin

text \<open>
  What the handling of a message leaves alone: the queue, the timer and the other members of
  the send loop. It touches the receiver through its client interface only, it adds to the
  effects, and it always ends.
\<close>

section \<open>The frame\<close>

text \<open>The members that only the send loop and the events change.\<close>

definition machine where
  "machine x = (relic_queue x, relic_timer x, relic_pause_time x, relic_subscriptions x, relic_hwm x, relic_lwm x,
     relic_report_counter x, taken x, relic_msg x)"

definition relic_frame ::
    "('db, 'ctx) env \<Rightarrow> ('db, 'ctx) receiver \<times> 'pg relic \<Rightarrow> ('db, 'ctx) receiver \<times> 'pg relic \<Rightarrow> bool" where
  "relic_frame E c d \<longleftrightarrow> (step E)\<^sup>*\<^sup>* (fst c) (fst d) \<and> machine (snd d) = machine (snd c)
     \<and> (\<exists>es. effects (snd d) = effects (snd c) @ es)"

lemma relic_frame_refl [simp]: "relic_frame E c c"
  by (simp add: relic_frame_def)

lemma relic_frame_trans: "relic_frame E c d \<Longrightarrow> relic_frame E d e \<Longrightarrow> relic_frame E c e"
  unfolding relic_frame_def by (metis append_assoc rtranclp_trans)

definition calm :: "('db, 'ctx) env \<Rightarrow> ('db, 'ctx, 'pg, 'a) relic_op \<Rightarrow> bool" where
  "calm E m \<longleftrightarrow> (\<forall>c. case m c of
      Return a d \<Rightarrow> relic_frame E c d
    | Throw e d \<Rightarrow> relic_frame E c d
    | Diverge \<Rightarrow> False
    | Undefined \<Rightarrow> True)"

lemma calmD:
  assumes "calm E m"
  shows "m c = Return a d \<Longrightarrow> relic_frame E c d" "m c = Throw e d \<Longrightarrow> relic_frame E c d" "m c \<noteq> Diverge"
  using assms [unfolded calm_def, THEN spec, of c] by auto

lemma calm_ret: "calm E (ret a)"
  by (simp add: calm_def ret_def)

lemma calm_throw: "calm E (throw e)"
  by (simp add: calm_def throw_def)

lemma calm_andThen:
  assumes "calm E m" and "\<And>a. calm E (f a)"
  shows "calm E (andThen m f)"
  unfolding calm_def
proof
  fix c
  show "case andThen m f c of Return a d \<Rightarrow> relic_frame E c d | Throw e d \<Rightarrow> relic_frame E c d
    | Diverge \<Rightarrow> False | Undefined \<Rightarrow> True"
  proof (cases "m c")
    case (Return a d)
    then have "relic_frame E c d" by (rule calmD(1) [OF assms(1)])
    moreover have "case f a d of Return b e \<Rightarrow> relic_frame E d e | Throw x e \<Rightarrow> relic_frame E d e
        | Diverge \<Rightarrow> False | Undefined \<Rightarrow> True"
      using assms(2) [of a, unfolded calm_def] by (rule spec)
    ultimately show ?thesis using Return
      by (auto simp: andThen_def split: outcome.splits intro: relic_frame_trans)
  next
    case (Throw e d)
    then show ?thesis using calmD(2) [OF assms(1)] by (simp add: andThen_def)
  qed (use calmD(3) [OF assms(1)] in \<open>auto simp: andThen_def\<close>)
qed

lemma calm_whenM: "(b \<Longrightarrow> calm E m) \<Longrightarrow> calm E (whenM b m)"
  by (cases b) (simp_all add: whenM_def calm_ret)

lemma calm_inspect: "(\<And>c. calm E (f c)) \<Longrightarrow> calm E (inspect f)"
  by (auto simp: calm_def inspect_def)

lemma calm_stmts_Nil: "calm E (stmts [])"
  by (simp add: calm_ret)

lemma calm_stmts_Cons: "calm E m \<Longrightarrow> calm E (stmts ms) \<Longrightarrow> calm E (stmts (m # ms))"
  by (simp add: calm_andThen)

lemma calm_if: "(b \<Longrightarrow> calm E m) \<Longrightarrow> (\<not> b \<Longrightarrow> calm E n) \<Longrightarrow> calm E (if b then m else n)"
  by simp

lemma calm_let: "(\<And>x. calm E (f x)) \<Longrightarrow> calm E (let x = a in f x)"
  by simp

lemma calm_case_prod: "(\<And>x y. calm E (f x y)) \<Longrightarrow> calm E (case p of (x, y) \<Rightarrow> f x y)"
  by (cases p) simp

lemma calm_case_option: "calm E m \<Longrightarrow> (\<And>x. calm E (f x)) \<Longrightarrow> calm E (case v of None \<Rightarrow> m | Some x \<Rightarrow> f x)"
  by (cases v) simp_all

lemma calm_liftE: "calm E (liftE r)"
  by (cases r) (simp_all add: liftE_def calm_ret calm_throw)

lemma calm_forM: "(\<And>x. calm E (f x)) \<Longrightarrow> calm E (forM xs f)"
  by (induction xs) (simp_all add: calm_ret calm_andThen)

lemma calm_undefined: "calm E (\<lambda>_. Undefined)"
  by (simp add: calm_def)

lemma calm_defined: "calm E (defined v)"
  by (cases v) (simp_all add: defined_def calm_def)

lemma calm_rx:
  assumes "\<And>x. machine (f x) = machine x" and "\<And>x. \<exists>es. effects (f x) = effects x @ es"
  shows "calm E (rx f)"
  using assms by (auto simp: calm_def rx_def updates_def relic_frame_def)

lemma calm_abort: "calm E (onFst abort_receiver)"
  unfolding calm_def
proof
  fix c :: "('a, 'b) receiver \<times> 'c relic"
  obtain t where "abort_receiver (fst c) = Return () t" by (simp add: abort_receiver_eq)
  then show "case onFst abort_receiver c of Return a d \<Rightarrow> relic_frame E c d | Throw e d \<Rightarrow> relic_frame E c d
    | Diverge \<Rightarrow> False | Undefined \<Rightarrow> True"
    using aborted [of "fst c" t E] by (cases c) (auto simp: onFst_def relic_frame_def)
qed

lemma calm_ack_block: "calm E (onFst (ack_block n))"
  unfolding calm_def
proof
  fix c :: "('a, 'b) receiver \<times> 'c relic"
  show "case onFst (ack_block n) c of Return a d \<Rightarrow> relic_frame E c d | Throw e d \<Rightarrow> relic_frame E c d
    | Diverge \<Rightarrow> False | Undefined \<Rightarrow> True"
    using ack_block_cases [of n "fst c"] by (cases c) (auto simp: onFst_def relic_frame_def intro!: acked)
qed

lemmas calm_rule = calm_ret calm_throw calm_andThen calm_whenM calm_inspect calm_stmts_Nil calm_stmts_Cons calm_if
  calm_let calm_case_prod calm_case_option calm_liftE calm_forM calm_undefined calm_defined calm_abort calm_ack_block

section \<open>The primitives\<close>

lemma calm_with_conn: "(\<And>conn. calm E (f conn)) \<Longrightarrow> calm E (with_conn f)"
  unfolding with_conn_def by (intro calm_rule)

lemma calm_exec_query: "calm E (exec_query P q)"
  unfolding exec_query_def by (intro calm_rule calm_with_conn calm_rx) (simp_all add: machine_def)

lemma calm_finish_if_lost: "calm E m \<Longrightarrow> calm E (finish_if_lost P m)"
  unfolding finish_if_lost_def by (intro calm_rule calm_with_conn calm_rx) (simp_all add: machine_def)

lemma calm_terminalerror: "calm E (terminalerror P)"
  unfolding terminalerror_def by (intro calm_rule calm_finish_if_lost)

lemma calm_query: "calm E (query P q)"
  unfolding query_def by (intro calm_rule calm_exec_query calm_terminalerror)

lemma calm_run: "calm E (run P q)"
  unfolding run_def by (intro calm_rule calm_query)

lemma calm_first_number: "calm E (first_number n res)"
  unfolding first_number_def by (intro calm_rule)

lemma calm_field: "calm E (field P d v ks allow)"
  unfolding field_def by (intro calm_rule)

lemma calm_escape: "calm E (escape P t)"
  unfolding escape_def by (intro calm_rule calm_with_conn)

lemma calm_sql_field: "calm E (getjsonsqlescapedstring P d v ks allow)"
  unfolding getjsonsqlescapedstring_def by (intro calm_rule calm_field calm_escape)

lemma calm_account_of: "calm E (account_of P k)"
  unfolding account_of_def by (intro calm_rule) (simp add: calm_ret calm_undefined split: sum.split)

lemma calm_elements: "calm E (elements P v ks)"
  unfolding elements_def by (intro calm_rule)

lemma calm_ordinal: "calm E (ordinal t)"
  unfolding ordinal_def by (intro calm_rule)

lemma calm_has_such: "calm E (has_such J v k p)"
  unfolding has_such_def by (intro calm_rule)

lemma calm_not_an_object: "calm E m \<Longrightarrow> calm E (not_an_object P m)"
  unfolding not_an_object_def by (intro calm_rule calm_finish_if_lost)

lemma calm_for_objects: "calm E m \<Longrightarrow> (\<And>v. calm E (f v)) \<Longrightarrow> calm E (for_objects P m vs f)"
  unfolding for_objects_def by (intro calm_rule calm_not_an_object)

lemmas calm_steps = calm_rule calm_with_conn calm_exec_query calm_finish_if_lost calm_terminalerror calm_query calm_run
  calm_first_number calm_field calm_escape calm_sql_field calm_account_of calm_elements calm_ordinal calm_has_such
  calm_for_objects

section \<open>The branches\<close>

lemma calm_owner: "calm E (actor_account_info P a)" "calm E (resolve_owner P A a k p w)"
  unfolding actor_account_info_def resolve_owner_def by (intro calm_steps)+

lemmas domain_branches = trnsfiopubky_def regdomain_def renewdomain_def xferdomain_def setdomainpub_def
  wrapdomain_def xferescrow_def

lemmas handle_branches = updcryptkey_def regaddress_def renewaddress_def addbundles_def xferaddress_def
  newfundsreq_def recordobt_def cancelfndreq_def rejectfndreq_def

lemmas list_branches = addnft_def remnft_def remallnfts_def remalladdr_def addaddress_def remaddress_def
  stakefio_def unstakefio_def retire_def fipxlviii_def

lemma calm_domain_branches:
  "calm E (trnsfiopubky P A)" "calm E (regdomain P A)" "calm E (renewdomain P A)" "calm E (xferdomain P A)"
  "calm E (setdomainpub P A)" "calm E (wrapdomain P A)" "calm E (xferescrow P A)"
  unfolding domain_branches by (intro calm_steps calm_owner)+

lemma calm_handle_branches:
  "calm E (updcryptkey P A)" "calm E (regaddress P A)" "calm E (renewaddress P A)" "calm E (addbundles P A)"
  "calm E (xferaddress P A)" "calm E (newfundsreq P A)" "calm E (recordobt P A)" "calm E (cancelfndreq P A)"
  "calm E (rejectfndreq P A)"
  unfolding handle_branches by (intro calm_steps calm_owner)+

lemma calm_list_branches:
  "calm E (addnft P A)" "calm E (remnft P A)" "calm E (remallnfts P A)" "calm E (remalladdr P A)"
  "calm E (addaddress P A)" "calm E (remaddress P A)" "calm E (stakefio P A)" "calm E (unstakefio P A)"
  "calm E (retire P A)" "calm E (fipxlviii P A)"
  unfolding list_branches by (intro calm_steps)+

lemma calm_burn_branches: "calm E (burnexpired P A)" "calm E (burnaddress P A)"
  unfolding burnexpired_def burnaddress_def by (intro calm_steps calm_rx; simp add: machine_def)+

lemma calm_action_branch: "calm E (action_branch P A)"
  unfolding action_branch_def Let_def
  by (intro calm_if calm_ret calm_domain_branches calm_handle_branches calm_list_branches calm_burn_branches)

lemma calm_token_actions: "calm E (token_actions P A r)"
  unfolding token_actions_def token_transfer_def token_issue_def bind2eosio_def by (intro calm_steps)

section \<open>A message\<close>

lemma calm_round: "calm E (action_trace_round P n t i st fk v)"
  unfolding action_trace_round_def by (intro calm_steps calm_action_branch calm_token_actions)

lemma calm_traces_loop: "calm E (action_traces_loop P n t i st fk vs)"
  by (induction vs arbitrary: fk) (auto intro!: calm_ret calm_andThen calm_round)

lemma calm_addresses_known: "calm E (addresses_known P h vs)"
  by (induction vs) (auto intro!: calm_steps)

lemma calm_burns: "calm E (burn_domain P n r)" "calm E (burn_handle P d n r)"
  unfolding burn_domain_def burn_handle_def by (intro calm_steps calm_addresses_known)+

lemma calm_ack: "calm E (ack n)"
  unfolding ack_def by (intro calm_steps calm_rx) (simp_all add: machine_def)

lemma calm_messages:
  "calm E (tx_trace P d n)" "calm E (block_message P d n)" "calm E (fork_message P n b)"
  unfolding tx_trace_def block_message_def fork_message_def by (intro calm_steps calm_traces_loop calm_ack)+

lemma calm_table_row: "calm E (table_row_message P d)"
  unfolding table_row_message_def by (intro calm_steps calm_rx) (simp_all add: machine_def)

lemma calm_block_completed: "calm E (block_completed_message P d n b)"
  unfolding block_completed_message_def by (intro calm_steps calm_rx calm_burns calm_ack) (simp_all add: machine_def)

lemma calm_process_msg: "calm E (process_msg P msg)"
  unfolding process_msg_def process_data_def
  by (intro calm_steps calm_messages calm_table_row calm_block_completed)

end
