(* ===== verification/RelicLoop.thy ===== *)
theory RelicLoop
  imports RelicFrame
begin

text \<open>
  The send loop of the PostgreSQL exporter: it ends, it takes every message once and in order,
  and after a failure it is dead for good; and how its acknowledgements drive the receiver.
\<close>

section \<open>A call of the loop\<close>


lemma relic_regulate_run:
  obtains t where "relic_regulate (s, x) = Return () (t, x)" and "(step E)\<^sup>*\<^sup>* s t"
proof -
  have slow: "(step E)\<^sup>*\<^sup>* s (s\<lparr>slowdown_requested := b\<rparr>)" for b
    by (rule r_into_rtranclp, rule slowed [of b]) (simp add: slowdown_def updates_def)
  let ?t = "if length (relic_queue x) \<ge> unat (relic_hwm x) then s\<lparr>slowdown_requested := True\<rparr>
    else if length (relic_queue x) < unat (relic_lwm x) then s\<lparr>slowdown_requested := False\<rparr> else s"
  have "relic_regulate (s, x) = Return () (?t, x)"
    by (simp add: relic_regulate_def op_defs onFst_def slowdown_def)
  moreover have "(step E)\<^sup>*\<^sup>* s ?t" using slow by auto
  ultimately show ?thesis by (rule that)
qed

lemma give_up_cases:
  "give_up P c = Undefined \<or> (\<exists>t y. give_up P c = Return () (t, y) \<and> relic_frame E c (t, y) \<and> quitting t)"
proof -
  have "calm E (give_up P)" unfolding give_up_def by (intro calm_steps)
  note frame = calmD(1) [OF this, of c]
  have "give_up P c = Undefined \<or> (\<exists>t y. give_up P c = Return () (t, y) \<and> quitting t)"
    by (cases c) (auto simp: give_up_def finish_if_lost_def with_conn_def op_defs defined_def rx_def onFst_def
        abort_receiver_eq split: option.splits)
  then show ?thesis using frame by blast
qed

text \<open>What a call leads to: the queue is served and the timer set, or the receiver was told to quit.\<close>

definition served :: "('db, 'ctx) env \<Rightarrow> ('db, 'ctx) receiver \<times> 'pg relic \<Rightarrow> ('db, 'ctx) receiver \<times> 'pg relic \<Rightarrow> bool" where
  "served E c d \<longleftrightarrow> (step E)\<^sup>*\<^sup>* (fst c) (fst d) \<and> relic_subscriptions (snd d) = relic_subscriptions (snd c)
     \<and> taken (snd d) @ relic_queue (snd d) = taken (snd c) @ relic_queue (snd c)
     \<and> (relic_queue (snd d) = [] \<and> relic_timer (snd d) \<noteq> None \<or> relic_timer (snd d) = relic_timer (snd c) \<and> quitting (fst d))"

lemma served_after:
  assumes "(step E)\<^sup>*\<^sup>* s s'" and "relic_frame E (s', x') d" and "served E d e" and "relic_queue x = msg # rest"
    and "x' = x\<lparr>relic_pause_time := 0, relic_msg := Some msg, relic_queue := rest, taken := taken x @ [msg]\<rparr>"
  shows "served E (s, x) e"
  using assms by (auto simp: served_def relic_frame_def machine_def)

lemma served_failed:
  assumes "(step E)\<^sup>*\<^sup>* s s'" and "relic_frame E (s', x') d" and "relic_queue x = msg # rest" and "quitting (fst d)"
    and "x' = x\<lparr>relic_pause_time := 0, relic_msg := Some msg, relic_queue := rest, taken := taken x @ [msg]\<rparr>"
  shows "served E (s, x) d"
  using assms by (auto simp: served_def relic_frame_def machine_def)

lemma send_rounds_served:
  assumes "length (relic_queue x) < n"
  shows "send_rounds P n (s, x) = Undefined \<or> (\<exists>d. send_rounds P n (s, x) = Return () d \<and> served E (s, x) d)"
  using assms
proof (induction n arbitrary: s x)
  case (Suc n)
  show ?case
  proof (cases "relic_queue x")
    case Nil
    then show ?thesis by (simp add: op_defs idle_def rx_def served_def)
  next
    case (Cons msg rest)
    obtain s' where reg: "relic_regulate (s, x\<lparr>relic_pause_time := 0\<rparr>) = Return () (s', x\<lparr>relic_pause_time := 0\<rparr>)"
      and steps: "(step E)\<^sup>*\<^sup>* s s'" by (rule relic_regulate_run)
    let ?x = "x\<lparr>relic_pause_time := 0, relic_msg := Some msg, relic_queue := rest, taken := taken x @ [msg]\<rparr>"
    have body: "send_rounds P (Suc n) (s, x) = catching (andThen (process_msg P msg) (\<lambda>_. send_rounds P n)) (\<lambda>_. give_up P) (s', ?x)"
      using reg Cons by (simp add: op_defs rx_def split: outcome.splits)
    note calm = calmD [OF calm_process_msg [of E P msg], of "(s', ?x)"]
    show ?thesis
    proof (cases "process_msg P msg (s', ?x)")
      case (Return u d)
      then have frame: "relic_frame E (s', ?x) d" by (rule calm(1))
      then have "length (relic_queue (snd d)) < n"
        using Suc.prems Cons by (simp add: relic_frame_def machine_def)
      then have "send_rounds P n d = Undefined \<or> (\<exists>e. send_rounds P n d = Return () e \<and> served E d e)"
        using Suc.IH [of "snd d" "fst d"] by simp
      then show ?thesis
        unfolding body using Return served_after [OF steps frame _ Cons refl]
        by (auto simp: catching_def andThen_def)
    next
      case (Throw e d)
      then have frame: "relic_frame E (s', ?x) d" by (rule calm(2))
      show ?thesis
        using give_up_cases [of P d E] Throw served_failed [OF steps relic_frame_trans [OF frame] Cons _ refl]
        unfolding body by (auto simp: catching_def andThen_def)
    next
      case Diverge
      then show ?thesis using calm(3) by simp
    next
      case Undefined
      then show ?thesis unfolding body by (simp add: catching_def andThen_def)
    qed
  qed
qed simp

lemma async_send_served:
  "relic_async_send_events P c = Undefined \<or> (\<exists>d. relic_async_send_events P c = Return () d \<and> served E c d)"
  using send_rounds_served [of "snd c" "Suc (length (relic_queue (snd c)))" P "fst c" E]
  by (cases c) (simp add: relic_async_send_events_def inspect_def)

section \<open>Runs\<close>

lemma wp_rx [wp_simps]: "wp D (rx f) Q X (s, x) = Q () (s, f x)"
  by (simp add: rx_def wp_simps)

lemma wp_defined [wp_simps]: "wp D (defined v) Q X c = (case v of None \<Rightarrow> D | Some a \<Rightarrow> Q a c)"
  by (simp add: defined_def wp_def split: option.splits)

lemma wp_relic_push_msg [wp_simps]:
  "wp D (relic_push_msg b) Q X (s, x) = Q () (s, x\<lparr>relic_queue := relic_queue x @ [b],
     relic_timer := (if relic_pause_time x > 0 then map_option (\<lambda>_. 0) (relic_timer x) else relic_timer x),
     relic_report_counter := (if relic_report_counter x = 1 then 10000 else relic_report_counter x - 1)\<rparr>)"
  by (cases x) (simp add: relic_push_msg_def wp_simps)

lemma wp_relic_abort: "wp D abort_receiver Q X s = Q () (if \<not> aborting s \<and> stream_open s
     then s\<lparr>stream_open := False, aborting := True, quitting := True\<rparr> else s\<lparr>quitting := True\<rparr>)"
  by (simp add: wp_def abort_receiver_eq)

text \<open>The messages that an input adds, and what an event does.\<close>

fun relic_messages :: "envelope \<Rightarrow> (js_channel \<times> handler) list \<Rightarrow> relic_input \<Rightarrow> bytes list" where
  "relic_messages J subs (Relic_event ch event) = framed J (map_of subs ch) event"
| "relic_messages J subs Relic_timer = []"

definition received :: "('db, 'ctx) env \<Rightarrow> bytes list \<Rightarrow> ('db, 'ctx) receiver \<times> 'pg relic \<Rightarrow> ('db, 'ctx) receiver \<times> 'pg relic \<Rightarrow> bool" where
  "received E msgs c d \<longleftrightarrow> (step E)\<^sup>*\<^sup>* (fst c) (fst d) \<and> relic_subscriptions (snd d) = relic_subscriptions (snd c)
     \<and> taken (snd d) = taken (snd c) \<and> relic_queue (snd d) = relic_queue (snd c) @ msgs
     \<and> effects (snd d) = effects (snd c) \<and> (relic_timer (snd d) = None \<longleftrightarrow> relic_timer (snd c) = None)
     \<and> (quitting (fst c) \<longrightarrow> quitting (fst d))"

lemma deliver_received:
  "wp True (relic_deliver J ch event) (\<lambda>_ d. received E (framed J (map_of (relic_subscriptions x) ch) event) (s, x) d)
     (\<lambda>_ _. True) (s, x)"
proof -
  have abort: "(step E)\<^sup>*\<^sup>* s (if \<not> aborting s \<and> stream_open s
     then s\<lparr>stream_open := False, aborting := True, quitting := True\<rparr> else s\<lparr>quitting := True\<rparr>)"
    by (rule r_into_rtranclp, rule aborted, rule abort_receiver_eq)
  show ?thesis
    using abort by (auto simp: relic_deliver_def relic_on_event_bin_def relic_on_event_json_def wp_simps wp_relic_abort
        received_def dest!: c_string_copy_Some split: option.splits handler.splits sum.splits)
qed

lemma handle_timer:
  "relic_handle P J Relic_timer (s, x) = Return () d \<Longrightarrow> served E (s, x\<lparr>relic_timer := None\<rparr>) d"
  using async_send_served [of P "(s, x\<lparr>relic_timer := None\<rparr>)" E]
  by (auto simp: andThen_def rx_def updates_def ret_def split: outcome.splits)

lemma relic_stream_step:
  assumes "relic_handle P J i (s, x) = Return () d"
  shows "(step E)\<^sup>*\<^sup>* s (fst d) \<and> relic_subscriptions (snd d) = relic_subscriptions x
    \<and> taken (snd d) @ relic_queue (snd d) = taken x @ relic_queue x @ relic_messages J (relic_subscriptions x) i"
proof (cases i)
  case (Relic_event ch event)
  then show ?thesis
    using wp_total [OF _ deliver_received, of J ch event s x "()" d E] assms by (simp add: received_def)
next
  case Relic_timer
  then show ?thesis using handle_timer [of P J s x d E] assms by (simp add: served_def)
qed

text \<open>
  C28: No message is lost, doubled or reordered on the way to the database, and the exporter
  uses the receiver through its client interface only: at every moment of a run, the messages
  taken from the queue followed by those still queued are exactly those of the events
  delivered so far, and the receiver went only through transitions it offers.
\<close>

theorem relic_stream:
  assumes "relic_run E P J (s0, x0) is (t, y)"
  shows "(step E)\<^sup>*\<^sup>* s0 t \<and> taken y @ relic_queue y
    = taken x0 @ relic_queue x0 @ concat (map (relic_messages J (relic_subscriptions x0)) is)"
proof -
  have "(step E)\<^sup>*\<^sup>* s0 (fst d) \<and> relic_subscriptions (snd d) = relic_subscriptions x0
    \<and> taken (snd d) @ relic_queue (snd d)
      = taken x0 @ relic_queue x0 @ concat (map (relic_messages J (relic_subscriptions x0)) is)"
    if "relic_run E P J (s0, x0) is d" for d
    using that
  proof induction
    case (relic_input "is" s x i d)
    then show ?case using relic_stream_step [OF relic_input.hyps(3), of E]
      by (auto intro: rtranclp_trans simp: append_assoc [symmetric] simp del: append_assoc)
  next
    case (relic_receiver "is" s x t)
    then show ?case by (auto intro: rtranclp.rtrancl_into_rtrancl own)
  qed simp
  from this [OF assms] show ?thesis by simp
qed

section \<open>A failure is final\<close>

definition alive_or_quit :: "('db, 'ctx) receiver \<times> 'pg relic \<Rightarrow> bool" where
  "alive_or_quit c \<longleftrightarrow> relic_timer (snd c) \<noteq> None \<or> quitting (fst c)"

lemma alive_or_quit_input:
  assumes "alive_or_quit (s, x)" and "relic_handle P J i (s, x) = Return () d"
  shows "alive_or_quit d"
proof (cases i)
  case (Relic_event ch event)
  then show ?thesis
    using wp_total [OF _ deliver_received, of J ch event s x "()" d] assms by (auto simp: received_def alive_or_quit_def)
next
  case Relic_timer
  then show ?thesis using handle_timer [of P J s x d] assms by (auto simp: served_def alive_or_quit_def)
qed

lemma alive_or_quit_run: "relic_run E P J c is d \<Longrightarrow> alive_or_quit c \<Longrightarrow> alive_or_quit d"
proof (induction rule: relic_run.induct)
  case (relic_input "is" s x i d)
  then show ?case using alive_or_quit_input by blast
next
  case (relic_receiver "is" s x t)
  then show ?case using own_step_frame [OF relic_receiver.hyps(2)] by (auto simp: alive_or_quit_def client_frame_def)
qed simp

lemma dead_run:
  "relic_run E P J c is d \<Longrightarrow> relic_timer (snd c) = None \<Longrightarrow>
     relic_timer (snd d) = None \<and> effects (snd d) = effects (snd c)"
proof (induction rule: relic_run.induct)
  case (relic_input "is" s x i d)
  then obtain ch event where "i = Relic_event ch event" by (cases i) auto
  then show ?case
    using wp_total [OF _ deliver_received, of J ch event s x "()" d] relic_input by (simp add: received_def)
qed simp_all

text \<open>
  C30: The loop stops only with the receiver, and for good: after a start, at every moment of a
  run either the timer of the loop is set or the receiver has been told to quit; and once the
  timer is not set, no continuation of the run sends another query to the database or
  acknowledges another block, so after a failed query nothing is acknowledged.
\<close>

theorem relic_failure_final:
  assumes "relic_start E P (s, x) = Return () c" and "relic_timer x = None" and "relic_run E P J c is (t, y)"
  shows "(relic_timer y \<noteq> None \<or> quitting t)
    \<and> (\<forall>more_is u z. relic_timer y = None \<and> relic_run E P J (t, y) more_is (u, z)
        \<longrightarrow> effects z = effects y \<and> relic_timer z = None \<and> quitting u)"
proof -
  have "alive_or_quit c"
  proof -
    obtain s' where "relic_async_send_events P (s', x) = Return () c"
      using assms(1) by (auto simp: relic_start_def andThen_Return ret_def whenM_def inspect_def onFst_def
          exporter_will_ack_blocks_def op_defs split: if_splits outcome.splits)
    then show ?thesis
      using async_send_served [of P "(s', x)"] by (auto simp: served_def alive_or_quit_def)
  qed
  then have now: "alive_or_quit (t, y)" by (rule alive_or_quit_run [OF assms(3)])
  then show ?thesis
    using alive_or_quit_run [of E P J "(t, y)"] dead_run [of E P J "(t, y)"]
    by (fastforce simp: alive_or_quit_def)
qed

end
