(* ===== verification/RelicAnswers.thy ===== *)
theory RelicAnswers
  imports RelicLoop
begin

text \<open>
  What the PostgreSQL exporter does with the answers of the database: it goes on only after a
  query that was answered, and a rejected query is the last thing it does.
\<close>

section \<open>The answers to a list of queries\<close>

text \<open>The database is replayed: a query may change what the connection answers to the next.\<close>

fun queries :: "relic_effect list \<Rightarrow> string list" where
  "queries [] = []"
| "queries (Query q # es) = q # queries es"
| "queries (Ack n # es) = queries es"

fun conn_after :: "'pg relic_lib \<Rightarrow> 'pg \<Rightarrow> string list \<Rightarrow> 'pg" where
  "conn_after P conn [] = conn"
| "conn_after P conn (q # qs) = conn_after P (fst (pq_exec (pq P) conn (c_str q))) qs"

definition rejected :: "'pg relic_lib \<Rightarrow> 'pg \<Rightarrow> string \<Rightarrow> bool" where
  "rejected P conn q \<longleftrightarrow> \<not> tuples_ok (snd (pq_exec (pq P) conn (c_str q)))"

fun all_answered :: "'pg relic_lib \<Rightarrow> 'pg \<Rightarrow> string list \<Rightarrow> bool" where
  "all_answered P conn [] = True"
| "all_answered P conn (q # qs) \<longleftrightarrow> \<not> rejected P conn q \<and> all_answered P (fst (pq_exec (pq P) conn (c_str q))) qs"

lemma queries_append [simp]: "queries (es @ fs) = queries es @ queries fs"
  by (induction es rule: queries.induct) simp_all

lemma conn_after_append [simp]: "conn_after P conn (ps @ qs) = conn_after P (conn_after P conn ps) qs"
  by (induction ps arbitrary: conn) simp_all

lemma all_answered_append [simp]:
  "all_answered P conn (ps @ qs) \<longleftrightarrow> all_answered P conn ps \<and> all_answered P (conn_after P conn ps) qs"
  by (induction ps arbitrary: conn) simp_all

section \<open>Operations that heed the answers\<close>

text \<open>
  \<open>answered P x y\<close>: from \<open>x\<close> to \<open>y\<close> every query was answered, and the connection is the one
  that they left, or finished. \<open>refused P x y\<close>: the last thing done was a query that was rejected.
\<close>

definition answered :: "'pg relic_lib \<Rightarrow> 'pg relic \<Rightarrow> 'pg relic \<Rightarrow> bool" where
  "answered P x y \<longleftrightarrow> (\<exists>es. effects y = effects x @ es \<and> (case relic_conn x of
      None \<Rightarrow> relic_conn y = None \<and> queries es = []
    | Some conn \<Rightarrow> all_answered P conn (queries es)
        \<and> (relic_conn y = None \<or> relic_conn y = Some (conn_after P conn (queries es)))))"

definition refused :: "'pg relic_lib \<Rightarrow> 'pg relic \<Rightarrow> 'pg relic \<Rightarrow> bool" where
  "refused P x y \<longleftrightarrow> (\<exists>es q conn. relic_conn x = Some conn \<and> effects y = effects x @ es @ [Query q]
     \<and> all_answered P conn (queries es) \<and> rejected P (conn_after P conn (queries es)) q
     \<and> (let conn' = conn_after P conn (queries es @ [q]) in
          relic_conn y = (if connection_ok (pq P) conn' then Some conn' else None)))"

lemma answered_refl [simp]: "answered P x x"
  by (auto simp: answered_def split: option.splits)

lemma answered_trans:
  assumes "answered P x y" and "answered P y z"
  shows "answered P x z"
proof -
  obtain es fs where "effects y = effects x @ es" "effects z = effects y @ fs"
    using assms by (auto simp: answered_def)
  then show ?thesis
    using assms unfolding answered_def by (intro exI [of _ "es @ fs"]) (auto split: option.splits)
qed

lemma answered_refused: "answered P x y \<Longrightarrow> refused P y z \<Longrightarrow> refused P x z"
  unfolding answered_def refused_def by (fastforce simp: Let_def split: option.splits)

lemma answered_same: "relic_conn y = relic_conn x \<Longrightarrow> effects y = effects x \<Longrightarrow> answered P x y"
  by (auto simp: answered_def split: option.splits)

definition heeds :: "'pg relic_lib \<Rightarrow> ('db, 'ctx, 'pg, 'a) relic_op \<Rightarrow> bool" where
  "heeds P m \<longleftrightarrow> (\<forall>c. case m c of
      Return a d \<Rightarrow> answered P (snd c) (snd d)
    | Throw e d \<Rightarrow> answered P (snd c) (snd d) \<or> refused P (snd c) (snd d)
    | Diverge \<Rightarrow> True
    | Undefined \<Rightarrow> True)"

lemma heedsD:
  assumes "heeds P m"
  shows "m c = Return a d \<Longrightarrow> answered P (snd c) (snd d)"
    and "m c = Throw e d \<Longrightarrow> answered P (snd c) (snd d) \<or> refused P (snd c) (snd d)"
  using assms [unfolded heeds_def, THEN spec, of c] by auto

lemma heeds_ret: "heeds P (ret a)"
  by (simp add: heeds_def ret_def)

lemma heeds_throw: "heeds P (throw e)"
  by (simp add: heeds_def throw_def)

lemma heeds_andThen:
  assumes "heeds P m" and "\<And>a. heeds P (f a)"
  shows "heeds P (andThen m f)"
  unfolding heeds_def
proof
  fix c
  show "case andThen m f c of Return a d \<Rightarrow> answered P (snd c) (snd d)
    | Throw e d \<Rightarrow> answered P (snd c) (snd d) \<or> refused P (snd c) (snd d) | Diverge \<Rightarrow> True | Undefined \<Rightarrow> True"
  proof (cases "m c")
    case (Return a d)
    note first = heedsD(1) [OF assms(1) Return]
    show ?thesis
    proof (cases "f a d")
      case (Return b e)
      then show ?thesis
        using answered_trans [OF first heedsD(1) [OF assms(2) Return]] \<open>m c = _\<close> by (simp add: andThen_def)
    next
      case (Throw x e)
      then show ?thesis
        using heedsD(2) [OF assms(2) Throw] answered_trans [OF first] answered_refused [OF first] \<open>m c = _\<close>
        by (auto simp: andThen_def)
    qed (simp_all add: andThen_def \<open>m c = _\<close>)
  next
    case (Throw e d)
    then show ?thesis using heedsD(2) [OF assms(1) Throw] by (simp add: andThen_def)
  qed (simp_all add: andThen_def)
qed

lemma heeds_whenM: "(b \<Longrightarrow> heeds P m) \<Longrightarrow> heeds P (whenM b m)"
  by (cases b) (simp_all add: whenM_def heeds_ret)

lemma heeds_inspect: "(\<And>c. heeds P (f c)) \<Longrightarrow> heeds P (inspect f)"
  by (auto simp: heeds_def inspect_def)

lemma heeds_stmts_Nil: "heeds P (stmts [])"
  by (simp add: heeds_ret)

lemma heeds_stmts_Cons: "heeds P m \<Longrightarrow> heeds P (stmts ms) \<Longrightarrow> heeds P (stmts (m # ms))"
  by (simp add: heeds_andThen)

lemma heeds_if: "(b \<Longrightarrow> heeds P m) \<Longrightarrow> (\<not> b \<Longrightarrow> heeds P n) \<Longrightarrow> heeds P (if b then m else n)"
  by simp

lemma heeds_let: "(\<And>x. heeds P (f x)) \<Longrightarrow> heeds P (let x = a in f x)"
  by simp

lemma heeds_case_prod: "(\<And>x y. heeds P (f x y)) \<Longrightarrow> heeds P (case p of (x, y) \<Rightarrow> f x y)"
  by (cases p) simp

lemma heeds_case_option: "heeds P m \<Longrightarrow> (\<And>x. heeds P (f x)) \<Longrightarrow> heeds P (case v of None \<Rightarrow> m | Some x \<Rightarrow> f x)"
  by (cases v) simp_all

lemma heeds_liftE: "heeds P (liftE r)"
  by (cases r) (simp_all add: liftE_def heeds_ret heeds_throw)

lemma heeds_forM: "(\<And>x. heeds P (f x)) \<Longrightarrow> heeds P (forM xs f)"
  by (induction xs) (simp_all add: heeds_ret heeds_andThen)

lemma heeds_undefined: "heeds P (\<lambda>_. Undefined)"
  by (simp add: heeds_def)

lemma heeds_defined: "heeds P (defined v)"
  by (cases v) (simp_all add: defined_def heeds_def)

lemma heeds_rx:
  assumes "\<And>x. relic_conn (f x) = relic_conn x" and "\<And>x. effects (f x) = effects x"
  shows "heeds P (rx f)"
  using assms by (auto simp: heeds_def rx_def updates_def intro: answered_same)

lemma heeds_onFst: "heeds P (onFst m)"
  by (auto simp: heeds_def onFst_def split: outcome.splits prod.splits)

lemmas heeds_rule = heeds_ret heeds_throw heeds_andThen heeds_whenM heeds_inspect heeds_stmts_Nil heeds_stmts_Cons heeds_if
  heeds_let heeds_case_prod heeds_case_option heeds_liftE heeds_forM heeds_undefined heeds_defined heeds_onFst

section \<open>The primitives\<close>

lemma heeds_with_conn: "(\<And>conn. heeds P (f conn)) \<Longrightarrow> heeds P (with_conn f)"
  unfolding with_conn_def by (intro heeds_rule)

lemma heeds_finish: "heeds P (rx (\<lambda>x. x\<lparr>relic_conn := None\<rparr>))"
  by (auto simp: heeds_def rx_def updates_def answered_def split: option.splits)

lemma heeds_finish_if_lost: "heeds P m \<Longrightarrow> heeds P (finish_if_lost P m)"
  unfolding finish_if_lost_def by (intro heeds_rule heeds_with_conn heeds_finish)

lemma heeds_terminalerror: "heeds P (terminalerror P)"
  unfolding terminalerror_def by (intro heeds_rule heeds_finish_if_lost)

lemma query_run:
  "query P q (s, x) = (case relic_conn x of
      None \<Rightarrow> Undefined
    | Some conn \<Rightarrow> let (conn', res) = pq_exec (pq P) conn (c_str q); y = x\<lparr>relic_conn := Some conn', effects := effects x @ [Query q]\<rparr> in
        if tuples_ok res then Return res (s, y)
        else Throw (Runtime_error ''Unexpected error in exporter, receiver will shut down.'')
          (s, if connection_ok (pq P) conn' then y else y\<lparr>relic_conn := None\<rparr>))"
  by (simp add: query_def exec_query_def terminalerror_def finish_if_lost_def with_conn_def defined_def op_defs rx_def
      split: option.splits prod.splits)

lemma heeds_query:
  fixes P :: "'pg relic_lib"
  shows "heeds P (query P q :: ('db, 'ctx, 'pg, pg_result) relic_op)"
  unfolding heeds_def
proof
  fix c :: "('db, 'ctx) receiver \<times> 'pg relic"
  obtain s x where c: "c = (s, x)" by fastforce
  have one: "answered P x (x\<lparr>relic_conn := Some conn', effects := effects x @ [Query q]\<rparr>)"
    if "relic_conn x = Some conn" "pq_exec (pq P) conn (c_str q) = (conn', res)" "tuples_ok res" for conn conn' res
    using that unfolding answered_def by (intro exI [of _ "[Query q]"]) (simp add: rejected_def)
  have none: "refused P x (if connection_ok (pq P) conn' then x\<lparr>relic_conn := Some conn', effects := effects x @ [Query q]\<rparr>
      else x\<lparr>effects := effects x @ [Query q], relic_conn := None\<rparr>)"
    if "relic_conn x = Some conn" "pq_exec (pq P) conn (c_str q) = (conn', res)" "\<not> tuples_ok res" for conn conn' res
    using that unfolding refused_def by (intro exI [of _ "[]"] exI [of _ q] exI [of _ conn]) (simp add: rejected_def)
  show "case query P q c of Return a d \<Rightarrow> answered P (snd c) (snd d)
    | Throw e d \<Rightarrow> answered P (snd c) (snd d) \<or> refused P (snd c) (snd d) | Diverge \<Rightarrow> True | Undefined \<Rightarrow> True"
  proof (cases "relic_conn x")
    case (Some conn)
    obtain conn' res where "pq_exec (pq P) conn (c_str q) = (conn', res)" by fastforce
    then show ?thesis
      using one [OF Some] none [OF Some] Some
      by (cases "tuples_ok res"; cases "connection_ok (pq P) conn'") (simp_all add: c query_run Let_def)
  qed (simp add: c query_run)
qed

lemma heeds_run: "heeds P (run P q)"
  unfolding run_def by (intro heeds_rule heeds_query)

lemma heeds_first_number: "heeds P (first_number n res)"
  unfolding first_number_def by (intro heeds_rule)

lemma heeds_field: "heeds P (field Q d v ks allow)"
  unfolding field_def by (intro heeds_rule)

lemma heeds_escape: "heeds P (escape Q t)"
  unfolding escape_def by (intro heeds_rule heeds_with_conn)

lemma heeds_sql_field: "heeds P (getjsonsqlescapedstring Q d v ks allow)"
  unfolding getjsonsqlescapedstring_def by (intro heeds_rule heeds_field heeds_escape)

lemma heeds_account_of: "heeds P (account_of Q k)"
  unfolding account_of_def by (intro heeds_rule) (simp add: heeds_ret heeds_undefined split: sum.split)

lemma heeds_elements: "heeds P (elements Q v ks)"
  unfolding elements_def by (intro heeds_rule)

lemma heeds_ordinal: "heeds P (ordinal t)"
  unfolding ordinal_def by (intro heeds_rule)

lemma heeds_has_such: "heeds P (has_such J v k p)"
  unfolding has_such_def by (intro heeds_rule)

lemma heeds_for_objects: "heeds P m \<Longrightarrow> (\<And>v. heeds P (f v)) \<Longrightarrow> heeds P (for_objects P m vs f)"
  unfolding for_objects_def not_an_object_def by (intro heeds_rule heeds_finish_if_lost)

lemma heeds_ack: "heeds P (ack n)"
proof -
  have "heeds P (rx (\<lambda>x. x\<lparr>effects := effects x @ [Ack n]\<rparr>))"
    by (auto simp: heeds_def rx_def updates_def answered_def split: option.splits)
  then show ?thesis unfolding ack_def by (intro heeds_rule)
qed

lemmas heeds_steps = heeds_rule heeds_with_conn heeds_finish_if_lost heeds_terminalerror heeds_query heeds_run
  heeds_first_number heeds_field heeds_escape heeds_sql_field heeds_account_of heeds_elements heeds_ordinal heeds_has_such
  heeds_for_objects heeds_ack

section \<open>The branches and the messages\<close>

lemma heeds_owner: "heeds P (actor_account_info P a)" "heeds P (resolve_owner P A a k p w)"
  unfolding actor_account_info_def resolve_owner_def by (intro heeds_steps)+

lemma heeds_domain_branches:
  "heeds P (trnsfiopubky P A)" "heeds P (regdomain P A)" "heeds P (renewdomain P A)" "heeds P (xferdomain P A)"
  "heeds P (setdomainpub P A)" "heeds P (wrapdomain P A)" "heeds P (xferescrow P A)"
  unfolding domain_branches by (intro heeds_steps heeds_owner)+

lemma heeds_handle_branches:
  "heeds P (updcryptkey P A)" "heeds P (regaddress P A)" "heeds P (renewaddress P A)" "heeds P (addbundles P A)"
  "heeds P (xferaddress P A)" "heeds P (newfundsreq P A)" "heeds P (recordobt P A)" "heeds P (cancelfndreq P A)"
  "heeds P (rejectfndreq P A)"
  unfolding handle_branches by (intro heeds_steps heeds_owner)+

lemma heeds_list_branches:
  "heeds P (addnft P A)" "heeds P (remnft P A)" "heeds P (remallnfts P A)" "heeds P (remalladdr P A)"
  "heeds P (addaddress P A)" "heeds P (remaddress P A)" "heeds P (stakefio P A)" "heeds P (unstakefio P A)"
  "heeds P (retire P A)" "heeds P (fipxlviii P A)"
  unfolding list_branches by (intro heeds_steps)+

lemma heeds_burn_branches: "heeds P (burnexpired P A)" "heeds P (burnaddress P A)"
  unfolding burnexpired_def burnaddress_def by (intro heeds_steps heeds_rx; simp)+

lemma heeds_action_branch: "heeds P (action_branch P A)"
  unfolding action_branch_def Let_def
  by (intro heeds_if heeds_ret heeds_domain_branches heeds_handle_branches heeds_list_branches heeds_burn_branches)

lemma heeds_token_actions: "heeds P (token_actions P A r)"
  unfolding token_actions_def token_transfer_def token_issue_def bind2eosio_def by (intro heeds_steps)

lemma heeds_round: "heeds P (action_trace_round P n t i st fk v)"
  unfolding action_trace_round_def by (intro heeds_steps heeds_action_branch heeds_token_actions)

lemma heeds_traces_loop: "heeds P (action_traces_loop P n t i st fk vs)"
  by (induction vs arbitrary: fk) (auto intro!: heeds_ret heeds_andThen heeds_round)

lemma heeds_addresses_known: "heeds P (addresses_known P h vs)"
  by (induction vs) (auto intro!: heeds_steps)

lemma heeds_burns: "heeds P (burn_domain P n r)" "heeds P (burn_handle P d n r)"
  unfolding burn_domain_def burn_handle_def by (intro heeds_steps heeds_addresses_known)+

lemma heeds_messages:
  "heeds P (tx_trace P d n)" "heeds P (block_message P d n)" "heeds P (fork_message P n b)"
  unfolding tx_trace_def block_message_def fork_message_def by (intro heeds_steps heeds_traces_loop)+

lemma heeds_table_row: "heeds P (table_row_message P d)"
  unfolding table_row_message_def by (intro heeds_steps heeds_rx) simp_all

lemma heeds_block_completed: "heeds P (block_completed_message P d n b)"
  unfolding block_completed_message_def by (intro heeds_steps heeds_rx heeds_burns) simp_all

lemma heeds_process_msg: "heeds P (process_msg P msg)"
  unfolding process_msg_def process_data_def
  by (intro heeds_steps heeds_messages heeds_table_row heeds_block_completed)


section \<open>The send loop\<close>

text \<open>
  How a call of the loop ends: every query was answered; or the last thing that was done was a
  query that was rejected over a connection that is still good, and the receiver is told to quit.
\<close>

definition stopped :: "'pg relic_lib \<Rightarrow> 'pg relic \<Rightarrow> ('db, 'ctx) receiver \<times> 'pg relic \<Rightarrow> bool" where
  "stopped P x d \<longleftrightarrow> refused P x (snd d) \<and> relic_conn (snd d) \<noteq> None \<and> quitting (fst d) \<and> relic_timer (snd d) = relic_timer x"

lemma give_up_run:
  assumes "give_up P (s, x) = Return () (t, y)"
  shows "quitting t \<and> answered P x y \<and> relic_timer y = relic_timer x
    \<and> (\<exists>conn. relic_conn x = Some conn \<and> (connection_ok (pq P) conn \<longrightarrow> y = x))"
  using assms
  by (cases "relic_conn x") (auto simp: give_up_def finish_if_lost_def with_conn_def op_defs defined_def rx_def onFst_def
      abort_receiver_eq answered_def split: option.splits if_splits)

lemma refused_given_up:
  assumes "refused P x y" and "give_up P (s, y) = Return () (t, z)"
  shows "z = y \<and> relic_conn y \<noteq> None \<and> quitting t"
proof -
  obtain conn where "relic_conn y = Some conn" "connection_ok (pq P) conn \<longrightarrow> z = y" "quitting t"
    using give_up_run [OF assms(2)] by blast
  then show ?thesis using assms(1) by (auto simp: refused_def Let_def split: if_splits)
qed

lemma stopped_after: "answered P x y \<Longrightarrow> relic_timer y = relic_timer x \<Longrightarrow> stopped P y d \<Longrightarrow> stopped P x d"
  using answered_refused by (auto simp: stopped_def)

lemma answered_idle:
  "send_rounds P (Suc n) (s, x) = Return () d \<Longrightarrow> relic_queue x = [] \<Longrightarrow> answered P x (snd d)"
  by (auto simp: op_defs idle_def rx_def intro: answered_same)

lemma give_up_no_throw: "give_up P c \<noteq> Throw e d"
  using give_up_cases [of P c] by (metis outcome.distinct(1) outcome.distinct(9))

lemma send_rounds_no_throw: "send_rounds P n c \<noteq> Throw e d"
proof (cases n)
  case (Suc m)
  have "catching f (\<lambda>_. give_up P) c \<noteq> Throw e d" for f
    using give_up_no_throw by (cases "f c") (simp_all add: catching_def)
  then show ?thesis unfolding Suc send_rounds.simps by blast
qed simp

lemma send_rounds_answers:
  assumes "send_rounds P n (s, x) = Return () d"
  shows "answered P x (snd d) \<or> stopped P x d"
  using assms
proof (induction n arbitrary: s x d)
  case (Suc n)
  show ?case
  proof (cases "relic_queue x")
    case Nil
    then show ?thesis using answered_idle [OF Suc.prems] by simp
  next
    case (Cons msg rest)
    obtain s' where reg: "relic_regulate (s, x\<lparr>relic_pause_time := 0\<rparr>) = Return () (s', x\<lparr>relic_pause_time := 0\<rparr>)"
      by (rule relic_regulate_run)
    let ?x = "x\<lparr>relic_pause_time := 0, relic_msg := Some msg, relic_queue := rest, taken := taken x @ [msg]\<rparr>"
    have same: "answered P x ?x" "relic_timer ?x = relic_timer x" by (simp_all add: answered_same)
    have "send_rounds P (Suc n) (s, x) = catching (andThen (process_msg P msg) (\<lambda>_. send_rounds P n)) (\<lambda>_. give_up P) (s', ?x)"
      using reg Cons by (simp add: op_defs rx_def split: outcome.splits)
    then have body: "catching (andThen (process_msg P msg) (\<lambda>_. send_rounds P n)) (\<lambda>_. give_up P) (s', ?x) = Return () d"
      using Suc.prems by simp
    note timer = calmD(1,2) [OF calm_process_msg, unfolded relic_frame_def machine_def prod.inject]
    show ?thesis
    proof (cases "process_msg P msg (s', ?x)")
      case (Return u c)
      obtain t y where c: "c = (t, y)" by fastforce
      have y: "answered P ?x y" using heedsD(1) [OF heeds_process_msg Return] c by simp
      have t: "relic_timer y = relic_timer x" using timer(1) [OF Return] c by simp
      have "\<exists>e w. send_rounds P n c = Throw e w \<or> send_rounds P n c = Return () d"
        using body Return by (auto simp: catching_def andThen_def split: outcome.splits)
      moreover have "send_rounds P n c \<noteq> Throw e w" for e w
        by (rule send_rounds_no_throw)
      ultimately have run: "send_rounds P n (t, y) = Return () d" using c by auto
      have "answered P y (snd d) \<or> stopped P y d" by (rule Suc.IH [OF run])
      then show ?thesis
        using answered_trans [OF answered_trans [OF same(1) y]] stopped_after [OF answered_trans [OF same(1) y] t] by blast
    next
      case (Throw e c)
      obtain t y where c: "c = (t, y)" by fastforce
      obtain v z where d: "d = (v, z)" by fastforce
      have given: "give_up P (t, y) = Return () (v, z)" using body Throw c d by (simp add: catching_def andThen_def)
      have t: "relic_timer y = relic_timer x" using timer(2) [OF Throw] c by simp
      have "answered P ?x y \<or> refused P ?x y" using heedsD(2) [OF heeds_process_msg Throw] c by simp
      then show ?thesis
      proof
        assume y: "answered P ?x y"
        have "answered P y z" using give_up_run [OF given] by simp
        then show ?thesis using answered_trans [OF answered_trans [OF same(1) y]] d by simp
      next
        assume r: "refused P ?x y"
        then show ?thesis
          using refused_given_up [OF r given] answered_refused [OF same(1) r] t d by (simp add: stopped_def)
      qed
    qed (use body in \<open>simp_all add: catching_def andThen_def\<close>)
  qed
qed simp

text \<open>
  C31: No answer of the database is ignored: whatever the messages in the queue and whichever
  queries they lead to, when a call of the send loop returns, then either the database answered
  every query that was sent, or it rejected exactly the last one, after which nothing was
  sent or acknowledged, the timer of the loop was not set again, and the receiver was told to
  quit. In that case the connection is still good: when a query fails because the connection
  was lost, the connection object is finished twice, and the call does not return.
\<close>

theorem failed_query:
  assumes "relic_async_send_events P (s, x) = Return () (t, y)" and "relic_conn x = Some conn"
  shows "\<exists>es. effects y = effects x @ es \<and> (all_answered P conn (queries es)
    \<or> (\<exists>fs q. es = fs @ [Query q] \<and> all_answered P conn (queries fs) \<and> rejected P (conn_after P conn (queries fs)) q
        \<and> connection_ok (pq P) (conn_after P conn (queries es)) \<and> quitting t \<and> relic_timer y = relic_timer x))"
proof -
  have "send_rounds P (Suc (length (relic_queue x))) (s, x) = Return () (t, y)"
    using assms(1) by (simp add: relic_async_send_events_def inspect_def)
  from send_rounds_answers [OF this] show ?thesis
  proof
    assume "answered P x (snd (t, y))"
    then show ?thesis using assms(2) by (auto simp: answered_def)
  next
    assume "stopped P x (t, y)"
    then show ?thesis using assms(2) by (fastforce simp: stopped_def refused_def Let_def split: if_splits)
  qed
qed

end
