(* ===== verification/RelicClaims.thy ===== *)
theory RelicClaims
  imports RelicAnswers
begin

text \<open>
  What the PostgreSQL exporter does with a message: the acknowledgements and the receiver that
  waits for them, the queries of some actions, and the inputs on which it fails.
\<close>

section \<open>Reading a message\<close>

lemma has_such_object:
  "has_such J (Object ms) k p = ret (case map_of ms k of None \<Rightarrow> False | Some w \<Rightarrow> p w)"
  by (auto simp: has_such_def has_member_def subscript_def defined_def op_defs split: option.splits)

lemma members_of_object: "map_of ms k = Some v \<Longrightarrow> members_of J (Object ms) (k # ks) = members_of J v ks"
  by (simp add: subscript_def)

lemma defined_Some [simp]: "defined (Some a) = ret a"
  by (simp add: defined_def ret_def)

text \<open>A message of a type about a block: what the decoder and the envelope make of an event.\<close>

definition message_about :: "'pg relic_lib \<Rightarrow> bytes \<Rightarrow> string \<Rightarrow> nat \<Rightarrow> (string \<times> json_value) list \<Rightarrow> bool" where
  "message_about P msg msgtype n ds \<longleftrightarrow>
     snd (parse (rj P) (text_of msg)) = Object [(''msgtype'', String msgtype), (''data'', Object ds)]
     \<and> map_of ds ''block_num'' = Some (String (decimal n)) \<and> n < 2 ^ 32 \<and> c_str msgtype = msgtype"

abbreviation document_of :: "string \<Rightarrow> (string \<times> json_value) list \<Rightarrow> json_value" where
  "document_of msgtype ds \<equiv> Object [(''msgtype'', String msgtype), (''data'', Object ds)]"

lemma c_str_decimal [simp]: "c_str (decimal n) = decimal n"
proof -
  have "\<forall>c \<in> set (decimal n). code c \<noteq> 0"
    using decimal_digits [of n] by (auto simp: isdigit_def)
  then show ?thesis by (simp add: c_str_def takeWhile_eq_all_conv)
qed

lemma process_msg_about:
  assumes "message_about P msg msgtype n ds"
  shows "process_msg P msg = process_data P (document_of msgtype ds) msgtype (decimal n)"
  using assms by (simp add: message_about_def process_msg_def has_such_object subscript_def whenM_def Let_def)

lemma process_data_about:
  assumes "n < 2 ^ 32"
  shows "process_data P document msgtype (decimal n) = (let bnum = word_of_nat n in
       if msgtype = ''BLOCK_COMPLETED'' then block_completed_message P document (decimal n) bnum
       else if msgtype = ''BLOCK'' then block_message P document (decimal n)
       else if msgtype = ''TX_TRACE'' then tx_trace P document (decimal n)
       else if msgtype = ''TBL_ROW'' then table_row_message P document
       else if msgtype = ''FORK'' then fork_message P (decimal n) bnum
       else ret ())"
  using assms stoul_decimal [of n "[]"] by (simp add: process_data_def liftE_def ucast_word_of_nat)

section \<open>Acknowledgements one block behind\<close>

definition blocked :: "('db, 'ctx) env \<Rightarrow> nat \<Rightarrow> ('db, 'ctx) receiver \<Rightarrow> bool" where
  "blocked E q s \<longleftrightarrow> pause_needed E q s \<and> \<not> end_reached s"

lemma blocked_pauses:
  assumes "blocked E q s"
  shows "\<exists>u. continue_read E q s = Return () u \<and> blocked E q u \<and> quitting u = quitting s \<and> head u = head s
     \<and> reading u = reading s \<and> pause_timer u \<noteq> None"
  using assms by (auto simp: blocked_def continue_read_def check_pause_def op_defs publish_def pause_needed_def end_reached_def)

lemma blocked_for_ever:
  "blocked E q s \<Longrightarrow> \<exists>u. forM (replicate n q) (continue_read E) s = Return () u \<and> blocked E q u
     \<and> quitting u = quitting s \<and> head u = head s \<and> reading u = reading s"
proof (induction n arbitrary: s)
  case (Suc n)
  from blocked_pauses [OF Suc.prems] obtain u where
    u: "continue_read E q s = Return () u" "blocked E q u" "quitting u = quitting s" "head u = head s" "reading u = reading s"
    by blast
  from Suc.IH [OF u(2)] show ?case using u by (simp add: andThen_def)
qed (simp add: ret_def)

lemma completed_without_burns:
  assumes "message_about P msg ''BLOCK_COMPLETED'' n ds" and "\<not> burnexpiredthisblock x"
    and "exporter_will_ack s" and "forked_at_block s = 0" and "exporter_acked_block s \<le> word_of_nat n - 1"
  shows "\<exists>y. process_msg P msg (s, x) = Return () (s\<lparr>exporter_acked_block := word_of_nat n - 1\<rparr>, y)
     \<and> effects y = effects x @ [Ack (word_of_nat n - 1)]"
proof -
  have "n < 2 ^ 32" using assms(1) by (simp add: message_about_def)
  then have msg: "process_msg P msg = block_completed_message P (document_of ''BLOCK_COMPLETED'' ds) (decimal n) (word_of_nat n)"
    by (simp add: process_msg_about [OF assms(1)] process_data_about Let_def)
  show ?thesis
    unfolding msg using assms(2-4) leD [OF assms(5)]
    by (simp add: block_completed_message_def op_defs rx_def ack_def onFst_def ack_block_def)
qed

text \<open>
  C32: With this exporter the receiver never comes to its end block, and a limit of one
  unacknowledged block stops it after the first: the exporter acknowledges the predecessor of
  a completed block, so when the end block has been completed, or when the limit is at most 1,
  the receiver pauses, and however often the pause ends it pauses again; it neither reads on
  nor quits.
\<close>

theorem relic_never_ends:
  assumes "message_about P msg ''BLOCK_COMPLETED'' (unat (head s)) ds" and "\<not> burnexpiredthisblock x"
    and "exporter_will_ack s" and "forked_at_block s = 0" and "exporter_acked_block s < head s"
    and "\<not> interactive_mode (cfg E) \<and> head s = end_block_num s - 1 \<or> exporter_max_unconfirmed s \<le> 1"
  shows "\<exists>t y. process_msg P msg (s, x) = Return () (t, y) \<and> effects y = effects x @ [Ack (head s - 1)]
    \<and> exporter_acked_block t = head s - 1
    \<and> (\<forall>n. \<exists>u. forM (replicate n q) (continue_read E) t = Return () u \<and> pause_needed E q u
         \<and> quitting u = quitting s \<and> head u = head s \<and> reading u = reading s)"
proof -
  have "head s \<noteq> 0" using assms(5) by auto
  then have "exporter_acked_block s \<le> head s - 1"
    using assms(5) by (simp add: word_le_nat_alt word_less_nat_alt unat_minus_one)
  then obtain y where run: "process_msg P msg (s, x) = Return () (s\<lparr>exporter_acked_block := head s - 1\<rparr>, y)"
      "effects y = effects x @ [Ack (head s - 1)]"
    using completed_without_burns [OF assms(1-4)] by auto
  let ?t = "s\<lparr>exporter_acked_block := head s - 1\<rparr>"
  have "head s - 1 \<noteq> head s" by simp
  then have "blocked E q ?t"
    using assms(3,6) by (auto simp: blocked_def pause_needed_def end_reached_def word_le_nat_alt)
  from blocked_for_ever [OF this] show ?thesis
    using run by (intro exI [of _ ?t] exI [of _ y]) (simp add: blocked_def, blast)
qed

section \<open>The queries of an operation\<close>

text \<open>
  \<open>issues m qs\<close>: with a connection, \<open>m\<close> gives the database exactly the queries \<open>qs\<close> and
  changes nothing but the connection. The database accepts every query in \<open>accepting\<close>.
\<close>

definition issues :: "('db, 'ctx, 'pg, unit) relic_op \<Rightarrow> string list \<Rightarrow> bool" where
  "issues m qs \<longleftrightarrow> (\<forall>s x. relic_conn x \<noteq> None \<longrightarrow> (\<exists>conn. m (s, x) = Return ()
     (s, x\<lparr>relic_conn := Some conn, effects := effects x @ map Query qs\<rparr>)))"

definition accepting :: "'pg relic_lib \<Rightarrow> bool" where
  "accepting P \<longleftrightarrow> (\<forall>conn q. tuples_ok (snd (pq_exec (pq P) conn q)))"

lemma issues_run:
  assumes "accepting P"
  shows "issues (run P q :: ('db, 'ctx, 'pg, unit) relic_op) [q]"
  unfolding issues_def
proof (intro allI impI)
  fix s :: "('db, 'ctx) receiver" and x :: "'pg relic"
  assume "relic_conn x \<noteq> None"
  then obtain conn where c: "relic_conn x = Some conn" by blast
  obtain conn' res where e: "pq_exec (pq P) conn (c_str q) = (conn', res)" by fastforce
  then have "tuples_ok res" using assms unfolding accepting_def by (metis snd_conv)
  then show "\<exists>conn. run P q (s, x) = Return () (s, x\<lparr>relic_conn := Some conn, effects := effects x @ map Query [q]\<rparr>)"
    using c e by (auto simp: run_def query_def exec_query_def with_conn_def op_defs rx_def)
qed

lemma issues_Nil: "issues (ret ()) []"
  unfolding issues_def
proof (intro allI impI)
  fix s :: "('a, 'b) receiver" and x :: "'c relic"
  assume "relic_conn x \<noteq> None"
  then show "\<exists>conn. ret () (s, x) = Return () (s, x\<lparr>relic_conn := Some conn, effects := effects x @ map Query []\<rparr>)"
    by (cases x) (auto simp: ret_def)
qed

lemma issues_andThen:
  fixes m :: "('db, 'ctx, 'pg, unit) relic_op"
  assumes "issues m ps" and "issues n qs"
  shows "issues (andThen m (\<lambda>_. n)) (ps @ qs)"
  unfolding issues_def
proof (intro allI impI)
  fix s :: "('db, 'ctx) receiver" and x :: "'pg relic"
  assume "relic_conn x \<noteq> None"
  then obtain k where m: "m (s, x) = Return () (s, x\<lparr>relic_conn := Some k, effects := effects x @ map Query ps\<rparr>)"
    using assms(1) unfolding issues_def by blast
  obtain l where "n (s, x\<lparr>relic_conn := Some k, effects := effects x @ map Query ps\<rparr>) =
      Return () (s, x\<lparr>relic_conn := Some l, effects := (effects x @ map Query ps) @ map Query qs\<rparr>)"
    using assms(2) [unfolded issues_def, rule_format, of "x\<lparr>relic_conn := Some k, effects := effects x @ map Query ps\<rparr>" s]
    by auto
  then show "\<exists>conn. andThen m (\<lambda>_. n) (s, x) =
      Return () (s, x\<lparr>relic_conn := Some conn, effects := effects x @ map Query (ps @ qs)\<rparr>)"
    using m by (auto simp: andThen_def)
qed

lemma issues_Cons: "issues m ps \<Longrightarrow> issues (stmts ms) qs \<Longrightarrow> issues (stmts (m # ms)) (ps @ qs)"
  by (simp add: issues_andThen)

lemma issues_last: "issues m qs \<Longrightarrow> issues (stmts [m]) qs"
  using issues_andThen [OF _ issues_Nil] by fastforce

lemma issues_forM:
  "(\<And>v. v \<in> set vs \<Longrightarrow> issues (f v) (g v)) \<Longrightarrow> issues (forM vs f) (concat (map g vs))"
  by (induction vs) (auto intro: issues_Nil issues_andThen)

lemma field_run: "members_of (rj P) v ks = Some w \<Longrightarrow> field P d v ks allow = ret (getjsonstring (rj P) d w allow)"
  by (simp add: field_def)

lemma issues_escape:
  assumes "\<And>conn. escapesqlstring (pq P) conn t = lit" and "issues (f lit) qs"
  shows "issues (andThen (escape P t) f) qs"
  using assms by (auto simp: issues_def escape_def with_conn_def op_defs)

section \<open>Token amounts\<close>

lemma number_app: "number (ds @ es) = number ds * 10 ^ length es + number es"
proof (induction es rule: rev_induct)
  case (snoc c es)
  have "number (ds @ es @ [c]) = 10 * number (ds @ es) + (code c - 48)"
    using number_append [of "ds @ es" c] by simp
  then show ?case using snoc by (simp add: algebra_simps)
qed (simp add: number_def)

lemma find_text_end:
  assumes "\<forall>c \<in> set ds. c \<noteq> p"
  shows "find_text (p # ps) (ds @ p # ps) = Some (length ds)"
  using assms by (induction ds) auto

text \<open>The text of an amount of FIO: its nine decimals are single SUF.\<close>

definition fio_text :: "nat \<Rightarrow> string" where
  "fio_text suf = decimal (suf div 10 ^ 9) @ ''.'' @ padded 9 (int (suf mod 10 ^ 9)) @ '' FIO''"

lemma suf_of_fio_text:
  "suf_of_quantity (fio_text suf) = decimal (suf div 10 ^ 9) @ padded 9 (int (suf mod 10 ^ 9))"
  "number (decimal (suf div 10 ^ 9) @ padded 9 (int (suf mod 10 ^ 9))) = suf"
  "\<forall>c \<in> set (decimal (suf div 10 ^ 9) @ padded 9 (int (suf mod 10 ^ 9))). isdigit c"
proof -
  let ?ds = "decimal (suf div 10 ^ 9) @ padded 9 (int (suf mod 10 ^ 9))"
  show digits: "\<forall>c \<in> set ?ds. isdigit c"
    using decimal_digits padded_digits(2) [of "int (suf mod 10 ^ 9)" 9] by auto
  have "length (padded 9 (int (suf mod 10 ^ 9))) = 9" "number (padded 9 (int (suf mod 10 ^ 9))) = suf mod 10 ^ 9"
    using padded_digits(1,3) [of "int (suf mod 10 ^ 9)" 9] by simp_all
  then show "number ?ds = suf" by (simp add: number_app)
  have "c \<noteq> CHR ''.'' \<and> c \<noteq> CHR '' ''" if "isdigit c" for c
    using that by (auto simp: isdigit_def code_def)
  then have plain: "\<forall>c \<in> set ?ds. c \<noteq> CHR ''.''" "\<forall>c \<in> set ?ds. c \<noteq> CHR '' ''" using digits by blast+
  then have "filter (\<lambda>c. c \<noteq> CHR ''.'') (fio_text suf) = ?ds @ '' FIO''"
    by (simp add: fio_text_def filter_id_conv)
  then show "suf_of_quantity (fio_text suf) = ?ds"
    using find_text_end [OF plain(2), of "''FIO''"] by (simp add: suf_of_quantity_def)
qed

lemma c_str_text:
  assumes "\<forall>c \<in> set t. code c \<noteq> 0"
  shows "c_str t = t"
  using assms by (simp add: c_str_def takeWhile_eq_all_conv)

lemma c_str_fio_text: "c_str (fio_text suf) = fio_text suf"
proof (rule c_str_text)
  have "isdigit c \<Longrightarrow> code c \<noteq> 0" for c by (simp add: isdigit_def)
  then show "\<forall>c \<in> set (fio_text suf). code c \<noteq> 0"
    using suf_of_fio_text(3) [of suf] by (auto simp: fio_text_def code_def)
qed

lemma getjsonstring_text: "getjsonstring J UNKNOWN_STRING (String t) allow = c_str t"
  by (simp add: unknown_defs Let_def)

text \<open>
  C33: A token transfer is booked with its exact amount: for a quantity of \<open>suf\<close> smallest units,
  printed with nine decimals, the exporter issues one call, whose amount is a run of digits
  that denotes \<open>suf\<close>, with the memo as the database's own literal and the type that the memo
  tells.
\<close>

theorem transfer_amount:
  assumes "accepting P" and "\<And>conn. escapesqlstring (pq P) conn (c_str memo) = literal"
    and "actdata A = Object ms" and "map_of ms ''from'' = Some (String payer)" and "map_of ms ''to'' = Some (String payee)"
    and "map_of ms ''memo'' = Some (String memo)" and "map_of ms ''quantity'' = Some (String (fio_text suf))"
  shows "\<exists>amount. number amount = suf \<and> (\<forall>c \<in> set amount. isdigit c) \<and>
    issues (token_transfer P A)
      [instokentransfers A (c_str payer) (c_str payee) amount (transfer_type (c_str memo)) literal]"
proof -
  have m: "members_of (rj P) (actdata A) [''from''] = Some (String payer)"
    "members_of (rj P) (actdata A) [''to''] = Some (String payee)"
    "members_of (rj P) (actdata A) [''memo''] = Some (String memo)"
    "members_of (rj P) (actdata A) [''quantity''] = Some (String (fio_text suf))"
    using assms(3-7) by (simp_all add: subscript_def)
  have "issues (token_transfer P A) [instokentransfers A (c_str payer) (c_str payee)
      (suf_of_quantity (c_str (fio_text suf))) (transfer_type (c_str memo)) literal]"
    unfolding token_transfer_def field_run [OF m(1)] field_run [OF m(2)] field_run [OF m(3)] field_run [OF m(4)]
      andThen_ret getjsonstring_text
    by (intro issues_escape [OF assms(2)] issues_run assms(1))
  then show ?thesis
    using suf_of_fio_text [of suf] by (intro exI [of _ "suf_of_quantity (fio_text suf)"]) (simp add: c_str_fio_text)
qed

section \<open>Texts that are not escaped\<close>

lemma issues_not_object: "issues (for_objects P m [] f) []"
  by (simp add: for_objects_def issues_Nil)

lemma issues_one_object: "issues (f (Object ms)) qs \<Longrightarrow> issues (for_objects P m [Object ms] f) qs"
  using issues_andThen [OF _ issues_Nil] by (fastforce simp: for_objects_def)

text \<open>
  C34: Removing a public address lets its text into the query: unlike the addition, which passes
  it through the database's escaping, \<open>remaddress\<close> only puts it between quotes, so an address
  with a quote in it ends the call, and any text after it follows as SQL of its own.
\<close>

theorem remaddress_injection:
  assumes "accepting P" and "actdata A = Object ms" and "map_of ms ''fio_address'' = Some (String handle)"
    and "map_of ms ''public_addresses'' = Some (Array [Object as])"
    and "map_of as ''chain_code'' = Some (String blockchain)" and "map_of as ''token_code'' = Some (String token)"
    and "map_of as ''public_address'' = Some (String (address @ CHR 0x27 # '');'' @ evil))"
    and "\<forall>c \<in> set (address @ evil). code c \<noteq> 0"
  shows "issues (remaddress P A) [inshandleactivities A (c_str handle) ''rem_pubadd'',
    sql_call ''delpubaddress'' [quoted (c_str handle), quoted (c_str blockchain), quoted (c_str token), quoted address]
      @ evil @ CHR 0x27 # '');'']"
proof -
  let ?p = "address @ CHR 0x27 # '');'' @ evil"
  have m: "members_of (rj P) (actdata A) [''fio_address''] = Some (String handle)"
    "members_of (rj P) (actdata A) [''public_addresses''] = Some (Array [Object as])"
    "members_of (rj P) (Object as) [''chain_code''] = Some (String blockchain)"
    "members_of (rj P) (Object as) [''token_code''] = Some (String token)"
    "members_of (rj P) (Object as) [''public_address''] = Some (String ?p)"
    using assms(2-7) by (simp_all add: subscript_def)
  have p: "c_str ?p = ?p" using assms(8) by (intro c_str_text) (auto simp: code_def)
  have two: "issues (stmts [run P a, run P b]) [a, b]" for a b
    using issues_Cons [OF issues_run issues_last [OF issues_run]] assms(1) by fastforce
  have call: "sql_call ''delpubaddress'' [quoted (c_str handle), quoted (c_str blockchain), quoted (c_str token), quoted ?p]
    = sql_call ''delpubaddress'' [quoted (c_str handle), quoted (c_str blockchain), quoted (c_str token), quoted address]
      @ evil @ CHR 0x27 # '');''"
    by (simp add: sql_call_def quoted_def)
  show ?thesis
    unfolding remaddress_def elements_def field_run [OF m(1)] m(2) andThen_ret getjsonstring_text defined_Some get_array.simps
    by (rule issues_one_object) (simp only: field_run [OF m(3)] field_run [OF m(4)] field_run [OF m(5)] andThen_ret
        getjsonstring_text p call two)
qed

section \<open>Removed handles\<close>

text \<open>
  C35: Completing the block of a \<open>burnexpired\<close> action is undefined when handles were removed in it
  and no domains, and the handle of the first removed row was removed in this block and not by a
  \<open>burnaddress\<close> action: the addresses of the handle are looked for in the message about the
  block, which has none, and not in the removed row.
\<close>

theorem relic_burn_undefined:
  assumes "message_about P msg ''BLOCK_COMPLETED'' n ds" and "burnexpiredthisblock x"
    and "domainjsons x = []" and "handlejsons x = row # rows"
    and "members_of (rj P) (snd (parse (rj P) row)) [''kvo'', ''value'', ''name''] = Some (String handle)"
    and "members_of (rj P) (snd (parse (rj P) row)) [''kvo'', ''value'', ''expiration''] = Some expiration"
    and "members_of (rj P) (snd (parse (rj P) row)) [''block_num''] = Some (String (decimal n))"
    and "c_str handle \<notin> set (burnaddresses x)"
    and "\<And>v k. absent (rj P) v k \<in> {None, Some Null}"
  shows "process_msg P msg (s, x) = Undefined"
proof -
  let ?d = "document_of ''BLOCK_COMPLETED'' ds"
  have "n < 2 ^ 32" using assms(1) by (simp add: message_about_def)
  then have msg: "process_msg P msg = block_completed_message P ?d (decimal n) (word_of_nat n)"
    by (simp add: process_msg_about [OF assms(1)] process_data_about Let_def)
  have "members_of (rj P) ?d [''kvo'', ''value'', ''addresses''] \<in> {None, Some Null}"
    using assms(9) [of ?d "''kvo''"] assms(9) [of Null "''value''"] assms(9) [of Null "''addresses''"]
    by (auto simp: subscript_def split: option.splits)
  then have no: "elements P ?d [''kvo'', ''value'', ''addresses''] (s, x) = Undefined"
    by (auto simp: elements_def defined_def op_defs)
  have "burn_handle P ?d (decimal n) row (s, x) = Undefined"
    unfolding burn_handle_def Let_def field_run [OF assms(5)] field_run [OF assms(6)] field_run [OF assms(7)] andThen_ret
    using assms(8) no by (simp add: unknown_defs inspect_def whenM_def andThen_def)
  then show ?thesis
    unfolding msg using assms(2-4) by (simp add: block_completed_message_def op_defs)
qed

text \<open>
  A handle cannot be transferred to its actor by leaving the key out: whatever the database
  answers, an \<open>xferaddress\<close> with an empty key is never completed, because the result of the
  account query is cleared twice.
\<close>

theorem xferaddress_without_key:
  assumes "members_of (rj P) (actdata A) [''new_owner_fio_public_key''] = Some (String '''')"
  shows "xferaddress P A c \<noteq> Return () d"
proof -
  have "getjsonstring (rj P) UNKNOWN_STRING (String '''') ALLOW_EMPTY_VALUES = UNKNOWN_STRING"
    by (simp add: unknown_defs c_str_def)
  then show ?thesis
    by (auto simp: xferaddress_def field_run [OF assms] andThen_Return whenM_def split: outcome.splits)
qed

end
