(* ===== verification/RelicExamples.thy ===== *)
theory RelicExamples
  imports RelicClaims
begin

text \<open>
  The properties of the PostgreSQL exporter at concrete inputs: a database that accepts or
  rejects every query, and a JSON library that reads every text as a given value.
\<close>

section \<open>A database and an exporter\<close>

text \<open>The connection good or lost, the queries accepted or not, and what each text is parsed to.\<close>

definition example_pq :: "bool \<Rightarrow> bool \<Rightarrow> unit libpq" where
  "example_pq good accepts = \<lparr>connectdb = (\<lambda>_. ()), connection_ok = (\<lambda>_. good),
     pq_exec = (\<lambda>_ _. ((), \<lparr>tuples_ok = accepts, tuples = [[''1'']]\<rparr>)), escape_literal = (\<lambda>_ t. Some (quoted t))\<rparr>"

definition example_json :: "(string \<Rightarrow> json_value) \<Rightarrow> rapidjson" where
  "example_json docs = \<lparr>parse = (\<lambda>t. (False, docs t)), accept = (\<lambda>_. ''{}''), absent = (\<lambda>_ _. Some Null), lacks = (\<lambda>_. Some False)\<rparr>"

definition example_relic :: "bool \<Rightarrow> bool \<Rightarrow> (string \<Rightarrow> json_value) \<Rightarrow> unit relic_lib" where
  "example_relic good accepts docs = \<lparr>pq = example_pq good accepts, rj = example_json docs,
     account_name = (\<lambda>_. ''aaaaaaaaaaaaa''), fresh_buffer = (\<lambda>_. replicate 37 1)\<rparr>"

lemmas example_relic_defs = example_relic_def example_pq_def example_json_def

definition relic_blank :: "unit relic" where
  "relic_blank = \<lparr>relic_host = ''localhost'', relic_port = ''5432'', relic_user = ''fio'', relic_password = ''fio'', relic_db = ''fio'',
     relic_bin_headers = False, relic_maxunack = 10, relic_conn = Some (), relic_subscriptions = json_subscriptions,
     relic_queue = [], relic_msg = None, relic_hwm = 100, relic_lwm = 75, relic_timer = None, relic_pause_time = 0,
     relic_report_counter = 0, domainjsons = [], handlejsons = [], burnaddresses = [], burnexpiredthisblock = False,
     burnexpiredtrid = 0, burnexpiredtimestamp = [], taken = [], effects = []\<rparr>"

definition fork_at_10 :: "string \<Rightarrow> json_value" where
  "fork_at_10 t = document_of ''FORK'' [(''block_num'', String ''10'')]"

definition braces :: bytes where
  "braces = [123, 125]"

definition braces_envelope :: envelope where
  "braces_envelope msgtype event = Inr ''{}''"

definition relic_started :: "unit relic" where
  "relic_started = relic_blank\<lparr>relic_pause_time := 5, relic_timer := Some 5\<rparr>"

definition relic_unstarted :: "(undo_list, (u64 \<times> bytes) list) receiver" where
  "relic_unstarted = (flow_run 12 5 0)\<lparr>exporter_will_ack := False\<rparr>"

definition relic_queued :: "unit relic" where
  "relic_queued = relic_started\<lparr>relic_queue := [braces], relic_timer := Some 0, relic_report_counter := - 1\<rparr>"

lemmas relic_state_defs = relic_queued_def relic_started_def relic_blank_def

lemma decimal_10: "decimal 10 = ''10''"
  by (simp add: decimal.simps digit_def char_of_def bit_0)

lemma relic_example_start:
  "relic_start ws_env P (relic_unstarted, relic_blank) = Return () (flow_run 12 5 0, relic_started)"
  by (simp add: relic_start_def relic_unstarted_def default_config_def relic_state_defs op_defs rx_def idle_def onFst_def
      exporter_will_ack_blocks_def relic_async_send_events_def next_ws_pause_def flow_run_def new_receiver_def)

lemma relic_example_event:
  "relic_handle P braces_envelope (Relic_event Js_forks ''{}'') (s, relic_started) = Return () (s, relic_queued)"
proof -
  have "c_string_copy ''{}'' = Some braces" by (simp add: c_string_copy_def braces_def bytes_of_def code_def)
  then show ?thesis
    by (simp add: relic_deliver_def relic_on_event_json_def braces_envelope_def relic_push_msg_def op_defs rx_def
        defined_def relic_state_defs json_subscriptions_def liftE_def)
qed

lemma fork_at_10_about: "message_about (example_relic good accepts fork_at_10) braces ''FORK'' 10 [(''block_num'', String ''10'')]"
  by (simp add: message_about_def example_relic_defs fork_at_10_def decimal_10 c_str_def code_def)

definition relic_served :: "unit relic" where
  "relic_served = relic_queued\<lparr>relic_queue := [], relic_timer := Some 5, relic_pause_time := 5, relic_msg := Some braces,
     taken := [braces], effects := [Query ''SELECT rbfork(10);'', Ack 9]\<rparr>"

definition relic_failed :: "unit relic" where
  "relic_failed = relic_queued\<lparr>relic_queue := [], relic_timer := None, relic_pause_time := 0, relic_msg := Some braces,
     taken := [braces], effects := [Query ''SELECT rbfork(10);'']\<rparr>"

lemma fork_at_10_processed:
  "process_msg (example_relic good accepts fork_at_10) braces
     = fork_message (example_relic good accepts fork_at_10) ''10'' 10"
  unfolding process_msg_about [OF fork_at_10_about] using process_data_about [of 10 _ _ "''FORK''"]
  by (simp add: Let_def decimal_10)

lemma relic_example_regulate: "relic_hwm x = 100 \<Longrightarrow> relic_lwm x = 75 \<Longrightarrow> length (relic_queue x) = 1 \<Longrightarrow>
  relic_regulate (s, x) = Return () (s\<lparr>slowdown_requested := False\<rparr>, x)"
  by (simp add: relic_regulate_def op_defs onFst_def slowdown_def)

lemma relic_example_served:
  "relic_handle (example_relic True True fork_at_10) J Relic_timer (flow_run 12 5 0, relic_queued)
     = Return () (flow_run 12 9 0, relic_served)"
proof -
  have "fork_message (example_relic True True fork_at_10) ''10'' 10 (flow_run 12 5 0, x)
      = Return () (flow_run 12 9 0, x\<lparr>effects := effects x @ [Query ''SELECT rbfork(10);'', Ack 9]\<rparr>)"
    if "relic_conn x = Some ()" for x
    using that by (cases x) (simp add: fork_message_def run_def query_def exec_query_def with_conn_def op_defs rx_def
        example_relic_defs ack_def onFst_def ack_block_def flow_run_def new_receiver_def sql_call_def)
  moreover have "(flow_run 12 5 0)\<lparr>slowdown_requested := False\<rparr> = flow_run 12 5 0"
    by (simp add: flow_run_def new_receiver_def)
  ultimately show ?thesis
    by (simp add: relic_async_send_events_def fork_at_10_processed relic_example_regulate op_defs rx_def idle_def
        next_ws_pause_def relic_served_def relic_state_defs)
qed

lemma relic_example_failed:
  "relic_handle (example_relic True False fork_at_10) J Relic_timer (flow_run 12 5 0, relic_queued)
     = Return () ((flow_run 12 5 0)\<lparr>stream_open := False, aborting := True, quitting := True\<rparr>, relic_failed)"
proof -
  have "fork_message (example_relic True False fork_at_10) ''10'' 10 (s, x)
      = Throw (Runtime_error ''Unexpected error in exporter, receiver will shut down.'')
          (s, x\<lparr>effects := effects x @ [Query ''SELECT rbfork(10);'']\<rparr>)"
    if "relic_conn x = Some ()" for x and s :: "(undo_list, (u64 \<times> bytes) list) receiver"
    using that by (cases x) (simp add: fork_message_def run_def query_def exec_query_def with_conn_def op_defs rx_def
        example_relic_defs terminalerror_def finish_if_lost_def sql_call_def)
  moreover have "(flow_run 12 5 0)\<lparr>slowdown_requested := False\<rparr> = flow_run 12 5 0" "stream_open (flow_run 12 5 0)"
      "\<not> aborting (flow_run 12 5 0)"
    by (simp_all add: flow_run_def new_receiver_def)
  moreover have "connection_ok (pq (example_relic True False fork_at_10)) conn" for conn
    by (simp add: example_relic_defs)
  ultimately show ?thesis
    by (simp add: relic_async_send_events_def fork_at_10_processed relic_example_regulate op_defs rx_def give_up_def
        finish_if_lost_def with_conn_def defined_def onFst_def abort_receiver_eq relic_failed_def relic_state_defs)
qed

lemma relic_example_run:
  assumes "\<And>J. relic_handle P J Relic_timer (flow_run 12 5 0, relic_queued) = Return () d"
  shows "relic_run ws_env P braces_envelope (flow_run 12 5 0, relic_started) [Relic_event Js_forks ''{}'', Relic_timer] d"
proof -
  have "relic_run ws_env P braces_envelope (flow_run 12 5 0, relic_started) ([] @ [Relic_event Js_forks ''{}''])
      (flow_run 12 5 0, relic_queued)"
    by (rule relic_input [OF relic_none]) (simp, rule relic_example_event)
  then have "relic_run ws_env P braces_envelope (flow_run 12 5 0, relic_started)
      (([] @ [Relic_event Js_forks ''{}'']) @ [Relic_timer]) d"
    by (rule relic_input) (simp add: relic_queued_def, rule assms)
  then show ?thesis by simp
qed

section \<open>The properties\<close>

theorem relic_stream_witness:
  "(step ws_env)\<^sup>*\<^sup>* (flow_run 12 5 0) (flow_run 12 9 0) \<and> taken relic_served = [braces]
    \<and> concat (map (relic_messages braces_envelope json_subscriptions) [Relic_event Js_forks ''{}'', Relic_timer]) = [braces]"
  using relic_stream [OF relic_example_run [OF relic_example_served]]
  by (simp add: relic_served_def relic_state_defs)

theorem relic_failure_final_witness:
  "\<exists>u z. relic_run ws_env (example_relic True False fork_at_10) braces_envelope
      ((flow_run 12 5 0)\<lparr>stream_open := False, aborting := True, quitting := True\<rparr>, relic_failed)
      [Relic_event Js_forks ''{}''] (u, z)
    \<and> relic_queue z = [braces] \<and> effects z = [Query ''SELECT rbfork(10);''] \<and> quitting u"
proof -
  let ?c = "((flow_run 12 5 0)\<lparr>stream_open := False, aborting := True, quitting := True\<rparr>, relic_failed)"
  let ?z = "relic_failed\<lparr>relic_queue := [braces], relic_report_counter := - 2\<rparr>"
  have "c_string_copy ''{}'' = Some braces" by (simp add: c_string_copy_def braces_def bytes_of_def code_def)
  then have "relic_handle P braces_envelope (Relic_event Js_forks ''{}'') ?c = Return () (fst ?c, ?z)" for P
    by (simp add: relic_deliver_def relic_on_event_json_def braces_envelope_def relic_push_msg_def op_defs rx_def
        defined_def relic_failed_def relic_state_defs json_subscriptions_def liftE_def)
  then have more: "relic_run ws_env P braces_envelope ?c ([] @ [Relic_event Js_forks ''{}'']) (fst ?c, ?z)" for P
    by (intro relic_input [OF relic_none]) simp_all
  then have "effects ?z = effects relic_failed \<and> relic_timer ?z = None \<and> quitting (fst ?c)"
    using relic_failure_final [OF relic_example_start _ relic_example_run [OF relic_example_failed]]
    by (fastforce simp: relic_failed_def relic_blank_def)
  then show ?thesis
    using more by (intro exI [of _ "fst ?c"] exI [of _ ?z]) (simp add: relic_failed_def)
qed

theorem failed_query_witness:
  "\<exists>t y q. relic_async_send_events (example_relic True False fork_at_10) (flow_run 12 5 0, relic_queued\<lparr>relic_timer := None\<rparr>)
      = Return () (t, y)
    \<and> effects y = [Query q] \<and> rejected (example_relic True False fork_at_10) () q \<and> quitting t \<and> relic_timer y = None"
proof -
  let ?P = "example_relic True False fork_at_10"
  let ?x = "relic_queued\<lparr>relic_timer := None\<rparr>"
  let ?t = "(flow_run 12 5 0)\<lparr>stream_open := False, aborting := True, quitting := True\<rparr>"
  have run: "relic_async_send_events ?P (flow_run 12 5 0, ?x) = Return () (?t, relic_failed)"
    using relic_example_failed by (simp add: andThen_def rx_def updates_def ret_def split: outcome.splits)
  have x: "relic_conn ?x = Some ()" "relic_timer ?x = None" "effects ?x = []" by (simp_all add: relic_state_defs)
  have all: "rejected ?P conn q" for conn q by (simp add: rejected_def example_relic_defs)
  have "queries (effects relic_failed) \<noteq> []" by (simp add: relic_failed_def)
  then obtain fs q where q: "effects relic_failed = fs @ [Query q]" "all_answered ?P () (queries fs)"
      "quitting ?t" "relic_timer relic_failed = None"
    using failed_query [OF run x(1)] all x(2,3) by (auto simp: neq_Nil_conv)
  have "fs = []" using q(1) by (simp add: relic_failed_def)
  then show ?thesis using run q all by auto
qed

definition completed_100 :: "string \<Rightarrow> json_value" where
  "completed_100 t = document_of ''BLOCK_COMPLETED'' [(''block_num'', String ''100'')]"

lemma completed_100_about:
  "message_about (example_relic good accepts completed_100) braces ''BLOCK_COMPLETED'' 100 [(''block_num'', String ''100'')]"
proof -
  have "decimal 100 = ''100''" by (simp add: decimal.simps digit_def char_of_def bit_0)
  then show ?thesis by (simp add: message_about_def example_relic_defs completed_100_def c_str_def code_def)
qed

theorem relic_never_ends_witness:
  "\<exists>t y. process_msg (example_relic True True completed_100) braces (flow_run 100 50 0, relic_started) = Return () (t, y)
    \<and> effects y = [Ack 99] \<and> exporter_acked_block t = 99
    \<and> (\<forall>n. \<exists>u. forM (replicate n 0) (continue_read ws_env) t = Return () u \<and> pause_needed ws_env 0 u
         \<and> \<not> quitting u \<and> head u = 100 \<and> \<not> reading u)"
proof -
  have s: "head (flow_run 100 50 0) = 100" "exporter_will_ack (flow_run 100 50 0)" "forked_at_block (flow_run 100 50 0) = 0"
    "exporter_acked_block (flow_run 100 50 0) = 50" "end_block_num (flow_run 100 50 0) = 101" "\<not> quitting (flow_run 100 50 0)"
    "\<not> reading (flow_run 100 50 0)"
    by (simp_all add: flow_run_def new_receiver_def)
  have x: "\<not> burnexpiredthisblock relic_started" "effects relic_started = []" by (simp_all add: relic_state_defs)
  have m: "message_about (example_relic True True completed_100) braces ''BLOCK_COMPLETED'' (unat (head (flow_run 100 50 0)))
      [(''block_num'', String ''100'')]"
    using completed_100_about by (simp add: s)
  have e: "\<not> interactive_mode (cfg ws_env) \<and> head (flow_run 100 50 0) = end_block_num (flow_run 100 50 0) - 1"
    by (simp add: s default_config_def)
  show ?thesis
    using relic_never_ends [OF m x(1) s(2,3) _ disjI1 [OF e], of 0] by (simp add: s x)
qed

definition example_action :: "string \<Rightarrow> (string \<times> json_value) list \<Rightarrow> fio_action" where
  "example_action name ms = \<lparr>bnums = ''10'', blocktimestamp = ''2020-01-01T00:00:00.000'', trid = ''ff'', fktransactionid = 3,
     actionname = name, contractaccount = ''fio.token'', actdata = Object ms, respdoc = Null\<rparr>"

lemma example_accepting: "accepting (example_relic good True docs)"
  by (simp add: accepting_def example_relic_defs)

lemma example_escape: "t = [] \<or> hd t \<noteq> CHR 0x27 \<Longrightarrow> escapesqlstring (pq (example_relic good accepts docs)) conn t = '' E'' @ quoted t"
  by (simp add: escapesqlstring_def example_relic_defs quoted_def)

text \<open>1.000000250 FIO are 1000000250 SUF.\<close>

theorem transfer_amount_witness:
  "\<exists>amount. number amount = 1000000250 \<and> issues (token_transfer (example_relic True True fork_at_10)
      (example_action ''transfer'' [(''from'', String ''alice''), (''to'', String ''bob''), (''memo'', String ''FIO fee''),
         (''quantity'', String (fio_text 1000000250))]))
      [instokentransfers (example_action ''transfer'' [(''from'', String ''alice''), (''to'', String ''bob''),
         (''memo'', String ''FIO fee''), (''quantity'', String (fio_text 1000000250))])
         ''alice'' ''bob'' amount ''blockchain_fee'' ('' E'' @ quoted ''FIO fee'')]"
proof -
  let ?ms = "[(''from'', String ''alice''), (''to'', String ''bob''), (''memo'', String ''FIO fee''),
      (''quantity'', String (fio_text 1000000250))]"
  have c: "c_str ''FIO fee'' = ''FIO fee''" "c_str ''alice'' = ''alice''" "c_str ''bob'' = ''bob''"
    by (simp_all add: c_str_def code_def)
  have t: "transfer_type ''FIO fee'' = ''blockchain_fee''" by (simp add: transfer_type_def)
  show ?thesis
    using transfer_amount [where P = "example_relic True True fork_at_10" and A = "example_action ''transfer'' ?ms" and ms = ?ms
        and memo = "''FIO fee''" and payer = "''alice''" and payee = "''bob''" and suf = 1000000250
        and literal = "'' E'' @ quoted ''FIO fee''"]
    by (simp add: example_accepting example_escape c t example_action_def) blast
qed

theorem remaddress_injection_witness:
  "issues (remaddress (example_relic True True fork_at_10) (example_action ''remaddress'' [(''fio_address'', String ''a@b''),
       (''public_addresses'', Array [Object [(''chain_code'', String ''BTC''), (''token_code'', String ''BTC''),
         (''public_address'', String (''x'' @ CHR 0x27 # '');'' @ ''DROP TABLE a;--''))]])]))
     [inshandleactivities (example_action ''remaddress'' []) ''a@b'' ''rem_pubadd'',
      sql_call ''delpubaddress'' [quoted ''a@b'', quoted ''BTC'', quoted ''BTC'', quoted ''x''] @ ''DROP TABLE a;--''
        @ CHR 0x27 # '');'']"
proof -
  let ?as = "[(''chain_code'', String ''BTC''), (''token_code'', String ''BTC''),
         (''public_address'', String (''x'' @ CHR 0x27 # '');'' @ ''DROP TABLE a;--''))]"
  let ?ms = "[(''fio_address'', String ''a@b''), (''public_addresses'', Array [Object ?as])]"
  have c: "c_str ''a@b'' = ''a@b''" "c_str ''BTC'' = ''BTC''" by (simp_all add: c_str_def code_def)
  have a: "inshandleactivities (example_action ''remaddress'' ?ms) h v = inshandleactivities (example_action ''remaddress'' []) h v" for h v
    by (simp add: inshandleactivities_def example_action_def)
  show ?thesis
    using remaddress_injection [where P = "example_relic True True fork_at_10" and A = "example_action ''remaddress'' ?ms" and ms = ?ms
        and handle = "''a@b''" and as = ?as and blockchain = "''BTC''" and token = "''BTC''" and address = "''x''" and evil = "''DROP TABLE a;--''"]
    unfolding a c by (simp add: example_accepting example_action_def code_def)
qed

definition completed_with_row :: "string \<Rightarrow> json_value" where
  "completed_with_row t = (if t = ''row''
     then Object [(''block_num'', String ''100''), (''kvo'', Object [(''value'', Object [(''name'', String ''a@b''),
       (''expiration'', String ''0'')])])]
     else document_of ''BLOCK_COMPLETED'' [(''block_num'', String ''100'')])"

theorem relic_burn_undefined_witness:
  "process_msg (example_relic True True completed_with_row) braces
     (flow_run 100 50 0, relic_started\<lparr>burnexpiredthisblock := True, handlejsons := [''row'']\<rparr>) = Undefined"
proof -
  have d: "decimal 100 = ''100''" by (simp add: decimal.simps digit_def char_of_def bit_0)
  have "text_of braces \<noteq> ''row''" by (simp add: text_of_def braces_def)
  then have m: "message_about (example_relic True True completed_with_row) braces ''BLOCK_COMPLETED'' 100 [(''block_num'', String ''100'')]"
    using d by (simp add: message_about_def example_relic_defs completed_with_row_def c_str_def code_def)
  show ?thesis
    by (rule relic_burn_undefined [OF m, where row = "''row''" and rows = "[]" and handle = "''a@b''" and expiration = "String ''0''"])
      (simp_all add: relic_state_defs example_relic_defs completed_with_row_def subscript_def d)
qed

theorem xferaddress_without_key_witness:
  "\<forall>d. xferaddress (example_relic True True fork_at_10) (example_action ''xferaddress''
     [(''fio_address'', String ''a@b''), (''new_owner_fio_public_key'', String []), (''actor'', String ''alice'')])
     (flow_run 100 50 0, relic_started) \<noteq> Return () d"
  by (intro allI xferaddress_without_key) (simp add: example_action_def subscript_def)

end
