(* ===== verification/Pipeline.thy ===== *)
theory Pipeline
  imports Messages RelicExamples
begin

text \<open>
  The parts together: from the bytes of a block to the frames for the consumer, and from a fork
  to its acknowledgement. The channels between the plugins are queues: the decoder handles the
  receiver's events in their order, the exporter the decoder's messages in theirs.
\<close>

section \<open>From the traces of a block to the consumer\<close>

definition frame :: "js_channel \<times> string \<Rightarrow> bytes" where
  "frame m = le_bytes 4 (bin_msgtype (fst m)) @ le_bytes 4 (0 :: u32) @ bytes_of (snd m)"

fun events_of :: "ws_input list \<Rightarrow> (js_channel \<times> string) list" where
  "events_of [] = []"
| "events_of (Event ch text # is) = (ch, text) # events_of is"
| "events_of (i # is) = events_of is"

lemma messages_frames: "concat (map (messages J bin_subscriptions) is) = map frame (events_of is)"
  by (induction "is" rule: events_of.induct) (simp_all add: framed_bin frame_def)

text \<open>The messages for one trace event: its JSON text, and perhaps a report.\<close>

definition messages_for :: "('db, 'ctx) env \<Rightarrow> 'ctx decoder_lib \<Rightarrow> event \<Rightarrow> (js_channel \<times> string) list \<Rightarrow> bool" where
  "messages_for E D e msgs \<longleftrightarrow> (\<exists>j rest. encodes E D (reflection D e) j \<and> reports D rest
     \<and> msgs = (Js_transaction_traces, c_str (write_json D j)) # rest)"

lemma decode_trace_event:
  assumes "\<not> noexport_mode (cfg E)" and "Js_transaction_traces \<in> listeners" and "known (reflect_trace D (tr_trace e))"
    and "\<not> dblock u"
  obtains v msgs where "decode_event E D listeners (Transaction_trace e) (u, outs) = Return () (v, outs @ msgs)"
    and "messages_for E D (Transaction_trace e) msgs" and "\<not> dblock v"
proof -
  have "known (reflect_transaction_trace D e)"
    using assms(3) by (simp add: reflect_transaction_trace_def stamp_def)
  then obtain v outs' where run: "on_event E D (Transaction_trace e) (u, outs) = Return () (v, outs')" and "abi_cache_only u v"
    using forward_reporting_total assms(4) unfolding on_event.simps on_transaction_trace_def by metis
  obtain j rest where m: "encodes E D (reflection D (Transaction_trace e)) j" "reports D rest"
      "outs' = outs @ (Js_transaction_traces, c_str (write_json D j)) # rest"
    using on_event_message [OF run] by auto
  show ?thesis
  proof (rule that)
    show "decode_event E D listeners (Transaction_trace e) (u, outs)
        = Return () (v, outs @ (Js_transaction_traces, c_str (write_json D j)) # rest)"
      using run m(3) assms(1,2) by (simp add: decode_event_def decoder_subscribed_def whenM_def)
    show "messages_for E D (Transaction_trace e) ((Js_transaction_traces, c_str (write_json D j)) # rest)"
      using m(1,2) by (auto simp: messages_for_def)
    show "\<not> dblock v" using abi_cache_only_dblock [OF \<open>abi_cache_only u v\<close>] assms(4) by simp
  qed
qed

lemma decode_trace_events:
  assumes "\<not> noexport_mode (cfg E)" and "Js_transaction_traces \<in> listeners"
    and "\<forall>t \<in> set ts. known (reflect_trace D (fst t))" and "\<not> dblock u"
  shows "\<exists>v groups. forM (map (trace_event s) ts) (decode_event E D listeners) (u, outs) = Return () (v, outs @ concat groups)
    \<and> list_all2 (messages_for E D) (map (trace_event s) ts) groups"
  using assms(3,4)
proof (induction ts arbitrary: u outs)
  case (Cons t ts)
  obtain v msgs where run: "decode_event E D listeners (trace_event s t) (u, outs) = Return () (v, outs @ msgs)"
    and msgs: "messages_for E D (trace_event s t) msgs" and v: "\<not> dblock v"
    unfolding trace_event_def
    by (rule decode_trace_event [OF assms(1,2) _ Cons.prems(2), of D]) (use Cons.prems(1) in auto)
  obtain w groups where "forM (map (trace_event s) ts) (decode_event E D listeners) (v, outs @ msgs)
      = Return () (w, (outs @ msgs) @ concat groups)" and groups: "list_all2 (messages_for E D) (map (trace_event s) ts) groups"
    using Cons.IH [OF _ v, of "outs @ msgs"] Cons.prems(1) by auto
  then have "forM (map (trace_event s) (t # ts)) (decode_event E D listeners) (u, outs)
      = Return () (w, outs @ concat (msgs # groups))"
    using run by (simp add: andThen_def)
  moreover have "list_all2 (messages_for E D) (map (trace_event s) (t # ts)) (msgs # groups)"
    using msgs groups by simp
  ultimately show ?case by blast
qed (auto simp: ret_def)

text \<open>
  C13: From the node's bytes to the consumer's frames: when the traces of a block decode, the
  receiver publishes an event for each trace that the documented rule lets through, and, against
  \<open>docs/advanced-config.md\<close>, for each in which a blacklisted action follows one that passes a
  filter; whatever the loaded ABIs, the decoder then
  makes for each, in order, one TX_TRACE message with an encoding of that trace, and at most
  one ENCODER_ERR message after it; and in every run of the exporter with binary headers that
  delivers these messages, the bytes written and queued are those from before, followed by the
  frames of exactly these messages in this order.
\<close>

theorem traces_reach_consumer:
  assumes "filters_consistent (cfg E)" and "has_subscribers E Transaction_traces"
    and "varuint32_from_bin (ship E) bin = Inr (num, rest)" and "decode_traces (ship E) (unat num) rest = Inr ts"
    and "\<forall>t \<in> set ts. list_all known_action (tt_action_traces (fst t)) \<and> known (reflect_trace D (fst t))"
    and "\<not> noexport_mode (cfg E)" and "Js_transaction_traces \<in> listeners" and "\<not> dblock u"
  shows "\<exists>t v groups. receive_traces E bin s = Return () t
    \<and> forM (drop (length (published s)) (published t)) (decode_event E D listeners) (u, []) = Return () (v, concat groups)
    \<and> list_all2 (messages_for E D) (map (trace_event s) (filter (\<lambda>(trace, b). exported (cfg E) trace) ts)) groups
    \<and> (\<forall>J s0 x0 is r y. ws_run E J (s0, x0) is (r, y) \<and> subscriptions x0 = bin_subscriptions \<and> events_of is = concat groups
        \<longrightarrow> written y @ async_queue y = written x0 @ async_queue x0 @ map frame (concat groups))"
proof -
  let ?ts = "filter (\<lambda>(trace, b). exported (cfg E) trace) ts"
  let ?t = "s\<lparr>published := published s @ map (trace_event s) ?ts\<rparr>"
  have "receive_traces E bin s = Return () ?t"
    using assms(2,3,5) by (simp add: receive_traces_def op_defs receive_traces_loop_spec [OF assms(1,4)] case_prod_beta
      flip: wanted_exported [OF assms(1)])
  moreover obtain v groups where "forM (map (trace_event s) ?ts) (decode_event E D listeners) (u, []) = Return () (v, concat groups)"
      and "list_all2 (messages_for E D) (map (trace_event s) ?ts) groups"
    using decode_trace_events [OF assms(6,7) _ assms(8), of ?ts D s "[]"] assms(5) by (auto simp: case_prod_beta)
  moreover have "written y @ async_queue y = written x0 @ async_queue x0 @ map frame (concat groups)"
    if "ws_run E J (s0, x0) is (r, y)" "subscriptions x0 = bin_subscriptions" "events_of is = concat groups" for J s0 x0 "is" r y
    using run_stream [OF that(1)] that(2,3) messages_frames by simp
  ultimately show ?thesis
    by (rule_tac x = ?t in exI, rule_tac x = v in exI, rule_tac x = groups in exI) (simp, blast)
qed

text \<open>The exporter takes any messages in a row.\<close>

lemma ws_events_run:
  assumes "subscriptions x = bin_subscriptions"
  shows "\<exists>y. ws_run E J (s, x) (map (\<lambda>(ch, text). Event ch text) msgs) (s, y) \<and> subscriptions y = bin_subscriptions"
proof (induction msgs rule: rev_induct)
  case Nil
  then show ?case using ws_none assms by (intro exI [of _ x]) simp
next
  case (snoc m msgs)
  obtain ch event where m: "m = (ch, event)" by fastforce
  from snoc obtain y where y: "ws_run E J (s, x) (map (\<lambda>(ch, text). Event ch text) msgs) (s, y)"
    "subscriptions y = bin_subscriptions" by blast
  have "map_of bin_subscriptions ch = Some (On_event_bin (bin_msgtype ch) 0)"
    by (cases ch) (simp_all add: bin_subscriptions_def)
  then obtain z where "ws_handle E J (Event ch event) (s, y) = Return () (s, z)" "subscriptions z = bin_subscriptions"
    using y(2) by (cases "0 < ws_pause_time_msec y"; cases "msg_report_counter y = 1")
      (simp_all add: deliver_def on_event_bin_def push_msg_def op_defs ws_def)
  with y(1) show ?case using ws_input [OF y(1), of "Event ch event"] by (auto simp: m)
qed

lemma events_of_events: "events_of (map (\<lambda>(ch, text). Event ch text) msgs) = msgs"
  by (induction msgs) auto

theorem traces_reach_consumer_witness:
  "\<exists>t v msgs y. receive_traces (run_env trace_codec trace_config) [3, 4, 5, 6] start_of_run = Return () t
    \<and> forM (drop (length (published start_of_run)) (published t)) (decode_event (run_env trace_codec trace_config) example_decoder UNIV)
        (flow_run 9 0 0, []) = Return () (v, msgs)
    \<and> ws_run (run_env trace_codec trace_config) no_envelope (flow_run 9 0 0, ws_started 10) (map (\<lambda>(ch, text). Event ch text) msgs)
        (flow_run 9 0 0, y)
    \<and> written y @ async_queue y = map frame msgs \<and> hd msgs = (Js_transaction_traces, ''{}'') \<and> length msgs \<le> 2"
proof -
  let ?E = "run_env trace_codec trace_config"
  have three: "decode_traces trace_codec (Suc (Suc (Suc 0))) [4, 5, 6] =
    Inr [(run_trace 4, [4]), (run_trace 5, [5]), (run_trace 6, [6])]"
    by (simp add: trace_codec_def)
  have ts: "decode_traces (ship ?E) (unat (3 :: u32)) [4, 5, 6] = Inr [(run_trace 4, [4]), (run_trace 5, [5]), (run_trace 6, [6])]"
  proof -
    have "unat (3 :: u32) = Suc (Suc (Suc 0))" by simp
    then show ?thesis using three by (simp only: run_env_simps)
  qed
  have f: "filters_consistent (cfg ?E)" by (simp add: filters_consistent_def trace_config_def default_config_def)
  have n: "varuint32_from_bin (ship ?E) [3, 4, 5, 6] = Inr (3, [4, 5, 6])" by (simp add: trace_codec_def)
  have k: "\<forall>t \<in> set [(run_trace 4, [4 :: u8]), (run_trace 5, [5]), (run_trace 6, [6])].
      list_all known_action (tt_action_traces (fst t)) \<and> known (reflect_trace example_decoder (fst t))"
    by (simp add: run_trace_def example_decoder_def)
  have e: "\<not> noexport_mode (cfg ?E)" "Js_transaction_traces \<in> UNIV" "\<not> dblock (flow_run 9 0 0)"
    by (simp_all add: trace_config_def default_config_def flow_run_def new_receiver_def)
  have w: "filter (\<lambda>(trace, b). exported (cfg ?E) trace) [(run_trace 4, [4 :: u8]), (run_trace 5, [5]), (run_trace 6, [6])]
      = [(run_trace 5, [5])]"
    by (simp add: exported_def documented_def overtaken_def trace_config_def run_trace_def black_def passes_filter_def blacklisted_def run_defs)
  obtain t v groups where r: "receive_traces ?E [3, 4, 5, 6] start_of_run = Return () t"
      "forM (drop (length (published start_of_run)) (published t)) (decode_event ?E example_decoder UNIV) (flow_run 9 0 0, [])
        = Return () (v, concat groups)"
      and g: "list_all2 (messages_for ?E example_decoder) [trace_event start_of_run (run_trace 5, [5])] groups"
      and all: "\<And>J s0 x0 is r y. ws_run ?E J (s0, x0) is (r, y) \<Longrightarrow> subscriptions x0 = bin_subscriptions \<Longrightarrow> events_of is = concat groups
        \<Longrightarrow> written y @ async_queue y = written x0 @ async_queue x0 @ map frame (concat groups)"
    using traces_reach_consumer [OF f _ n ts k e, of start_of_run] unfolding w by auto
  have x: "subscriptions (ws_started 10) = bin_subscriptions" "written (ws_started 10) = []" "async_queue (ws_started 10) = []"
    by (simp_all add: ws_started_def ws_ready_def ws_blank_def)
  obtain y where y: "ws_run ?E no_envelope (flow_run 9 0 0, ws_started 10) (map (\<lambda>(ch, text). Event ch text) (concat groups)) (flow_run 9 0 0, y)"
    using ws_events_run [OF x(1)] by blast
  have "c_str (write_json example_decoder j) = ''{}''" for j
    by (simp add: example_decoder_def c_str_def code_def)
  then have "hd (concat groups) = (Js_transaction_traces, ''{}'') \<and> length (concat groups) \<le> 2"
    using g by (auto simp: list_all2_Cons1 messages_for_def reports_def)
  then show ?thesis using r y all [OF y x(1) events_of_events] x(2,3) by auto
qed

section \<open>From a fork to its acknowledgement\<close>

text \<open>The value that a JSON text stands for; what the ABI decoder wrote is read by the library.\<close>

fun value_of :: "rapidjson \<Rightarrow> json \<Rightarrow> json_value" where
  "value_of R (Json_string t) = String t"
| "value_of R (Json_raw t) = snd (parse R t)"
| "value_of R Json_null = Null"
| "value_of R (Json_array js) = Array (map (value_of R) js)"
| "value_of R (Json_object ms) = Object (map (\<lambda>(k, j). (k, value_of R j)) ms)"

definition fork_json :: "fork_event \<Rightarrow> json" where
  "fork_json e = Json_object [
     (''block_num'', Json_string (decimal_int (uint (fe_block_num e)))),
     (''depth'', Json_string (decimal_int (uint (fe_depth e)))),
     (''fork_reason'', Json_string (to_string (fe_fork_reason e))),
     (''last_irreversible'', Json_string (decimal_int (uint (fe_last_irreversible e))))]"

lemma decode_fork:
  assumes "\<not> noexport_mode (cfg E)" and "Js_forks \<in> listeners"
  shows "decode_event E D listeners (Fork e) (s, outs)
    = Return () (s, outs @ [(Js_forks, c_str (write_json D (fork_json e)))])"
  using assms
  by (simp add: decode_event_def decoder_subscribed_def forward_def reflect_fork_def fork_json_def op_defs
      impl_native_to_json_def publish_js_def)

lemma text_of_bytes_of: "text_of (bytes_of t) = t"
proof -
  have "char_of (unat (word_of_nat (code c) :: u8)) = c" for c
    using code_less [of c] by (simp add: unat_of_nat) (simp add: code_def)
  then show ?thesis by (simp add: text_of_def bytes_of_def map_idI)
qed

lemma relic_push_msg_run:
  "relic_push_msg b (s, x) = Return () (s, x\<lparr>relic_queue := relic_queue x @ [b],
     relic_timer := (if relic_pause_time x > 0 then map_option (\<lambda>_. 0) (relic_timer x) else relic_timer x),
     relic_report_counter := (if relic_report_counter x = 1 then 10000 else relic_report_counter x - 1)\<rparr>)"
  by (cases x) (simp add: relic_push_msg_def op_defs rx_def)

lemma relic_event_json:
  assumes "map_of (relic_subscriptions x) ch = Some (On_event_json msgtype)" and "J msgtype event = Inr document"
    and "c_str document = document"
  shows "relic_handle P J (Relic_event ch event) (s, x) = relic_push_msg (bytes_of document) (s, x)"
proof -
  have "c_string_copy document = Some (bytes_of document)"
    using assms(3) unfolding c_string_copy_def c_str_def by (simp only: Let_def) simp
  then show ?thesis
    using assms(1,2)
    by (simp add: relic_push_msg_run relic_deliver_def relic_on_event_json_def inspect_def liftE_def catching_def andThen_def ret_def defined_def)
qed

lemma relic_regulate_slowdown:
  "\<exists>r. relic_regulate (s, x) = Return () (s\<lparr>slowdown_requested := r\<rparr>, x)"
proof -
  let ?r = "if length (relic_queue x) \<ge> unat (relic_hwm x) then True
    else if length (relic_queue x) < unat (relic_lwm x) then False else slowdown_requested s"
  have "relic_regulate (s, x) = Return () (s\<lparr>slowdown_requested := ?r\<rparr>, x)"
    by (simp add: relic_regulate_def op_defs onFst_def slowdown_def)
  then show ?thesis by blast
qed

lemma relic_timer_one:
  assumes "relic_queue y = [m]"
    and "\<And>r. \<exists>t z. process_msg P m (s\<lparr>slowdown_requested := r\<rparr>,
        y\<lparr>relic_timer := None, relic_pause_time := 0, relic_msg := Some m, relic_queue := [], taken := taken y @ [m]\<rparr>)
      = Return () (t, z) \<and> relic_queue z = [] \<and> R t (effects z)"
  shows "\<exists>t z. relic_handle P J Relic_timer (s, y) = Return () (t, z) \<and> relic_queue z = [] \<and> R t (effects z)"
proof -
  let ?y = "y\<lparr>relic_timer := None, relic_pause_time := 0\<rparr>"
  obtain r where reg: "relic_regulate (s, ?y) = Return () (s\<lparr>slowdown_requested := r\<rparr>, ?y)"
    using relic_regulate_slowdown by blast
  obtain t z where "process_msg P m (s\<lparr>slowdown_requested := r\<rparr>, ?y\<lparr>relic_msg := Some m, relic_queue := [], taken := taken y @ [m]\<rparr>)
      = Return () (t, z)" and "relic_queue z = []" "R t (effects z)"
    using assms(2) [of r] by auto
  then show ?thesis
    using reg assms(1) by (simp add: relic_async_send_events_def op_defs rx_def idle_def)
qed

lemma fork_message_acks:
  assumes "accepting P" and "relic_conn x \<noteq> None" and "exporter_will_ack s" and "forked_at_block s = b" and "0 < b"
  shows "\<exists>t z. fork_message P (decimal (unat b)) b (s, x) = Return () (t, z) \<and> relic_queue z = relic_queue x
    \<and> forked_at_block t = 0 \<and> exporter_acked_block t = b - 1
    \<and> effects z = effects x @ [Query (sql_call ''rbfork'' [decimal (unat b)]), Ack (b - 1)]"
proof -
  obtain conn where "run P (sql_call ''rbfork'' [decimal (unat b)]) (s, x) = Return ()
      (s, x\<lparr>relic_conn := Some conn, effects := effects x @ map Query [sql_call ''rbfork'' [decimal (unat b)]]\<rparr>)"
    using issues_run [OF assms(1)] assms(2) unfolding issues_def by blast
  then show ?thesis
    using assms(3-5) by (simp add: fork_message_def op_defs ack_def rx_def onFst_def ack_block_def)
qed

text \<open>
  C29: A fork is resolved by the PostgreSQL exporter: after the receiver announced a fork at
  block \<open>b\<close> it pauses until it gets the acknowledgement for \<open>b - 1\<close>; the decoder turns the
  announcement into one message, and when the exporter has taken that message from its queue and
  the JSON library reads back what it wrote, the database was told to roll back to \<open>b\<close>, the
  exporter has acknowledged \<open>b - 1\<close>, and the receiver no longer waits for the fork.
\<close>

theorem fork_resolved:
  assumes "fe_block_num fork = b" and "0 < b" and "exporter_will_ack s"
    and "\<not> noexport_mode (cfg E)" and "Js_forks \<in> listeners"
    and "relic_subscriptions x = json_subscriptions" and "relic_queue x = []" and "relic_conn x \<noteq> None" and "accepting P"
    and "J ''FORK'' (c_str (write_json D (fork_json fork))) = Inr document" and "c_str document = document"
    and "snd (parse (rj P) document) = Object [(''msgtype'', String ''FORK''), (''data'', value_of (rj P) (fork_json fork))]"
  shows "\<exists>s1 msg y t z. issue_fork fork s = Return () s1 \<and> pause_needed E q s1
    \<and> decode_event E D listeners (Fork fork) (s1, []) = Return () (s1, [(Js_forks, msg)])
    \<and> relic_handle P J (Relic_event Js_forks msg) (s1, x) = Return () (s1, y)
    \<and> relic_handle P J Relic_timer (s1, y) = Return () (t, z)
    \<and> effects z = effects x @ [Query (sql_call ''rbfork'' [decimal (unat b)]), Ack (b - 1)] \<and> relic_queue z = []
    \<and> forked_at_block t = 0 \<and> exporter_acked_block t = b - 1"
proof -
  let ?s1 = "s\<lparr>forked_at_block := b, published := published s @ [Fork fork]\<rparr>"
  let ?m = "bytes_of document"
  let ?data = "[(''block_num'', String (decimal (unat b))), (''depth'', String (decimal_int (uint (fe_depth fork)))),
     (''fork_reason'', String (to_string (fe_fork_reason fork))),
     (''last_irreversible'', String (decimal_int (uint (fe_last_irreversible fork))))]"
  have "issue_fork fork s = Return () ?s1" using assms(1) by (simp add: issue_fork_def op_defs publish_def)
  moreover have "pause_needed E q ?s1" using assms(2,3) by (simp add: pause_needed_def)
  moreover note decode_fork [OF assms(4,5), of D fork ?s1 "[]"]
  moreover obtain y where y: "relic_handle P J (Relic_event Js_forks (c_str (write_json D (fork_json fork)))) (?s1, x) = Return () (?s1, y)"
      and q: "relic_queue y = [?m]" "relic_conn y \<noteq> None" "effects y = effects x"
  proof -
    have "map_of (relic_subscriptions x) Js_forks = Some (On_event_json ''FORK'')"
      using assms(6) by (simp add: json_subscriptions_def)
    then have "relic_handle P J (Relic_event Js_forks (c_str (write_json D (fork_json fork)))) (?s1, x) = relic_push_msg ?m (?s1, x)"
      using assms(10,11) by (rule relic_event_json)
    then show ?thesis using that assms(7,8) by (simp add: relic_push_msg_run)
  qed
  moreover obtain t z where "relic_handle P J Relic_timer (?s1, y) = Return () (t, z)"
    "effects z = effects y @ [Query (sql_call ''rbfork'' [decimal (unat b)]), Ack (b - 1)]" "relic_queue z = []"
    "forked_at_block t = 0" "exporter_acked_block t = b - 1"
  proof -
    have n: "unat b < 2 ^ 32" using unsigned_less [of b] by simp
    have "message_about P ?m ''FORK'' (unat b) ?data"
      using assms(1,12) n by (simp add: message_about_def text_of_bytes_of fork_json_def decimal_int_def c_str_def code_def)
    then have p: "process_msg P ?m = fork_message P (decimal (unat b)) b"
      by (simp add: process_msg_about process_data_about [OF n] Let_def)
    have "\<exists>t z. process_msg P ?m (?s1\<lparr>slowdown_requested := r\<rparr>,
        y\<lparr>relic_timer := None, relic_pause_time := 0, relic_msg := Some ?m, relic_queue := [], taken := taken y @ [?m]\<rparr>)
      = Return () (t, z) \<and> relic_queue z = [] \<and> forked_at_block t = 0 \<and> exporter_acked_block t = b - 1
        \<and> effects z = effects y @ [Query (sql_call ''rbfork'' [decimal (unat b)]), Ack (b - 1)]" for r
      unfolding p
      using fork_message_acks [OF assms(9), of "y\<lparr>relic_timer := None, relic_pause_time := 0, relic_msg := Some ?m,
          relic_queue := [], taken := taken y @ [?m]\<rparr>" "?s1\<lparr>slowdown_requested := r\<rparr>" b] assms(2,3) q(2) by simp
    then show ?thesis using that relic_timer_one [OF q(1), where R = "\<lambda>t es. forked_at_block t = 0
      \<and> exporter_acked_block t = b - 1 \<and> es = effects y @ [Query (sql_call ''rbfork'' [decimal (unat b)]), Ack (b - 1)]"]
      by blast
  qed
  ultimately show ?thesis using q(3) by fastforce
qed

definition fork_at_seven :: fork_event where
  "fork_at_seven = \<lparr>fe_block_num = 7, fe_depth = 2, fe_fork_reason = Network, fe_last_irreversible = 5\<rparr>"

definition fork_seven_read :: "string \<Rightarrow> json_value" where
  "fork_seven_read t = Object [(''msgtype'', String ''FORK''), (''data'', Object [(''block_num'', String ''7''),
     (''depth'', String ''2''), (''fork_reason'', String ''network''), (''last_irreversible'', String ''5'')])]"

theorem fork_resolved_witness:
  "\<exists>s1 msg y t z. issue_fork fork_at_seven (flow_run 8 6 0) = Return () s1 \<and> pause_needed ws_env 0 s1
    \<and> decode_event ws_env example_decoder UNIV (Fork fork_at_seven) (s1, []) = Return () (s1, [(Js_forks, msg)])
    \<and> relic_handle (example_relic True True fork_seven_read) braces_envelope (Relic_event Js_forks msg) (s1, relic_started) = Return () (s1, y)
    \<and> relic_handle (example_relic True True fork_seven_read) braces_envelope Relic_timer (s1, y) = Return () (t, z)
    \<and> effects z = [Query ''SELECT rbfork(7);'', Ack 6] \<and> forked_at_block t = 0 \<and> exporter_acked_block t = 6"
proof -
  have d: "decimal 7 = ''7''" "decimal 2 = ''2''" "decimal 5 = ''5''" by (simp_all add: decimal.simps digit_def char_of_def bit_0)
  have f: "fe_block_num fork_at_seven = 7" by (simp add: fork_at_seven_def)
  have s: "exporter_will_ack (flow_run 8 6 0)" by (simp add: flow_run_def new_receiver_def)
  have e: "\<not> noexport_mode (cfg ws_env)" by (simp add: default_config_def)
  have x: "relic_subscriptions relic_started = json_subscriptions" "relic_queue relic_started = []" "relic_conn relic_started \<noteq> None"
    "effects relic_started = []"
    by (simp_all add: relic_state_defs)
  have json: "c_str (write_json example_decoder j) = ''{}''" "c_str ''{}'' = ''{}''" for j
    by (simp_all add: example_decoder_def c_str_def code_def)
  have read: "snd (parse (rj (example_relic True True fork_seven_read)) ''{}'') = Object [(''msgtype'', String ''FORK''),
      (''data'', value_of (rj (example_relic True True fork_seven_read)) (fork_json fork_at_seven))]"
    by (simp add: example_relic_defs fork_seven_read_def fork_json_def fork_at_seven_def decimal_int_def d)
  have env: "braces_envelope ''FORK'' (c_str (write_json example_decoder (fork_json fork_at_seven))) = Inr ''{}''"
    by (simp add: braces_envelope_def)
  have "sql_call ''rbfork'' [decimal (unat (7 :: u32))] = ''SELECT rbfork(7);''" by (simp add: sql_call_def d)
  then show ?thesis
    using fork_resolved [where P = "example_relic True True fork_seven_read" and D = example_decoder and document = "''{}''"
        and E = ws_env and listeners = UNIV and J = braces_envelope and q = 0, OF f _ s e UNIV_I x(1-3) example_accepting env json(2) read]
    by (simp add: x(4)) blast
qed

end
