(* ===== verification/Watchdog.thy ===== *)
theory Watchdog
  imports Receiver
begin

text \<open>
  What happens after an exception: the callbacks close the socket, and only the stale check can
  then end the application.
\<close>

text \<open>The stale timer runs out without an error, if it is set.\<close>

definition stale_round :: "('db, 'ctx) env \<Rightarrow> ('db, 'ctx, unit) rop" where
  "stale_round E = inspect (\<lambda>s. whenM (stale_timer s \<noteq> None)
     (stmts [updates (\<lambda>s. s\<lparr>stale_timer := None\<rparr>), callback False (check_stale_head E)]))"

definition stale_rounds :: "('db, 'ctx) env \<Rightarrow> nat \<Rightarrow> ('db, 'ctx, unit) rop" where
  "stale_rounds E n = forM (replicate n ()) (\<lambda>_. stale_round E)"

lemma stale_rounds_Suc: "stale_rounds E (Suc n) = stmts [stale_round E, stale_rounds E n]"
  by (rule ext) (simp add: stale_rounds_def andThen_def ret_def split: outcome.splits)

lemma stale_rounds_0: "stale_rounds E 0 = ret ()"
  by (simp add: stale_rounds_def)

lemma stale_round_run:
  "stale_round E s = Return () (if stale_timer s = None then s
     else if stale_check_last_head s = head s \<and> pause_time_msec s = 0 \<and> received_blocks s > 0
     then (if \<not> aborting s \<and> stream_open s
       then s\<lparr>stale_timer := None, stream_open := False, aborting := True, quitting := True\<rparr>
       else s\<lparr>stale_timer := None, quitting := True\<rparr>)
     else s\<lparr>stale_check_last_head := head s, stale_timer := Some (stale_check_deadline_msec (cfg E))\<rparr>)"
  by (simp add: stale_round_def op_defs callback_def catch_and_close_def check_stale_head_def abort_receiver_eq)

text \<open>Only the members of the stale check and of the socket change.\<close>

definition watched :: "('db, 'ctx) receiver \<Rightarrow> ('db, 'ctx) receiver \<Rightarrow> bool" where
  "watched s t \<longleftrightarrow> t = s\<lparr>stale_timer := stale_timer t, stale_check_last_head := stale_check_last_head t,
     stream_open := stream_open t, aborting := aborting t, quitting := quitting t\<rparr>"

lemma watched_trans: "watched s t \<Longrightarrow> watched t u \<Longrightarrow> watched s u"
  by (cases s; cases t; cases u) (auto simp: watched_def)

lemma watched_members:
  "watched s t \<Longrightarrow> reading t = reading s \<and> pause_timer t = pause_timer s \<and> head t = head s
     \<and> pause_time_msec t = pause_time_msec s \<and> received_blocks t = received_blocks s"
  by (cases s; cases t) (auto simp: watched_def)

lemma watched_round: "stale_round E s = Return () t \<Longrightarrow> watched s t"
  by (cases s) (auto simp: stale_round_run watched_def)

lemma stopped_rounds: "stale_timer s = None \<Longrightarrow> stale_rounds E n s = Return () s"
  by (induction n) (simp_all add: stale_rounds_0 stale_rounds_Suc andThen_def stale_round_run ret_def)

lemma idle_rounds:
  assumes "\<not> (pause_time_msec s = 0 \<and> received_blocks s > 0)"
  shows "\<exists>t. stale_rounds E n s = Return () t \<and> watched s t \<and> quitting t = quitting s"
  using assms
proof (induction n arbitrary: s)
  case 0
  then show ?case by (cases s) (auto simp: stale_rounds_0 ret_def watched_def)
next
  case (Suc n)
  obtain t where t: "stale_round E s = Return () t" "watched s t" by (simp add: stale_round_run watched_round)
  then have "quitting t = quitting s" using Suc.prems by (auto simp: stale_round_run split: if_splits)
  moreover obtain v where v: "stale_rounds E n t = Return () v" "watched t v" "quitting v = quitting t"
    using Suc.IH [of t] Suc.prems watched_members [OF t(2)] by auto
  moreover have "watched s v" using t(2) v(2) by (rule watched_trans)
  ultimately show ?case using t(1) by (simp add: stale_rounds_Suc andThen_def ret_def)
qed

lemma barking_rounds:
  assumes "pause_time_msec s = 0" and "received_blocks s > 0" and "stale_timer s \<noteq> None"
  shows "\<exists>t. stale_rounds E (Suc (Suc n)) s = Return () t \<and> watched s t \<and> quitting t"
proof -
  obtain t where t: "stale_round E s = Return () t" "watched s t" by (simp add: stale_round_run watched_round)
  show ?thesis
  proof (cases "stale_timer t")
    case None
    with t(1) assms have "quitting t" by (auto simp: stale_round_run split: if_splits)
    then show ?thesis
      using t stopped_rounds [OF None, of E "Suc n"] by (auto simp: stale_rounds_Suc [of E "Suc n"] andThen_def ret_def)
  next
    case (Some ms)
    with t(1) assms have same: "stale_check_last_head t = head t" by (auto simp: stale_round_run split: if_splits)
    obtain u where u: "stale_round E t = Return () u" "watched t u" by (simp add: stale_round_run watched_round)
    have "quitting u \<and> stale_timer u = None"
      using u(1) same Some assms watched_members [OF t(2)] by (auto simp: stale_round_run split: if_splits)
    then show ?thesis
      using t u stopped_rounds [of u E n] watched_trans by (auto simp: stale_rounds_Suc andThen_def ret_def)
  qed
qed

text \<open>
  C8: After an exception only the stale check can end the application, and it needs a received
  block: when an operation of a callback throws, the callback closes the socket and starts no
  read and no timer; the application is then told to quit by the second stale check at the
  latest if a block was received and the receiver was not pausing, and otherwise by no number
  of them, so that an error before the first block leaves it alive with a closed socket.
\<close>

theorem watchdog_after_failure:
  assumes "f s = Throw e u" and "\<not> quitting u" and "stream_open u" and "\<not> aborting u" and "stale_timer u \<noteq> None"
  shows "\<exists>t. callback False f s = Return () t \<and> aborting t \<and> \<not> stream_open t
    \<and> (\<forall>n. \<exists>v. stale_rounds E n t = Return () v \<and> reading v = reading u \<and> pause_timer v = pause_timer u
        \<and> (pause_time_msec u = 0 \<and> received_blocks u > 0 \<and> 2 \<le> n \<longrightarrow> quitting v)
        \<and> (\<not> (pause_time_msec u = 0 \<and> received_blocks u > 0) \<longrightarrow> \<not> quitting v))"
proof -
  let ?t = "u\<lparr>stream_open := False, aborting := True\<rparr>"
  have "callback False f s = Return () ?t"
    using assms(1,3,4) by (simp add: callback_def catch_and_close_def close_def op_defs)
  moreover have "\<exists>v. stale_rounds E n ?t = Return () v \<and> reading v = reading u \<and> pause_timer v = pause_timer u
        \<and> (pause_time_msec u = 0 \<and> received_blocks u > 0 \<and> 2 \<le> n \<longrightarrow> quitting v)
        \<and> (\<not> (pause_time_msec u = 0 \<and> received_blocks u > 0) \<longrightarrow> \<not> quitting v)" for n
  proof (cases "pause_time_msec u = 0 \<and> received_blocks u > 0")
    case True
    have "n = 0 \<or> n = 1 \<or> (\<exists>m. n = Suc (Suc m))" by presburger
    then show ?thesis
    proof (elim disjE exE)
      assume "n = 1"
      moreover obtain v where "stale_round E ?t = Return () v" "watched ?t v" by (simp add: stale_round_run watched_round)
      ultimately show ?thesis
        using True watched_members [of ?t v] by (simp add: stale_rounds_Suc stale_rounds_0 andThen_def ret_def)
    next
      fix m assume "n = Suc (Suc m)"
      then show ?thesis
        using True barking_rounds [of ?t E m] assms(5) watched_members [of ?t] by fastforce
    qed (use True in \<open>simp add: stale_rounds_0 ret_def\<close>)
  next
    case False
    then show ?thesis
      using idle_rounds [of ?t E n] assms(2) watched_members [of ?t] by fastforce
  qed
  ultimately show ?thesis by (intro exI [of _ ?t]) simp
qed

text \<open>A start that gets a message which is no ABI, and a broken message after the first block.\<close>

definition greeted :: "(undo_list, (u64 \<times> bytes) list) receiver" where
  "greeted = (flow_run 9 0 0)\<lparr>stale_timer := Some 10000\<rparr>"

theorem watchdog_after_failure_witness:
  "(\<exists>t. callback False (first_read (run_env no_decoders default_config) 0 []) greeted = Return () t
      \<and> (\<forall>n. \<exists>v. stale_rounds (run_env no_decoders default_config) n t = Return () v \<and> \<not> reading v \<and> pause_timer v = None \<and> \<not> quitting v))
   \<and> (\<exists>t v. callback False (first_read (run_env no_decoders default_config) 0 []) (greeted\<lparr>received_blocks := 1\<rparr>) = Return () t
      \<and> stale_rounds (run_env no_decoders default_config) 2 t = Return () v \<and> quitting v)"
proof -
  let ?E = "run_env no_decoders default_config"
  have g: "\<not> quitting greeted" "stream_open greeted" "\<not> aborting greeted" "stale_timer greeted \<noteq> None"
    "received_blocks greeted = 0" "\<not> reading greeted" "pause_timer greeted = None" "pause_time_msec greeted = 0"
    by (simp_all add: greeted_def flow_run_def new_receiver_def)
  have f: "\<exists>e. first_read ?E 0 [] s = Throw e s" for s :: "(undo_list, (u64 \<times> bytes) list) receiver"
    by (simp add: first_read_def receive_abi_def no_decoders_def past_end_def op_defs liftE_def)
  obtain e where "first_read ?E 0 [] greeted = Throw e greeted" using f by blast
  note hang = watchdog_after_failure [of "first_read ?E 0 []", OF this g(1-4), of ?E]
  obtain e' where "first_read ?E 0 [] (greeted\<lparr>received_blocks := 1\<rparr>) = Throw e' (greeted\<lparr>received_blocks := 1\<rparr>)" using f by blast
  note quits = watchdog_after_failure [of "first_read ?E 0 []", OF this, of ?E]
  show ?thesis
  proof
    show "\<exists>t. callback False (first_read ?E 0 []) greeted = Return () t
      \<and> (\<forall>n. \<exists>v. stale_rounds ?E n t = Return () v \<and> \<not> reading v \<and> pause_timer v = None \<and> \<not> quitting v)"
      using hang by (simp add: g) blast
    show "\<exists>t v. callback False (first_read ?E 0 []) (greeted\<lparr>received_blocks := 1\<rparr>) = Return () t
      \<and> stale_rounds ?E 2 t = Return () v \<and> quitting v"
      using quits g by fastforce
  qed
qed

end
