(* ===== verification/Snapshot.thy ===== *)
theory Snapshot
  imports Revisions StdText
begin

text \<open>
  The portable snapshots of \<open>chronicle_portable_state.hpp\<close> and \<open>receiver_plugin.cpp\<close>. The
  encoding of values is that of the fc library, a submodule: its \<open>pack\<close> and \<open>unpack\<close> are the
  fields of \<open>fc_raw\<close>, and that unpacking inverts packing is the locale \<open>raw_codec\<close>.
\<close>

section \<open>The file format\<close>

definition MIN_VERSION_SUPPORTED :: u32 where "MIN_VERSION_SUPPORTED = 0"
definition MAX_VERSION_SUPPORTED :: u32 where "MAX_VERSION_SUPPORTED = 0"
definition CURRENT_VERSION :: u32 where "CURRENT_VERSION = 0"
definition MAGIC_NUMBER :: u64 where "MAGIC_NUMBER = 0x67c7d12ce9fc56c1"

record portable_format_version =
  format_version :: u32
  chronicle_version :: string

datatype row =
    State_object_v0 state_object
  | Received_block_object_v0 u32 checksum256
  | Contract_abi_object_v0 u64 bytes
  | Contract_abi_history_v0 hist_key bytes
  | Stream_end_v0 u64

record fc_raw =
  pack_version :: "portable_format_version \<Rightarrow> bytes"
  unpack_version :: "bytes \<Rightarrow> error + portable_format_version \<times> bytes"
  pack_row :: "row \<Rightarrow> bytes"
  unpack_row :: "bytes \<Rightarrow> error + row \<times> bytes"

section \<open>Writing\<close>

text \<open>The writer works on the receiver and the file written so far.\<close>

type_synonym ('db, 'ctx, 'a) snap_op = "(('db, 'ctx) receiver \<times> bytes, 'a) op"

definition emit :: "bytes \<Rightarrow> ('db, 'ctx, unit) snap_op" where
  "emit b = updates (\<lambda>(s, out). (s, out @ b))"

definition write_snapshot :: "('db, 'ctx) env \<Rightarrow> fc_raw \<Rightarrow> string \<Rightarrow> ('db, 'ctx, unit) snap_op" where
  "write_snapshot E raw version_string = stmts [
     andThen (onFst (revert_uncommitted_revisions E)) (\<lambda>_. ret ()),
     emit (le_bytes 8 MAGIC_NUMBER),
     emit (pack_version raw \<lparr>format_version = CURRENT_VERSION, chronicle_version = version_string\<rparr>),
     inspect (\<lambda>(s, _). case state_rows (tables_of E s) of
         [] \<Rightarrow> throw (Runtime_error ''The chronicle database does not have a valid state'')
       | entry # _ \<Rightarrow> emit (pack_row raw (State_object_v0 entry))),
     inspect (\<lambda>(s, _). forM (received_rows (tables_of E s)) (\<lambda>(block_index, block_id).
       emit (pack_row raw (Received_block_object_v0 block_index block_id)))),
     inspect (\<lambda>(s, _). forM (abi_rows (tables_of E s)) (\<lambda>(account, abi).
       whenM (length abi > 0) (emit (pack_row raw (Contract_abi_object_v0 account abi))))),
     inspect (\<lambda>(s, _). forM (hist_rows (tables_of E s)) (\<lambda>(key, abi).
       whenM (length abi > 0) (emit (pack_row raw (Contract_abi_history_v0 key abi))))),
     emit (pack_row raw (Stream_end_v0 MAGIC_NUMBER))]"

section \<open>Reading\<close>

text \<open>One round of the reading loop; the value is \<open>stream_ended\<close>.\<close>

definition restore_row :: "('db, 'ctx) env \<Rightarrow> row \<Rightarrow> ('db, 'ctx, bool) rop" where
  "restore_row E r = (case r of
      State_object_v0 entry \<Rightarrow> andThen (write_tables E (create_state entry)) (\<lambda>_. ret False)
    | Received_block_object_v0 block_index block_id \<Rightarrow>
        andThen (create_row E (create_received_block block_index block_id)) (\<lambda>_. ret False)
    | Contract_abi_object_v0 account abi \<Rightarrow>
        andThen (create_row E (create_contract_abi account abi)) (\<lambda>_. ret False)
    | Contract_abi_history_v0 key abi \<Rightarrow>
        andThen (create_row E (create_abi_history key abi)) (\<lambda>_. ret False)
    | Stream_end_v0 magic_number \<Rightarrow>
        if magic_number = MAGIC_NUMBER then ret True
        else throw (Runtime_error ''Invalid magic number at rthe end of the stream. Aborting''))"

text \<open>The loop's state: how the last round ended, the rest of the file, the receiver.\<close>

datatype progress = Reading | Ended | Failed error | Stuck

definition read_round :: "('db, 'ctx) env \<Rightarrow> fc_raw \<Rightarrow>
    progress \<times> bytes \<times> ('db, 'ctx) receiver \<Rightarrow> progress \<times> bytes \<times> ('db, 'ctx) receiver" where
  "read_round E raw = (\<lambda>(_, bin, s). case unpack_row raw bin of
      Inl e \<Rightarrow> (Failed e, bin, s)
    | Inr (r, rest) \<Rightarrow> (case restore_row E r s of
        Return ended t \<Rightarrow> (if ended then Ended else Reading, rest, t)
      | Throw e t \<Rightarrow> (Failed e, rest, t)
      | _ \<Rightarrow> (Stuck, rest, s)))"

definition read_rows :: "('db, 'ctx) env \<Rightarrow> fc_raw \<Rightarrow> bytes \<Rightarrow> ('db, 'ctx, unit) rop" where
  "read_rows E raw bin = (\<lambda>s.
     case while_option (\<lambda>x. fst x = Reading) (read_round E raw) (Reading, bin, s) of
       None \<Rightarrow> Diverge
     | Some (Failed e, _, t) \<Rightarrow> Throw e t
     | Some (Stuck, _, _) \<Rightarrow> Undefined
     | Some (_, _, t) \<Rightarrow> Return () t)"

text \<open>A file shorter than the magic number leaves the rest of the variable as it was: \<open>junk\<close>.\<close>

definition read_snapshot :: "('db, 'ctx) env \<Rightarrow> fc_raw \<Rightarrow> bytes \<Rightarrow> bytes \<Rightarrow> ('db, 'ctx, unit) rop" where
  "read_snapshot E raw junk out = stmts [
     whenM (of_le_bytes (take 8 (take 8 out @ drop (length out) junk)) \<noteq> MAGIC_NUMBER)
       (throw (Runtime_error ''Invalid snapshot file: wrong magic number'')),
     andThen (liftE (unpack_version raw (drop 8 out))) (\<lambda>(version, bin). stmts [
       whenM (format_version version < MIN_VERSION_SUPPORTED \<or> format_version version > MAX_VERSION_SUPPORTED)
         (throw (Runtime_error ''Unsupported snapshot format version'')),
       inspect (\<lambda>s. whenM (state_rows (tables_of E s) \<noteq> [])
         (throw (Runtime_error ''The chronicle database contains a valid state. Aborting''))),
       read_rows E raw bin])]"

section \<open>The interface of the encoding\<close>

locale raw_codec =
  fixes raw :: fc_raw
  assumes version_inverse: "unpack_version raw (pack_version raw v @ rest) = Inr (v, rest)"
    and row_inverse: "unpack_row raw (pack_row raw r @ rest) = Inr (r, rest)"
begin

lemma rows_inverse:
  "unpack_row raw (concat (map (pack_row raw) (r # rs)) @ rest)
     = Inr (r, concat (map (pack_row raw) rs) @ rest)"
  by (simp add: row_inverse)

end

section \<open>The round trip\<close>

lemma magic_inverse: "of_le_bytes (le_bytes 8 MAGIC_NUMBER) = MAGIC_NUMBER"
  by (simp only: of_le_bytes_inverse) (simp add: take_bit_word_eq_self)

lemma emit_run: "emit b (s, out) = Return () (s, out @ b)"
  by (simp add: emit_def updates_def)

text \<open>What a snapshot keeps of the tables, and the rows it consists of.\<close>

definition kept_tables :: "tables \<Rightarrow> tables" where
  "kept_tables t = t\<lparr>
     state_rows := take 1 (state_rows t),
     abi_rows := filter (\<lambda>(_, abi). length abi > 0) (abi_rows t),
     hist_rows := filter (\<lambda>(_, abi). length abi > 0) (hist_rows t)\<rparr>"

definition snapshot_rows :: "tables \<Rightarrow> row list" where
  "snapshot_rows t =
     map State_object_v0 (take 1 (state_rows t))
     @ map (\<lambda>(b, i). Received_block_object_v0 b i) (received_rows t)
     @ map (\<lambda>(a, abi). Contract_abi_object_v0 a abi) (abi_rows (kept_tables t))
     @ map (\<lambda>(k, abi). Contract_abi_history_v0 k abi) (hist_rows (kept_tables t))"

lemma write_snapshot_run:
  assumes "undo_database (cb E) stack" and "\<not> dblock s"
    and t: "last (versions (cb E) stack (db s)) = t" and "state_rows t = entry # more_rows"
  shows "\<exists>d. write_snapshot E raw v (s, []) = Return () (s\<lparr>db := d\<rparr>,
      le_bytes 8 MAGIC_NUMBER @ pack_version raw \<lparr>format_version = CURRENT_VERSION, chronicle_version = v\<rparr>
      @ concat (map (pack_row raw) (snapshot_rows t @ [Stream_end_v0 MAGIC_NUMBER]))) \<and> cb_tables (cb E) d = t"
proof -
  obtain d where d: "revert_uncommitted_revisions E s = Return (word_of_nat (length (stack (db s)))) (s\<lparr>db := d\<rparr>)"
    "cb_tables (cb E) d = t"
    using revert_result [OF assms(1), of s] assms(2) t by auto
  have received: "forM xs (\<lambda>(b, i). emit (f b i)) (u, out) = Return () (u, out @ concat (map (\<lambda>(b, i). f b i) xs))"
    for xs :: "(u32 \<times> checksum256) list" and f out and u :: "('a, 'b) receiver"
    by (induction xs arbitrary: out) (auto simp: op_defs emit_def)
  have nonempty: "forM xs (\<lambda>(k, abi). whenM (abi \<noteq> []) (emit (f k abi))) (u, out)
      = Return () (u, out @ concat (map (\<lambda>(k, abi). f k abi) (filter (\<lambda>(_, abi). abi \<noteq> []) xs)))"
    for xs :: "('k \<times> bytes) list" and f out and u :: "('a, 'b) receiver"
    by (induction xs arbitrary: out) (auto simp: op_defs emit_def)
  have maps: "concat (map (\<lambda>(b, i). pack_row raw (g b i)) xs) = concat (map (pack_row raw) (map (\<lambda>(b, i). g b i) xs))"
    for g and xs :: "('x \<times> 'y) list" by (induction xs) auto
  show ?thesis
    by (rule exI [of _ d])
      (simp add: write_snapshot_def andThen_def onFst_def d assms(4) emit_run inspect_def ret_def
        received nonempty snapshot_rows_def kept_tables_def maps)
qed

text \<open>Restoring rows one after another, and the loop that reads them.\<close>

lemma forM_restore:
  assumes "\<And>x s. x \<in> set xs \<Longrightarrow> ok (tables_of E s) x \<Longrightarrow>
      \<exists>d. restore_row E (mk x) s = Return False (s\<lparr>db := d\<rparr>) \<and> cb_tables (cb E) d = add x (tables_of E s)"
    and "\<And>ys x zs. xs = ys @ x # zs \<Longrightarrow> ok (fold add ys (tables_of E s)) x"
  shows "\<exists>d. forM (map mk xs) (\<lambda>r. andThen (restore_row E r) (\<lambda>_. ret ())) s = Return () (s\<lparr>db := d\<rparr>)
    \<and> cb_tables (cb E) d = fold add xs (tables_of E s)"
  using assms
proof (induction xs arbitrary: s)
  case Nil
  show ?case by (intro exI [of _ "db s"]) (simp add: ret_def)
next
  case (Cons x xs)
  obtain d where d: "restore_row E (mk x) s = Return False (s\<lparr>db := d\<rparr>)" "cb_tables (cb E) d = add x (tables_of E s)"
    using Cons.prems(1) [of x s] Cons.prems(2) [of "[]" x xs] by auto
  have "ok (fold add ys (tables_of E (s\<lparr>db := d\<rparr>))) y" if "xs = ys @ y # zs" for ys y zs
    using Cons.prems(2) [of "x # ys" y zs] that d(2) by simp
  then obtain e where "forM (map mk xs) (\<lambda>r. andThen (restore_row E r) (\<lambda>_. ret ())) (s\<lparr>db := d\<rparr>) = Return () (s\<lparr>db := e\<rparr>)"
    "cb_tables (cb E) e = fold add xs (add x (tables_of E s))"
    using Cons.IH [of "s\<lparr>db := d\<rparr>"] Cons.prems(1) d(2) by auto
  then show ?case using d by (intro exI [of _ e]) (simp add: andThen_def ret_def)
qed

context raw_codec
begin

lemma read_rows_skip:
  assumes "forM rs (\<lambda>r. andThen (restore_row E r) (\<lambda>_. ret ())) s = Return () t"
    and "\<forall>r \<in> set rs. \<forall>m. r \<noteq> Stream_end_v0 m"
  shows "read_rows E raw (concat (map (pack_row raw) rs) @ rest) s = read_rows E raw rest t"
  using assms
proof (induction rs arbitrary: s)
  case (Cons r rs)
  let ?bin = "concat (map (pack_row raw) rs) @ rest"
  obtain u ended where u: "restore_row E r s = Return ended u"
    "forM rs (\<lambda>r. andThen (restore_row E r) (\<lambda>_. ret ())) u = Return () t"
    using Cons.prems(1) by (auto simp: andThen_def ret_def split: outcome.splits)
  have "ended = False"
    using u(1) Cons.prems(2)
    by (cases r) (auto simp: restore_row_def andThen_def ret_def split: outcome.splits)
  then have "read_round E raw (Reading, concat (map (pack_row raw) (r # rs)) @ rest, s) = (Reading, ?bin, u)"
    using u(1) by (simp add: read_round_def row_inverse)
  then have "read_rows E raw (concat (map (pack_row raw) (r # rs)) @ rest) s = read_rows E raw ?bin u"
    by (simp add: read_rows_def while_option_unfold [of _ _ "(Reading, pack_row raw r @ ?bin, s)"])
  then show ?case using Cons.IH [OF u(2)] Cons.prems(2) by simp
qed (simp add: ret_def)

lemma read_rows_end: "read_rows E raw (pack_row raw (Stream_end_v0 MAGIC_NUMBER) @ rest) s = Return () s"
proof -
  have "read_round E raw (Reading, pack_row raw (Stream_end_v0 MAGIC_NUMBER) @ rest, s) = (Ended, rest, s)"
    by (simp add: read_round_def row_inverse restore_row_def ret_def)
  then show ?thesis
    by (simp add: read_rows_def while_option_unfold [of _ _ "(Reading, pack_row raw (Stream_end_v0 MAGIC_NUMBER) @ rest, s)"]
        while_option_unfold [of _ _ "(Ended, rest, s)"])
qed

lemma read_rows_cut:
  assumes "unpack_row raw bin = Inl e"
  shows "read_rows E raw bin s = Throw e s"
proof -
  have "read_round E raw (Reading, bin, s) = (Failed e, bin, s)"
    using assms by (simp add: read_round_def)
  then show ?thesis
    by (simp add: read_rows_def while_option_unfold [of _ _ "(Reading, bin, s)"]
        while_option_unfold [of _ _ "(Failed e, bin, s)"])
qed

end

lemma fold_append: "fold (\<lambda>x xs. xs @ [x]) ys xs = xs @ ys"
  by (induction ys arbitrary: xs) simp_all

lemma put_row_append: "sorted_wrt (<) (map fst xs @ [k]) \<Longrightarrow> put_row k v xs = xs @ [(k, v)]"
proof (induction xs)
  case (Cons x xs)
  then show ?case by (cases x) (auto simp: sorted_wrt_append)
qed simp

lemma not_in_keys: "sorted_wrt (<) (map fst xs @ [k :: 'k::linorder]) \<Longrightarrow> map_of xs k = None"
  by (fastforce simp: map_of_eq_None_iff sorted_wrt_append)

lemma sorted_prefix: "sorted_wrt (<) (map fst (ys @ x # zs)) \<Longrightarrow> sorted_wrt (<) (map fst ys @ [fst x])"
  by (simp add: sorted_wrt_append)

lemma restore_table:
  fixes rows :: "tables \<Rightarrow> ('k::linorder \<times> 'v) list"
  assumes one: "\<And>x u. sorted_wrt (<) (map fst (rows (tables_of E u)) @ [fst x]) \<Longrightarrow>
      \<exists>d. restore_row E (mk x) u = Return False (u\<lparr>db := d\<rparr>) \<and> cb_tables (cb E) d = upd (\<lambda>r. r @ [x]) (tables_of E u)"
    and upd: "\<And>f t. rows (upd f t) = f (rows t)" "\<And>f g t. upd f (upd g t) = upd (\<lambda>r. f (g r)) t" "\<And>t. upd (\<lambda>r. r) t = t"
    and "keys_sorted xs" and "rows (tables_of E s) = []"
  shows "\<exists>d. forM (map mk xs) (\<lambda>r. andThen (restore_row E r) (\<lambda>_. ret ())) s = Return () (s\<lparr>db := d\<rparr>)
    \<and> cb_tables (cb E) d = upd (\<lambda>r. r @ xs) (tables_of E s)"
proof -
  have add: "fold (\<lambda>x. upd (\<lambda>r. r @ [x])) ys t = upd (\<lambda>r. r @ ys) t" for ys t
    by (induction ys arbitrary: t) (simp_all add: upd)
  have "\<exists>d. forM (map mk xs) (\<lambda>r. andThen (restore_row E r) (\<lambda>_. ret ())) s = Return () (s\<lparr>db := d\<rparr>)
    \<and> cb_tables (cb E) d = fold (\<lambda>x. upd (\<lambda>r. r @ [x])) xs (tables_of E s)"
  proof (rule forM_restore [where ok = "\<lambda>t x. sorted_wrt (<) (map fst (rows t) @ [fst x])"])
    fix ys x zs assume "xs = ys @ x # zs"
    then show "sorted_wrt (<) (map fst (rows (fold (\<lambda>x. upd (\<lambda>r. r @ [x])) ys (tables_of E s))) @ [fst x])"
      using assms(5,6) sorted_prefix [of ys x zs] by (simp add: add upd)
  qed (rule one)
  then show ?thesis by (simp add: add)
qed

text \<open>Into an empty table the rows go as they are.\<close>

lemma rows_appended:
  "received_rows t = [] \<Longrightarrow> received_rows_update (\<lambda>r. r @ rs) t = t\<lparr>received_rows := rs\<rparr>"
  "abi_rows t = [] \<Longrightarrow> abi_rows_update (\<lambda>r. r @ as) t = t\<lparr>abi_rows := as\<rparr>"
  "hist_rows t = [] \<Longrightarrow> hist_rows_update (\<lambda>r. r @ hs) t = t\<lparr>hist_rows := hs\<rparr>"
  by (cases t; simp)+

lemmas restore_defs = restore_row_def op_defs create_row_def table_op_defs not_in_keys put_row_append

lemma restore_tables:
  assumes "undo_database (cb E) stack"
  shows "keys_sorted rs \<Longrightarrow> received_rows (tables_of E s) = [] \<Longrightarrow>
      \<exists>d. forM (map (\<lambda>(b, i). Received_block_object_v0 b i) rs) (\<lambda>r. andThen (restore_row E r) (\<lambda>_. ret ())) s
      = Return () (s\<lparr>db := d\<rparr>) \<and> cb_tables (cb E) d = (tables_of E s)\<lparr>received_rows := rs\<rparr>"
    and "keys_sorted as \<Longrightarrow> abi_rows (tables_of E s) = [] \<Longrightarrow>
      \<exists>d. forM (map (\<lambda>(a, abi). Contract_abi_object_v0 a abi) as) (\<lambda>r. andThen (restore_row E r) (\<lambda>_. ret ())) s
      = Return () (s\<lparr>db := d\<rparr>) \<and> cb_tables (cb E) d = (tables_of E s)\<lparr>abi_rows := as\<rparr>"
    and "keys_sorted hs \<Longrightarrow> hist_rows (tables_of E s) = [] \<Longrightarrow>
      \<exists>d. forM (map (\<lambda>(k, abi). Contract_abi_history_v0 k abi) hs) (\<lambda>r. andThen (restore_row E r) (\<lambda>_. ret ())) s
      = Return () (s\<lparr>db := d\<rparr>) \<and> cb_tables (cb E) d = (tables_of E s)\<lparr>hist_rows := hs\<rparr>"
proof -
  note w = undo_database.write_tables [OF assms]
  have r: "\<exists>d. restore_row E ((\<lambda>(b, i). Received_block_object_v0 b i) x) u = Return False (u\<lparr>db := d\<rparr>)
      \<and> cb_tables (cb E) d = received_rows_update (\<lambda>r. r @ [x]) (tables_of E u)"
    if "sorted_wrt (<) (map fst (received_rows (tables_of E u)) @ [fst x])" for x and u :: "('a, 'b) receiver"
    using that by (cases x) (auto simp: restore_defs w)
  have a: "\<exists>d. restore_row E ((\<lambda>(a, abi). Contract_abi_object_v0 a abi) x) u = Return False (u\<lparr>db := d\<rparr>)
      \<and> cb_tables (cb E) d = abi_rows_update (\<lambda>r. r @ [x]) (tables_of E u)"
    if "sorted_wrt (<) (map fst (abi_rows (tables_of E u)) @ [fst x])" for x and u :: "('a, 'b) receiver"
    using that by (cases x) (auto simp: restore_defs w)
  have h: "\<exists>d. restore_row E ((\<lambda>(k, abi). Contract_abi_history_v0 k abi) x) u = Return False (u\<lparr>db := d\<rparr>)
      \<and> cb_tables (cb E) d = hist_rows_update (\<lambda>r. r @ [x]) (tables_of E u)"
    if "sorted_wrt (<) (map fst (hist_rows (tables_of E u)) @ [fst x])" for x and u :: "('a, 'b) receiver"
    using that by (cases x) (auto simp: restore_defs w)
  show "keys_sorted rs \<Longrightarrow> received_rows (tables_of E s) = [] \<Longrightarrow>
      \<exists>d. forM (map (\<lambda>(b, i). Received_block_object_v0 b i) rs) (\<lambda>r. andThen (restore_row E r) (\<lambda>_. ret ())) s
      = Return () (s\<lparr>db := d\<rparr>) \<and> cb_tables (cb E) d = (tables_of E s)\<lparr>received_rows := rs\<rparr>"
    using restore_table [where rows = received_rows and upd = received_rows_update and E = E and s = s and xs = rs, OF r] by (simp add: rows_appended)
  show "keys_sorted as \<Longrightarrow> abi_rows (tables_of E s) = [] \<Longrightarrow>
      \<exists>d. forM (map (\<lambda>(a, abi). Contract_abi_object_v0 a abi) as) (\<lambda>r. andThen (restore_row E r) (\<lambda>_. ret ())) s
      = Return () (s\<lparr>db := d\<rparr>) \<and> cb_tables (cb E) d = (tables_of E s)\<lparr>abi_rows := as\<rparr>"
    using restore_table [where rows = abi_rows and upd = abi_rows_update and E = E and s = s and xs = as, OF a] by (simp add: rows_appended)
  show "keys_sorted hs \<Longrightarrow> hist_rows (tables_of E s) = [] \<Longrightarrow>
      \<exists>d. forM (map (\<lambda>(k, abi). Contract_abi_history_v0 k abi) hs) (\<lambda>r. andThen (restore_row E r) (\<lambda>_. ret ())) s
      = Return () (s\<lparr>db := d\<rparr>) \<and> cb_tables (cb E) d = (tables_of E s)\<lparr>hist_rows := hs\<rparr>"
    using restore_table [where rows = hist_rows and upd = hist_rows_update and E = E and s = s and xs = hs, OF h] by (simp add: rows_appended)
qed


lemma kept_sorted:
  assumes "wf_tables t"
  shows "keys_sorted (received_rows t)" "keys_sorted (abi_rows (kept_tables t))" "keys_sorted (hist_rows (kept_tables t))"
  using assms by (simp_all add: wf_tables_def kept_tables_def sorted_wrt_map sorted_wrt_filter)

lemma restore_snapshot:
  assumes "undo_database (cb E) stack" and "wf_tables t" and "state_rows t = entry # others"
    and "tables_of E s = empty_tables"
  shows "\<exists>d. forM (snapshot_rows t) (\<lambda>r. andThen (restore_row E r) (\<lambda>_. ret ())) s = Return () (s\<lparr>db := d\<rparr>)
    \<and> cb_tables (cb E) d = kept_tables t"
proof -
  note w = undo_database.write_tables [OF assms(1)]
  note sorted = kept_sorted [OF assms(2)]
  let ?each = "\<lambda>rs. forM rs (\<lambda>r. andThen (restore_row E r) (\<lambda>_. ret ()))"
  obtain d1 where d1: "?each [State_object_v0 entry] s = Return () (s\<lparr>db := d1\<rparr>)"
    "cb_tables (cb E) d1 = empty_tables\<lparr>state_rows := [entry]\<rparr>"
    using assms(4) by (simp add: restore_row_def op_defs write_tables_def w create_state_def empty_tables_def)
  obtain d2 where d2: "?each (map (\<lambda>(b, i). Received_block_object_v0 b i) (received_rows t)) (s\<lparr>db := d1\<rparr>) = Return () (s\<lparr>db := d2\<rparr>)"
    "cb_tables (cb E) d2 = empty_tables\<lparr>state_rows := [entry], received_rows := received_rows t\<rparr>"
    using restore_tables(1) [OF assms(1), where rs = "received_rows t" and s = "s\<lparr>db := d1\<rparr>"] sorted d1(2)
    by (auto simp: empty_tables_def)
  obtain d3 where d3: "?each (map (\<lambda>(a, abi). Contract_abi_object_v0 a abi) (abi_rows (kept_tables t))) (s\<lparr>db := d2\<rparr>) = Return () (s\<lparr>db := d3\<rparr>)"
    "cb_tables (cb E) d3 = (cb_tables (cb E) d2)\<lparr>abi_rows := abi_rows (kept_tables t)\<rparr>"
    using restore_tables(2) [OF assms(1), where as = "abi_rows (kept_tables t)" and s = "s\<lparr>db := d2\<rparr>"] sorted d2(2)
    by (auto simp: empty_tables_def)
  obtain d4 where d4: "?each (map (\<lambda>(k, abi). Contract_abi_history_v0 k abi) (hist_rows (kept_tables t))) (s\<lparr>db := d3\<rparr>) = Return () (s\<lparr>db := d4\<rparr>)"
    "cb_tables (cb E) d4 = (cb_tables (cb E) d3)\<lparr>hist_rows := hist_rows (kept_tables t)\<rparr>"
    using restore_tables(3) [OF assms(1), where hs = "hist_rows (kept_tables t)" and s = "s\<lparr>db := d3\<rparr>"] sorted d2(2) d3(2)
    by (auto simp: empty_tables_def)
  have step: "andThen m f u = f a v" if "m u = Return a v" for m :: "('a, 'b, unit) rop" and f :: "unit \<Rightarrow> ('a, 'b, unit) rop" and u a v
    using that by (simp add: andThen_def)
  have "map State_object_v0 (take 1 (state_rows t)) = [State_object_v0 entry]" using assms(3) by simp
  then have "?each (snapshot_rows t) s = Return () (s\<lparr>db := d4\<rparr>)"
    unfolding snapshot_rows_def forM_append using d4(1)
    by (simp only: step [where m = "?each _", OF d1(1)] step [where m = "?each _", OF d2(1)] step [where m = "?each _", OF d3(1)])
  moreover have "cb_tables (cb E) d4 = kept_tables t"
    using d2(2) d3(2) d4(2) assms(3) by (cases t) (simp add: kept_tables_def empty_tables_def)
  ultimately show ?thesis by blast
qed

text \<open>
  C21: A snapshot round trip. Writing a snapshot succeeds, whatever the database has
  uncommitted, and leaves the tables as the last committed version has them; reading that
  file into an empty database succeeds and gives exactly that version's state row, received
  blocks, ABIs and ABI history, the rows with an empty ABI left out.
\<close>

theorem snapshot_round_trip:
  assumes "undo_database (cb E) stack" and "raw_codec raw" and "\<not> dblock s"
    and "last (versions (cb E) stack (db s)) = t" and "wf_tables t" and "state_rows t \<noteq> []"
    and "undo_database (cb F) stack'" and "tables_of F fresh = empty_tables"
  shows "\<exists>d out d'. write_snapshot E raw version (s, []) = Return () (s\<lparr>db := d\<rparr>, out) \<and> cb_tables (cb E) d = t
    \<and> read_snapshot F raw junk out fresh = Return () (fresh\<lparr>db := d'\<rparr>) \<and> cb_tables (cb F) d' = kept_tables t"
proof -
  obtain entry others where entry: "state_rows t = entry # others" using assms(6) by (cases "state_rows t") auto
  let ?v = "\<lparr>format_version = CURRENT_VERSION, chronicle_version = version\<rparr>"
  let ?rows = "concat (map (pack_row raw) (snapshot_rows t @ [Stream_end_v0 MAGIC_NUMBER]))"
  let ?out = "le_bytes 8 MAGIC_NUMBER @ pack_version raw ?v @ ?rows"
  obtain d where d: "write_snapshot E raw version (s, []) = Return () (s\<lparr>db := d\<rparr>, ?out)" "cb_tables (cb E) d = t"
    using write_snapshot_run [OF assms(1,3,4) entry] by blast
  obtain d' where d': "forM (snapshot_rows t) (\<lambda>r. andThen (restore_row F r) (\<lambda>_. ret ())) fresh = Return () (fresh\<lparr>db := d'\<rparr>)"
    "cb_tables (cb F) d' = kept_tables t"
    using restore_snapshot [OF assms(7,5) entry assms(8)] by blast
  have "\<forall>r \<in> set (snapshot_rows t). \<forall>m. r \<noteq> Stream_end_v0 m" by (auto simp: snapshot_rows_def)
  then have "read_rows F raw ?rows fresh = Return () (fresh\<lparr>db := d'\<rparr>)"
    using raw_codec.read_rows_skip [OF assms(2) d'(1), of "pack_row raw (Stream_end_v0 MAGIC_NUMBER) @ []"]
      raw_codec.read_rows_end [OF assms(2), of F "[]"] by simp
  moreover have "unpack_version raw (pack_version raw ?v @ ?rows) = Inr (?v, ?rows)"
    by (rule raw_codec.version_inverse [OF assms(2)])
  moreover have "of_le_bytes (le_bytes 8 MAGIC_NUMBER) = MAGIC_NUMBER" by (rule magic_inverse)
  ultimately have "read_snapshot F raw junk ?out fresh = Return () (fresh\<lparr>db := d'\<rparr>)"
    using assms(8)
    by (simp add: read_snapshot_def op_defs CURRENT_VERSION_def MIN_VERSION_SUPPORTED_def MAX_VERSION_SUPPORTED_def
        empty_tables_def del: le_bytes.simps)
  with d d' show ?thesis by blast
qed


section \<open>An encoding with these laws\<close>

text \<open>
  Little-endian fields after a tag byte; a byte vector has a 1 before every byte and a 0 at
  its end. It shows that the laws of \<open>raw_codec\<close> are consistent.
\<close>

definition field :: "nat \<Rightarrow> bytes \<Rightarrow> ('a::len word \<Rightarrow> bytes \<Rightarrow> error + 'b) \<Rightarrow> error + 'b" where
  "field n bin k = (if length bin < n then Inl (Out_of_range ''read past the end'')
     else k (of_le_bytes (take n bin)) (drop n bin))"

definition enc_vector :: "bytes \<Rightarrow> bytes" where
  "enc_vector xs = concat (map (\<lambda>x. [1, x]) xs) @ [0]"

fun vector :: "bytes \<Rightarrow> (bytes \<Rightarrow> bytes \<Rightarrow> error + 'b) \<Rightarrow> error + 'b" where
  "vector [] k = Inl (Out_of_range ''read past the end'')"
| "vector (c # bin) k =
     (if c = 0 then k [] bin
      else case bin of [] \<Rightarrow> Inl (Out_of_range ''read past the end'')
        | x # rest \<Rightarrow> vector rest (\<lambda>xs. k (x # xs)))"

fun tagged_row :: "row \<Rightarrow> bytes" where
  "tagged_row (State_object_v0 o') = 0 # le_bytes 4 (so_head o') @ le_bytes 32 (so_head_id o')
     @ le_bytes 4 (so_irreversible o') @ le_bytes 32 (so_irreversible_id o')"
| "tagged_row (Received_block_object_v0 b i) = 1 # le_bytes 4 b @ le_bytes 32 i"
| "tagged_row (Contract_abi_object_v0 a abi) = 2 # le_bytes 8 a @ enc_vector abi"
| "tagged_row (Contract_abi_history_v0 k abi) =
     3 # le_bytes 8 (hk_account k) @ le_bytes 4 (hk_block k) @ enc_vector abi"
| "tagged_row (Stream_end_v0 m) = 4 # le_bytes 8 m"

definition untagged_row :: "bytes \<Rightarrow> error + row \<times> bytes" where
  "untagged_row bin = (case bin of
      [] \<Rightarrow> Inl (Out_of_range ''read past the end'')
    | tag # r0 \<Rightarrow>
        if tag = 0 then field 4 r0 (\<lambda>h r1. field 32 r1 (\<lambda>hi r2. field 4 r2 (\<lambda>i r3. field 32 r3 (\<lambda>ii r4.
          Inr (State_object_v0 \<lparr>so_head = h, so_head_id = hi, so_irreversible = i, so_irreversible_id = ii\<rparr>, r4)))))
        else if tag = 1 then field 4 r0 (\<lambda>b r1. field 32 r1 (\<lambda>i r2. Inr (Received_block_object_v0 b i, r2)))
        else if tag = 2 then field 8 r0 (\<lambda>a r1. vector r1 (\<lambda>abi r2. Inr (Contract_abi_object_v0 a abi, r2)))
        else if tag = 3 then field 8 r0 (\<lambda>a r1. field 4 r1 (\<lambda>b r2. vector r2 (\<lambda>abi r3.
          Inr (Contract_abi_history_v0 (HistKey a b) abi, r3))))
        else if tag = 4 then field 8 r0 (\<lambda>m r1. Inr (Stream_end_v0 m, r1))
        else Inl (Logic_error ''unknown tag''))"

definition tagged_raw :: fc_raw where
  "tagged_raw = \<lparr>
     pack_version = (\<lambda>v. le_bytes 4 (format_version v) @ enc_vector (map (\<lambda>c. word_of_nat (of_char c)) (chronicle_version v))),
     unpack_version = (\<lambda>bin. field 4 bin (\<lambda>f r1. vector r1 (\<lambda>c r2.
        Inr (\<lparr>format_version = f, chronicle_version = map (\<lambda>x. char_of (unat x)) c\<rparr>, r2)))),
     pack_row = tagged_row,
     unpack_row = untagged_row\<rparr>"

lemma field_le_bytes: "field n (le_bytes n x @ rest) k = k (take_bit (8 * n) x) rest"
  by (simp add: field_def of_le_bytes_inverse)

lemma vector_enc: "vector (enc_vector xs @ rest) k = k xs rest"
  by (induction xs arbitrary: k) (simp_all add: enc_vector_def)

lemma char_of_byte: "char_of (unat (word_of_nat (of_char c) :: u8)) = c"
proof -
  have "of_char c < (256 :: nat)" by simp
  then have "unat (word_of_nat (of_char c) :: u8) = of_char c" by (simp add: unat_of_nat)
  then show ?thesis by simp
qed

lemmas codec_simps = char_of_byte field_le_bytes vector_enc take_bit_word_eq_self

interpretation tagged: raw_codec tagged_raw
proof
  fix v rest
  show "unpack_version tagged_raw (pack_version tagged_raw v @ rest) = Inr (v, rest)"
    by (simp add: tagged_raw_def codec_simps o_def del: le_bytes.simps)
next
  fix r rest
  show "unpack_row tagged_raw (pack_row tagged_raw r @ rest) = Inr (r, rest)"
    by (cases r) (simp_all add: tagged_raw_def untagged_row_def codec_simps del: le_bytes.simps)
qed

definition snapshot_example :: tables where
  "snapshot_example = \<lparr>
     state_rows = [\<lparr>so_head = 20, so_head_id = 7, so_irreversible = 18, so_irreversible_id = 6\<rparr>],
     received_rows = [(19, 5), (20, 7)],
     abi_rows = [(5, [1, 8]), (9, [])],
     hist_rows = [(HistKey 5 10, [1, 7]), (HistKey 5 19, [1, 8]), (HistKey 9 20, [])]\<rparr>"

definition example_receiver :: "undo_list \<Rightarrow> (undo_list, (u64 \<times> bytes) list) receiver" where
  "example_receiver d = new_receiver d 100
     \<lparr>bh_timestamp = 0, bh_producer = 0, bh_previous = 0, bh_transaction_mroot = 0, bh_action_mroot = 0\<rparr> 0"

theorem snapshot_round_trip_witness:
  "let s = example_receiver \<lparr>ul_tables = empty_tables, ul_stack = [snapshot_example], ul_revision = 21\<rparr>;
      fresh = example_receiver \<lparr>ul_tables = empty_tables, ul_stack = [], ul_revision = 0\<rparr>;
      E = run_env no_decoders default_config
    in \<exists>d out d'. write_snapshot E tagged_raw ''v3.3'' (s, []) = Return () (s\<lparr>db := d\<rparr>, out)
      \<and> read_snapshot E tagged_raw [] out fresh = Return () (fresh\<lparr>db := d'\<rparr>)
      \<and> abi_rows (ul_tables d') = [(5, [1, 8])] \<and> map fst (hist_rows (ul_tables d')) = [HistKey 5 10, HistKey 5 19]"
  unfolding Let_def
  using snapshot_round_trip [of "run_env no_decoders default_config" ul_stack tagged_raw
      "example_receiver \<lparr>ul_tables = empty_tables, ul_stack = [snapshot_example], ul_revision = 21\<rparr>" snapshot_example
      "run_env no_decoders default_config" ul_stack
      "example_receiver \<lparr>ul_tables = empty_tables, ul_stack = [], ul_revision = 0\<rparr>" "''v3.3''" "[]"]
    undo_list.undo_database_axioms tagged.raw_codec_axioms
  by (fastforce simp: example_receiver_def new_receiver_def snapshot_example_def versions_def wf_tables_def
      less_hist_key_def by_name_and_block_def word_less_nat_alt kept_tables_def undo_list_db_def)

text \<open>
  C22: A snapshot that is cut off is not rolled back. When the file ends, or cannot be decoded,
  after some rows that could be restored, the reader throws, and those rows stay in the
  database; since the state row comes first in a snapshot, loading any snapshot afterwards,
  an intact one included, is refused until the database is removed.
\<close>

theorem truncated_snapshot:
  assumes "undo_database (cb E) stack" and "raw_codec raw" and "tables_of E s = empty_tables"
    and "wf_tables t" and "state_rows t = entry # others" and "unpack_row raw torn = Inl e"
    and "unpack_version raw bin = Inr (\<lparr>format_version = 0, chronicle_version = version\<rparr>, other_rows)"
  shows "\<exists>d. read_snapshot E raw junk (le_bytes 8 MAGIC_NUMBER
        @ pack_version raw \<lparr>format_version = CURRENT_VERSION, chronicle_version = version\<rparr>
        @ concat (map (pack_row raw) (snapshot_rows t)) @ torn) s = Throw e (s\<lparr>db := d\<rparr>)
    \<and> cb_tables (cb E) d = kept_tables t
    \<and> read_snapshot E raw junk (le_bytes 8 MAGIC_NUMBER @ bin) (s\<lparr>db := d\<rparr>)
      = Throw (Runtime_error ''The chronicle database contains a valid state. Aborting'') (s\<lparr>db := d\<rparr>)"
proof -
  obtain d where d: "forM (snapshot_rows t) (\<lambda>r. andThen (restore_row E r) (\<lambda>_. ret ())) s = Return () (s\<lparr>db := d\<rparr>)"
    "cb_tables (cb E) d = kept_tables t"
    using restore_snapshot [OF assms(1,4,5,3)] by blast
  have "\<forall>r \<in> set (snapshot_rows t). \<forall>m. r \<noteq> Stream_end_v0 m" by (auto simp: snapshot_rows_def)
  note rows = raw_codec.read_rows_skip [OF assms(2) d(1) this, of torn, unfolded raw_codec.read_rows_cut [OF assms(2,6)]]
  have state: "state_rows (kept_tables t) = [entry]" using assms(5) by (simp add: kept_tables_def)
  note version = CURRENT_VERSION_def MIN_VERSION_SUPPORTED_def MAX_VERSION_SUPPORTED_def
  have "state_rows (tables_of E s) = []" using assms(3) by (simp add: empty_tables_def)
  then show ?thesis
    by (intro exI [of _ d]) (simp add: read_snapshot_def op_defs version raw_codec.version_inverse [OF assms(2)]
        rows d(2) state assms(7) magic_inverse del: le_bytes.simps)
qed

theorem truncated_snapshot_witness:
  "let fresh = example_receiver \<lparr>ul_tables = empty_tables, ul_stack = [], ul_revision = 0\<rparr>;
      E = run_env no_decoders default_config
    in \<exists>e d. read_snapshot E tagged_raw [] (le_bytes 8 MAGIC_NUMBER @ [0, 0, 0, 0, 0]
        @ concat (map tagged_row (snapshot_rows snapshot_example)) @ [4]) fresh = Throw e (fresh\<lparr>db := d\<rparr>)
      \<and> state_rows (ul_tables d) \<noteq> []"
proof -
  have v: "pack_version tagged_raw \<lparr>format_version = CURRENT_VERSION, chronicle_version = ''''\<rparr> = [0, 0, 0, 0, 0]"
    "pack_row tagged_raw = tagged_row"
    by (simp_all add: tagged_raw_def CURRENT_VERSION_def enc_vector_def eval_nat_numeral)
  have torn: "unpack_row tagged_raw [4] = Inl (Out_of_range ''read past the end'')"
    by (simp add: tagged_raw_def untagged_row_def field_def)
  have bin: "unpack_version tagged_raw [0, 0, 0, 0, 0] = Inr (\<lparr>format_version = 0, chronicle_version = ''''\<rparr>, [])"
    using tagged.version_inverse [of "\<lparr>format_version = CURRENT_VERSION, chronicle_version = ''''\<rparr>" "[]"] v
    by (simp add: CURRENT_VERSION_def)
  obtain entry where entry: "state_rows snapshot_example = [entry]" by (simp add: snapshot_example_def)
  have wf: "wf_tables snapshot_example"
    by (simp add: snapshot_example_def wf_tables_def less_hist_key_def by_name_and_block_def word_less_nat_alt)
  have "\<exists>d. read_snapshot (run_env no_decoders default_config) tagged_raw [] (le_bytes 8 MAGIC_NUMBER
        @ pack_version tagged_raw \<lparr>format_version = CURRENT_VERSION, chronicle_version = ''''\<rparr>
        @ concat (map (pack_row tagged_raw) (snapshot_rows snapshot_example)) @ [4])
        (example_receiver \<lparr>ul_tables = empty_tables, ul_stack = [], ul_revision = 0\<rparr>)
      = Throw (Out_of_range ''read past the end'')
        ((example_receiver \<lparr>ul_tables = empty_tables, ul_stack = [], ul_revision = 0\<rparr>)\<lparr>db := d\<rparr>)
    \<and> ul_tables d = kept_tables snapshot_example"
    using truncated_snapshot [of "run_env no_decoders default_config" ul_stack tagged_raw
        "example_receiver \<lparr>ul_tables = empty_tables, ul_stack = [], ul_revision = 0\<rparr>" snapshot_example entry "[]"
        "[4]" _ "[0, 0, 0, 0, 0]" "''''" "[]" "[]", OF _ _ _ wf _ torn bin]
      undo_list.undo_database_axioms tagged.raw_codec_axioms entry
    by (fastforce simp: example_receiver_def new_receiver_def undo_list_db_def)
  then show ?thesis unfolding v Let_def by (fastforce simp: kept_tables_def entry)
qed

end
