(* ===== verification/Options.thy ===== *)
theory Options
  imports Snapshot Traces ProgramOptions
begin

text \<open>
  \<open>receiver_plugin::plugin_initialize\<close>: the mode, the state database and its lock, the portable
  snapshots, and the options of a normal start. The file system, chainbase's opening of the
  database, the name parser of the eosio library and \<open>boost::split\<close> are parameters.
\<close>

section \<open>What the initialisation works on\<close>

record 'db init_lib =
  string_to_name_strict :: "string \<Rightarrow> error + u64"
  split_at_colons :: "string \<Rightarrow> string list"
  open_database :: "bool \<Rightarrow> u64 \<Rightarrow> error + 'db"
  lock_file :: "bool option"
  file_bytes :: "string \<Rightarrow> bytes"
  cannot_write :: "string \<Rightarrow> string option"
  uninitialised :: bytes

text \<open>
  The members that the options set. \<open>members_config\<close> starts with whatever the memory held in
  the members without an initialiser; \<open>snapshot_file\<close> is the file that was written.
\<close>

record members =
  members_config :: config
  host :: string
  port :: string
  report_every :: u32
  snapshot_file :: "bytes option"

type_synonym ('db, 'ctx, 'a) init_op = "(('db, 'ctx) receiver \<times> members, 'a) op"

definition set_config :: "(config \<Rightarrow> config) \<Rightarrow> ('db, 'ctx, unit) init_op" where
  "set_config f = updates (\<lambda>(s, m). (s, m\<lparr>members_config := f (members_config m)\<rparr>))"

definition take_option :: "error + 'v \<Rightarrow> ('v \<Rightarrow> config \<Rightarrow> config) \<Rightarrow> ('db, 'ctx, unit) init_op" where
  "take_option v f = andThen (liftE v) (\<lambda>v. set_config (f v))"

section \<open>The mode and the database\<close>

definition initialize_mode :: "variables_map \<Rightarrow> ('db, 'ctx, unit) init_op" where
  "initialize_mode options = stmts [
     whenM (\<not> given options ''data-dir'') (throw (Runtime_error ''--data-dir option is required'')),
     if given options ''save-snapshot'' \<or> given options ''restore-snapshot'' then stmts [
       whenM (given options ''save-snapshot'' \<and> given options ''restore-snapshot'')
         (throw (Runtime_error ''--save-snapshot and --restore-snapshot cannot be used at the same time'')),
       set_config (\<lambda>c. c\<lparr>interactive_mode := False, noexport_mode := True\<rparr>)]
     else stmts [
       whenM (\<not> given options ''mode'') (throw (Runtime_error ''mode option is required'')),
       take_option (as_switch options ''irreversible-only'') (\<lambda>v c. c\<lparr>irreversible_only := v\<rparr>),
       take_option (as_text options ''mode'') (\<lambda>receiver_mode c.
         if receiver_mode = ''scan'' then c\<lparr>interactive_mode := False, noexport_mode := False\<rparr>
         else if receiver_mode = ''scan-noexport'' then c\<lparr>interactive_mode := False, noexport_mode := True\<rparr>
         else if receiver_mode = ''interactive'' then
           c\<lparr>interactive_mode := True, noexport_mode := False, irreversible_only := True\<rparr>
         else c)]]"

text \<open>
  The mutex lives in the file \<open>lock.bin\<close> of the data directory: \<open>lock_file\<close> is \<open>None\<close> when there is
  no such file, and then a new one is made with a fresh mutex; otherwise the mutex of the file is
  taken as it is found there. A mutex that another process holds, or that a process left locked
  when it was killed, is waited for.
\<close>

definition map_lock :: "bool option \<Rightarrow> bool" where
  "map_lock found = (case found of None \<Rightarrow> False | Some locked \<Rightarrow> locked)"

definition open_state :: "'db init_lib \<Rightarrow> variables_map \<Rightarrow> ('db, 'ctx, unit) init_op" where
  "open_state L options = inspect (\<lambda>(s, m).
     if map_lock (lock_file L) then (\<lambda>_. Diverge)
     else if interactive_mode (members_config m) then
       andThen (liftE (open_database L True 0)) (\<lambda>d. updates (\<lambda>(s, m). (s\<lparr>db := d\<rparr>, m)))
     else
       andThen (liftE (as_unsigned options ''receiver-state-db-size'')) (\<lambda>size.
       andThen (liftE (open_database L False (1024 * 1024 * ucast size))) (\<lambda>d.
         updates (\<lambda>(s, m). (s\<lparr>db := d\<rparr>, m)))))"

definition quit :: "('db, 'ctx, unit) init_op" where
  "quit = updates (\<lambda>(s, m). (s\<lparr>quitting := True\<rparr>, m))"

definition save_snapshot :: "('db, 'ctx) env \<Rightarrow> fc_raw \<Rightarrow> string \<Rightarrow> 'db init_lib \<Rightarrow> variables_map \<Rightarrow> ('db, 'ctx, unit) init_op" where
  "save_snapshot E raw version L options =
     andThen (liftE (as_text options ''save-snapshot'')) (\<lambda>filename. stmts [
       (case cannot_write L filename of
          Some reason \<Rightarrow> throw (Runtime_error (''Cannot open snapshot for writing: '' @ reason))
        | None \<Rightarrow> ret ()),
       (\<lambda>(s, m). case write_snapshot E raw version (s, []) of
          Return _ (t, out) \<Rightarrow> Return () (t, m\<lparr>snapshot_file := Some out\<rparr>)
        | Throw e (t, out) \<Rightarrow> Throw e (t, m\<lparr>snapshot_file := Some out\<rparr>)
        | Diverge \<Rightarrow> Diverge
        | Undefined \<Rightarrow> Undefined),
       quit])"

definition restore_snapshot :: "('db, 'ctx) env \<Rightarrow> fc_raw \<Rightarrow> 'db init_lib \<Rightarrow> variables_map \<Rightarrow> ('db, 'ctx, unit) init_op" where
  "restore_snapshot E raw L options =
     andThen (liftE (as_text options ''restore-snapshot'')) (\<lambda>filename. stmts [
       onFst (read_snapshot E raw (uninitialised L) (file_bytes L filename)),
       quit])"

section \<open>The options of a normal start\<close>

definition initialize_flags :: "variables_map \<Rightarrow> ('db, 'ctx, unit) init_op" where
  "initialize_flags options = stmts [
     andThen (liftE (as_text options ''host'')) (\<lambda>v. updates (\<lambda>(s, m). (s, m\<lparr>host := v\<rparr>))),
     andThen (liftE (as_text options ''port'')) (\<lambda>v. updates (\<lambda>(s, m). (s, m\<lparr>port := v\<rparr>))),
     andThen (liftE (as_unsigned options ''report-every'')) (\<lambda>v. updates (\<lambda>(s, m). (s, m\<lparr>report_every := v\<rparr>))),
     take_option (as_unsigned options ''max-queue-size'') (\<lambda>v c. c\<lparr>max_queue_size := v\<rparr>),
     take_option (as_switch options ''skip-block-events'') (\<lambda>v c. c\<lparr>skip_block_events := v\<rparr>),
     take_option (as_switch options ''skip-table-deltas'') (\<lambda>v c. c\<lparr>skip_table_deltas := v\<rparr>),
     take_option (as_switch options ''skip-traces'') (\<lambda>v c. c\<lparr>skip_traces := v\<rparr>),
     take_option (as_switch options ''skip-account-info'') (\<lambda>v c. c\<lparr>skip_account_info := v\<rparr>),
     take_option (as_unsigned options ''start-block'') (\<lambda>v c. c\<lparr>start_block_num := v\<rparr>),
     inspect (\<lambda>(s, m). whenM (interactive_mode (members_config m) \<and> start_block_num (members_config m) > 0)
       (throw (Runtime_error ''cannot use start-block in interactive mode''))),
     andThen (liftE (as_unsigned options ''end-block'')) (\<lambda>v. updates (\<lambda>(s, m). (s\<lparr>end_block_num := v\<rparr>, m))),
     take_option (as_unsigned options ''stale-deadline'') (\<lambda>v c. c\<lparr>stale_check_deadline_msec := v\<rparr>)]"

text \<open>The loops that parse account names and insert them into a set.\<close>

definition insert_names :: "'db init_lib \<Rightarrow> (u64 \<Rightarrow> config \<Rightarrow> config) \<Rightarrow> string list \<Rightarrow> ('db, 'ctx, unit) init_op" where
  "insert_names L ins accs = forM accs (\<lambda>accstr. take_option (string_to_name_strict L accstr) ins)"

definition initialize_trace_filters :: "'db init_lib \<Rightarrow> variables_map \<Rightarrow> ('db, 'ctx, unit) init_op" where
  "initialize_trace_filters L options = stmts [
     take_option (as_switch options ''enable-receiver-filter'') (\<lambda>v c. c\<lparr>enable_rcvr_filter := v\<rparr>),
     inspect (\<lambda>(s, m). whenM (enable_rcvr_filter (members_config m)) (stmts [
       whenM (\<not> given options ''include-receiver'')
         (throw (Runtime_error ''Need at least one name in include-receiver option'')),
       andThen (liftE (as_texts options ''include-receiver''))
         (insert_names L (\<lambda>a c. c\<lparr>rcvr_filter := insert a (rcvr_filter c)\<rparr>))])),
     take_option (as_switch options ''enable-auth-filter'') (\<lambda>v c. c\<lparr>enable_auth_filter := v\<rparr>),
     inspect (\<lambda>(s, m). whenM (enable_auth_filter (members_config m)) (stmts [
       whenM (\<not> given options ''include-auth'')
         (throw (Runtime_error ''Need at least one name in include-auth option'')),
       andThen (liftE (as_texts options ''include-auth''))
         (insert_names L (\<lambda>a c. c\<lparr>auth_filter := insert a (auth_filter c)\<rparr>))])),
     inspect (\<lambda>(s, m). whenM (enable_rcvr_filter (members_config m) \<or> enable_auth_filter (members_config m))
       (set_config (\<lambda>c. c\<lparr>do_trace_filter := True\<rparr>)))]"

definition blacklist_entry :: "'db init_lib \<Rightarrow> string \<Rightarrow> error + u64 \<times> u64" where
  "blacklist_entry L blpair = (case split_at_colons L blpair of
      [contract, action] \<Rightarrow> (case string_to_name_strict L contract of
          Inl e \<Rightarrow> Inl e
        | Inr c \<Rightarrow> (case string_to_name_strict L action of
            Inl e \<Rightarrow> Inl e
          | Inr a \<Rightarrow> Inr (c, a)))
    | _ \<Rightarrow> Inl (Runtime_error (''Invalid blacklist entry: '' @ blpair)))"

definition add_blacklisted :: "u64 \<times> u64 \<Rightarrow> config \<Rightarrow> config" where
  "add_blacklisted = (\<lambda>(contract, action) c. c\<lparr>blacklist_actions := (blacklist_actions c)
     (contract \<mapsto> insert action (case blacklist_actions c contract of None \<Rightarrow> {} | Some names \<Rightarrow> names))\<rparr>)"

definition initialize_blacklist :: "'db init_lib \<Rightarrow> variables_map \<Rightarrow> ('db, 'ctx, unit) init_op" where
  "initialize_blacklist L options = whenM (given options ''blacklist-action'')
     (andThen (liftE (as_texts options ''blacklist-action'')) (\<lambda>blacklist_str. stmts [
        set_config (\<lambda>c. c\<lparr>do_trace_blacklist := True\<rparr>),
        forM blacklist_str (\<lambda>blpair. take_option (blacklist_entry L blpair) add_blacklisted)]))"

definition initialize_tables :: "'db init_lib \<Rightarrow> variables_map \<Rightarrow> ('db, 'ctx, unit) init_op" where
  "initialize_tables L options = stmts [
     take_option (as_switch options ''enable-tables-filter'') (\<lambda>v c. c\<lparr>enable_tables_filter := v\<rparr>),
     inspect (\<lambda>(s, m). whenM (enable_tables_filter (members_config m)) (stmts [
       whenM (\<not> given options ''include-tables-contract'')
         (throw (Runtime_error ''Need at least one name in include-tables-contract option'')),
       andThen (liftE (as_texts options ''include-tables-contract''))
         (insert_names L (\<lambda>a c. c\<lparr>tables_filter := insert a (tables_filter c)\<rparr>))])),
     whenM (given options ''blacklist-tables-contract'') (stmts [
       set_config (\<lambda>c. c\<lparr>enable_tables_blacklist := True\<rparr>),
       andThen (liftE (as_texts options ''blacklist-tables-contract''))
         (insert_names L (\<lambda>a c. c\<lparr>tables_blacklist := insert a (tables_blacklist c)\<rparr>))])]"

text \<open>\<open>init\<close> then subscribes to the requests; exceptions are logged and thrown on.\<close>

definition plugin_initialize ::
    "('db, 'ctx) env \<Rightarrow> fc_raw \<Rightarrow> string \<Rightarrow> 'db init_lib \<Rightarrow> variables_map \<Rightarrow> ('db, 'ctx, unit) init_op" where
  "plugin_initialize E raw version L options = stmts [
     initialize_mode options,
     open_state L options,
     if given options ''save-snapshot'' then save_snapshot E raw version L options
     else if given options ''restore-snapshot'' then restore_snapshot E raw L options
     else stmts [
       initialize_flags options,
       initialize_trace_filters L options,
       initialize_blacklist L options,
       initialize_tables L options]]"


section \<open>What the options make of the configuration\<close>

lemma wp_set_config [wp_simps]:
  "wp D (set_config f) Q X (s, m) = Q () (s, m\<lparr>members_config := f (members_config m)\<rparr>)"
  by (simp add: set_config_def wp_simps)

lemma wp_take_option [wp_simps]:
  "wp D (take_option v f) Q X (s, m) = (case v of Inl e \<Rightarrow> X e (s, m)
     | Inr a \<Rightarrow> Q () (s, m\<lparr>members_config := f a (members_config m)\<rparr>))"
  by (simp add: take_option_def wp_simps split: sum.splits)

lemma wp_forM_options:
  assumes "\<And>ys. map f xs = map Inr ys \<Longrightarrow> Q () (s, m\<lparr>members_config := fold g ys (members_config m)\<rparr>)"
  shows "wp True (forM xs (\<lambda>x. take_option (f x) g)) Q (\<lambda>_ _. True) (s, m)"
  using assms
proof (induction xs arbitrary: m)
  case Nil
  then show ?case using Nil [of "[]"] by (simp add: wp_simps)
next
  case (Cons x xs)
  show ?case
  proof (cases "f x")
    case (Inr a)
    have "wp True (forM xs (\<lambda>x. take_option (f x) g)) Q (\<lambda>_ _. True) (s, m\<lparr>members_config := g a (members_config m)\<rparr>)"
    proof (rule Cons.IH)
      fix ys assume "map f xs = map Inr ys"
      then show "Q () (s, m\<lparr>members_config := g a (members_config m), members_config :=
          fold g ys (members_config (m\<lparr>members_config := g a (members_config m)\<rparr>))\<rparr>)"
        using Cons.prems [of "a # ys"] Inr by simp
    qed
    then show ?thesis using Inr by (simp add: wp_simps)
  qed (simp add: wp_simps)
qed

text \<open>The names that the texts of an option denote.\<close>

definition names_of :: "'db init_lib \<Rightarrow> variables_map \<Rightarrow> string \<Rightarrow> u64 set" where
  "names_of L options name = (case as_texts options name of
      Inl _ \<Rightarrow> {} | Inr accs \<Rightarrow> {a. \<exists>x \<in> set accs. string_to_name_strict L x = Inr a})"

definition entries_of :: "'db init_lib \<Rightarrow> variables_map \<Rightarrow> (u64 \<times> u64) set" where
  "entries_of L options = (case as_texts options ''blacklist-action'' of
      Inl _ \<Rightarrow> {} | Inr es \<Rightarrow> {p. \<exists>x \<in> set es. blacklist_entry L x = Inr p})"

lemma map_Inr_set: "map f xs = map Inr ys \<Longrightarrow> set ys = {a. \<exists>x \<in> set xs. f x = Inr a}"
proof (induction xs arbitrary: ys)
  case (Cons x xs)
  then obtain y zs where "ys = y # zs" "f x = Inr y" "map f xs = map Inr zs" by (cases ys) auto
  then show ?case using Cons.IH [of zs] by auto
qed simp

lemma fold_insert:
  "fold (\<lambda>a c. c\<lparr>rcvr_filter := insert a (rcvr_filter c)\<rparr>) ys c = c\<lparr>rcvr_filter := set ys \<union> rcvr_filter c\<rparr>"
  "fold (\<lambda>a c. c\<lparr>auth_filter := insert a (auth_filter c)\<rparr>) ys c = c\<lparr>auth_filter := set ys \<union> auth_filter c\<rparr>"
  "fold (\<lambda>a c. c\<lparr>tables_filter := insert a (tables_filter c)\<rparr>) ys c = c\<lparr>tables_filter := set ys \<union> tables_filter c\<rparr>"
  "fold (\<lambda>a c. c\<lparr>tables_blacklist := insert a (tables_blacklist c)\<rparr>) ys c = c\<lparr>tables_blacklist := set ys \<union> tables_blacklist c\<rparr>"
  by (induction ys arbitrary: c) simp_all

lemma blacklisted_add:
  "blacklisted (add_blacklisted p c) act \<longleftrightarrow> blacklisted c act \<or> p = (act_account act, act_name act)"
  by (cases p) (auto simp: add_blacklisted_def blacklisted_def split: option.splits)

lemma blacklisted_fold:
  "blacklisted (fold add_blacklisted ps c) act \<longleftrightarrow> blacklisted c act \<or> (act_account act, act_name act) \<in> set ps"
  by (induction ps arbitrary: c) (auto simp: blacklisted_add)

lemma blacklist_only: "\<exists>b. fold add_blacklisted ps c = c\<lparr>blacklist_actions := b\<rparr>"
proof (induction ps arbitrary: c)
  case Nil
  show ?case by (intro exI [of _ "blacklist_actions c"]) simp
next
  case (Cons p ps)
  obtain b where "fold add_blacklisted ps (add_blacklisted p c) = (add_blacklisted p c)\<lparr>blacklist_actions := b\<rparr>"
    using Cons by blast
  moreover obtain d where "add_blacklisted p c = c\<lparr>blacklist_actions := d\<rparr>"
    by (cases p) (simp add: add_blacklisted_def)
  ultimately show ?case by (intro exI [of _ b]) simp
qed

lemma wp_trace_filters:
  "wp True (initialize_trace_filters L options) (\<lambda>_ (t, m'). t = s \<and> members_config m' = (members_config m)\<lparr>
     enable_rcvr_filter := as_switch options ''enable-receiver-filter'' = Inr True,
     rcvr_filter := (if as_switch options ''enable-receiver-filter'' = Inr True
        then names_of L options ''include-receiver'' \<union> rcvr_filter (members_config m) else rcvr_filter (members_config m)),
     enable_auth_filter := as_switch options ''enable-auth-filter'' = Inr True,
     auth_filter := (if as_switch options ''enable-auth-filter'' = Inr True
        then names_of L options ''include-auth'' \<union> auth_filter (members_config m) else auth_filter (members_config m)),
     do_trace_filter := (as_switch options ''enable-receiver-filter'' = Inr True
        \<or> as_switch options ''enable-auth-filter'' = Inr True \<or> do_trace_filter (members_config m))\<rparr>)
   (\<lambda>_ _. True) (s, m)"
  unfolding initialize_trace_filters_def insert_names_def
  by (auto simp: wp_simps names_of_def fold_insert split: sum.splits intro!: wp_forM_options dest!: map_Inr_set)


text \<open>The members that the filters consist of, and those that the mode sets.\<close>

definition filter_part ::
    "config \<Rightarrow> bool \<times> u64 set \<times> bool \<times> u64 set \<times> bool \<times> bool \<times> (u64 \<rightharpoonup> u64 set) \<times> bool \<times> u64 set \<times> bool \<times> u64 set" where
  "filter_part c = (enable_rcvr_filter c, rcvr_filter c, enable_auth_filter c, auth_filter c, do_trace_filter c,
     do_trace_blacklist c, blacklist_actions c, enable_tables_filter c, tables_filter c, enable_tables_blacklist c,
     tables_blacklist c)"

definition mode_part :: "config \<Rightarrow> bool \<times> bool \<times> bool" where
  "mode_part c = (interactive_mode c, noexport_mode c, irreversible_only c)"

lemmas part_defs = filter_part_def mode_part_def

lemma wp_blacklist:
  "wp True (initialize_blacklist L options) (\<lambda>_ (t, m').
     \<exists>b. members_config m' = (members_config m)\<lparr>
        do_trace_blacklist := (given options ''blacklist-action'' \<or> do_trace_blacklist (members_config m)),
        blacklist_actions := b\<rparr>
     \<and> (\<forall>act. blacklisted (members_config m') act \<longleftrightarrow> blacklisted (members_config m) act
        \<or> given options ''blacklist-action'' \<and> (act_account act, act_name act) \<in> entries_of L options))
   (\<lambda>_ _. True) (s, m)"
proof (cases "given options ''blacklist-action''")
  case False
  then show ?thesis
    by (auto simp: initialize_blacklist_def wp_simps intro!: exI [of _ "blacklist_actions (members_config m)"])
next
  case True
  have same: "blacklisted (c\<lparr>do_trace_blacklist := True\<rparr>) act = blacklisted c act" for c act
    by (simp add: blacklisted_def)
  show ?thesis
  proof (cases "as_texts options ''blacklist-action''")
    case (Inr es)
    have "wp True (forM es (\<lambda>blpair. take_option (blacklist_entry L blpair) add_blacklisted))
      (\<lambda>_ (t, m').
     \<exists>b. members_config m' = (members_config m)\<lparr>do_trace_blacklist := True, blacklist_actions := b\<rparr>
     \<and> (\<forall>act. blacklisted (members_config m') act \<longleftrightarrow> blacklisted (members_config m) act
        \<or> (act_account act, act_name act) \<in> entries_of L options)) (\<lambda>_ _. True)
      (s, m\<lparr>members_config := (members_config m)\<lparr>do_trace_blacklist := True\<rparr>\<rparr>)"
    proof (rule wp_forM_options)
      fix ps assume ps: "map (blacklist_entry L) es = map Inr ps"
      obtain b where b: "fold add_blacklisted ps ((members_config m)\<lparr>do_trace_blacklist := True\<rparr>)
          = (members_config m)\<lparr>do_trace_blacklist := True, blacklist_actions := b\<rparr>"
        using blacklist_only by blast
      then show "case (s, m\<lparr>members_config := (members_config m)\<lparr>do_trace_blacklist := True\<rparr>, members_config :=
            fold add_blacklisted ps (members_config (m\<lparr>members_config := (members_config m)\<lparr>do_trace_blacklist := True\<rparr>\<rparr>))\<rparr>) of
          (t, m') \<Rightarrow> \<exists>b. members_config m' = (members_config m)\<lparr>do_trace_blacklist := True, blacklist_actions := b\<rparr>
     \<and> (\<forall>act. blacklisted (members_config m') act \<longleftrightarrow> blacklisted (members_config m) act
        \<or> (act_account act, act_name act) \<in> entries_of L options)"
        using blacklisted_fold [of ps "(members_config m)\<lparr>do_trace_blacklist := True\<rparr>"] map_Inr_set [OF ps] Inr
        by (auto simp: same entries_of_def)
    qed
    then show ?thesis using True Inr by (simp add: initialize_blacklist_def wp_simps)
  qed (use True in \<open>simp add: initialize_blacklist_def wp_simps\<close>)
qed

lemma wp_tables:
  "wp True (initialize_tables L options) (\<lambda>_ (t, m'). members_config m' = (members_config m)\<lparr>
     enable_tables_filter := as_switch options ''enable-tables-filter'' = Inr True,
     tables_filter := (if as_switch options ''enable-tables-filter'' = Inr True
        then names_of L options ''include-tables-contract'' \<union> tables_filter (members_config m) else tables_filter (members_config m)),
     enable_tables_blacklist := (given options ''blacklist-tables-contract'' \<or> enable_tables_blacklist (members_config m)),
     tables_blacklist := (if given options ''blacklist-tables-contract''
        then names_of L options ''blacklist-tables-contract'' \<union> tables_blacklist (members_config m) else tables_blacklist (members_config m))\<rparr>)
   (\<lambda>_ _. True) (s, m)"
  unfolding initialize_tables_def insert_names_def
  by (auto simp: wp_simps names_of_def fold_insert split: sum.splits intro!: wp_forM_options dest!: map_Inr_set)

text \<open>The members that are copied from an option each.\<close>

definition flags_given :: "variables_map \<Rightarrow> config \<Rightarrow> bool" where
  "flags_given options c \<longleftrightarrow>
     as_unsigned options ''max-queue-size'' = Inr (max_queue_size c)
     \<and> as_switch options ''skip-block-events'' = Inr (skip_block_events c)
     \<and> as_switch options ''skip-table-deltas'' = Inr (skip_table_deltas c)
     \<and> as_switch options ''skip-traces'' = Inr (skip_traces c)
     \<and> as_switch options ''skip-account-info'' = Inr (skip_account_info c)
     \<and> as_unsigned options ''start-block'' = Inr (start_block_num c)
     \<and> as_unsigned options ''stale-deadline'' = Inr (stale_check_deadline_msec c)"

lemma wp_flags:
  "wp True (initialize_flags options) (\<lambda>_ (t, m'). filter_part (members_config m') = filter_part (members_config m)
     \<and> flags_given options (members_config m')
     \<and> mode_part (members_config m') = mode_part (members_config m)
     \<and> (interactive_mode (members_config m') \<longrightarrow> start_block_num (members_config m') = 0)) (\<lambda>_ _. True) (s, m)"
  by (auto simp: initialize_flags_def wp_simps part_defs flags_given_def word_gt_0 split: sum.splits)

lemma wp_mode:
  assumes "\<not> given options ''save-snapshot''" and "\<not> given options ''restore-snapshot''"
  shows "wp True (initialize_mode options) (\<lambda>_ (t, m'). t = s \<and> filter_part (members_config m') = filter_part (members_config m)
     \<and> mode_part (members_config m') =
       (if as_text options ''mode'' = Inr ''scan'' then (False, False, as_switch options ''irreversible-only'' = Inr True)
        else if as_text options ''mode'' = Inr ''scan-noexport'' then (False, True, as_switch options ''irreversible-only'' = Inr True)
        else if as_text options ''mode'' = Inr ''interactive'' then (True, False, True)
        else (interactive_mode (members_config m), noexport_mode (members_config m), as_switch options ''irreversible-only'' = Inr True)))
   (\<lambda>_ _. True) (s, m)"
  using assms by (auto simp: initialize_mode_def wp_simps part_defs split: sum.splits)

lemma wp_open:
  "wp True (open_state L options) (\<lambda>_ (t, m'). m' = m) (\<lambda>_ _. True) (s, m)"
  by (simp add: open_state_def wp_simps wp_def [of _ "\<lambda>_. Diverge"] split: sum.splits)


text \<open>
  What the options say of the configuration. A mode that is none of the three sets no member
  but \<open>irreversible_only\<close>.
\<close>

definition mode_set :: "variables_map \<Rightarrow> config \<Rightarrow> bool" where
  "mode_set options c \<longleftrightarrow>
     (as_text options ''mode'' = Inr ''scan'' \<longrightarrow> \<not> interactive_mode c \<and> \<not> noexport_mode c)
     \<and> (as_text options ''mode'' = Inr ''scan-noexport'' \<longrightarrow> \<not> interactive_mode c \<and> noexport_mode c)
     \<and> (as_text options ''mode'' = Inr ''interactive'' \<longrightarrow>
          interactive_mode c \<and> \<not> noexport_mode c \<and> irreversible_only c \<and> start_block_num c = 0)
     \<and> (as_text options ''mode'' \<noteq> Inr ''interactive'' \<longrightarrow>
          irreversible_only c = (as_switch options ''irreversible-only'' = Inr True))"

definition configured :: "'db init_lib \<Rightarrow> variables_map \<Rightarrow> config \<Rightarrow> bool" where
  "configured L options c \<longleftrightarrow>
     enable_rcvr_filter c = (as_switch options ''enable-receiver-filter'' = Inr True)
     \<and> enable_auth_filter c = (as_switch options ''enable-auth-filter'' = Inr True)
     \<and> filters_consistent c
     \<and> rcvr_filter c = (if enable_rcvr_filter c then names_of L options ''include-receiver'' else {})
     \<and> auth_filter c = (if enable_auth_filter c then names_of L options ''include-auth'' else {})
     \<and> (\<forall>act. do_trace_blacklist c \<and> blacklisted c act
          \<longleftrightarrow> (act_account act, act_name act) \<in> entries_of L options)
     \<and> enable_tables_filter c = (as_switch options ''enable-tables-filter'' = Inr True)
     \<and> tables_filter c = (if enable_tables_filter c then names_of L options ''include-tables-contract'' else {})
     \<and> enable_tables_blacklist c = given options ''blacklist-tables-contract''
     \<and> tables_blacklist c = names_of L options ''blacklist-tables-contract''
     \<and> flags_given options c \<and> mode_set options c"

lemma initialized_as_configured:
  assumes "plugin_initialize E raw version L options (s, m) = Return () (t, m')"
    and "\<not> given options ''save-snapshot''" and "\<not> given options ''restore-snapshot''"
    and "filter_part (members_config m) = (b1, {}, b2, {}, False, False, Map.empty, b3, {}, False, {})"
  shows "configured L options (members_config m')"
proof -
  let ?c = "members_config m'"
  obtain s1 m1 s2 m2 s3 m3 s4 m4 s5 m5 where runs:
    "initialize_mode options (s, m) = Return () (s1, m1)" "open_state L options (s1, m1) = Return () (s2, m2)"
    "initialize_flags options (s2, m2) = Return () (s3, m3)" "initialize_trace_filters L options (s3, m3) = Return () (s4, m4)"
    "initialize_blacklist L options (s4, m4) = Return () (s5, m5)" "initialize_tables L options (s5, m5) = Return () (t, m')"
    using assms(1-3) by (auto simp: plugin_initialize_def andThen_Return ret_def)
  note one = wp_total [OF runs(1) wp_mode [OF assms(2,3)], simplified]
  then have mode: "filter_part (members_config m1) = filter_part (members_config m)" by simp
  have flags: "filter_part (members_config m3) = filter_part (members_config m2)"
    "mode_part (members_config m3) = mode_part (members_config m2)"
    "interactive_mode (members_config m3) \<longrightarrow> start_block_num (members_config m3) = 0" "flags_given options (members_config m3)"
    and "m2 = m1"
    using wp_total [OF runs(3) wp_flags] wp_total [OF runs(2) wp_open] by auto
  then have three: "filter_part (members_config m3) = (b1, {}, b2, {}, False, False, Map.empty, b3, {}, False, {})"
    "mode_set options (members_config m3)"
    using mode assms(4) one flags by (auto simp: mode_part_def mode_set_def split: if_splits)
  note filters = wp_total [OF runs(4) wp_trace_filters, simplified]
  obtain b where black: "members_config m5 = (members_config m4)\<lparr>do_trace_blacklist :=
      (given options ''blacklist-action'' \<or> do_trace_blacklist (members_config m4)), blacklist_actions := b\<rparr>"
    "\<And>act. blacklisted (members_config m5) act \<longleftrightarrow> blacklisted (members_config m4) act
      \<or> given options ''blacklist-action'' \<and> (act_account act, act_name act) \<in> entries_of L options"
    using wp_total [OF runs(5) wp_blacklist] by auto
  note tables = wp_total [OF runs(6) wp_tables, simplified]
  have "blacklisted ?c act = blacklisted (members_config m5) act"
    "blacklisted (members_config m4) act = blacklisted (members_config m3) act" for act
    using filters tables by (simp_all add: blacklisted_def)
  moreover have "\<not> blacklisted (members_config m3) act" "\<not> do_trace_blacklist (members_config m4)" for act
    using three(1) filters by (simp_all add: blacklisted_def filter_part_def)
  moreover have "entries_of L options = {}" if "\<not> given options ''blacklist-action''"
    using that by (simp add: entries_of_def as_defs given_def)
  ultimately have "do_trace_blacklist ?c \<and> blacklisted ?c act \<longleftrightarrow> (act_account act, act_name act) \<in> entries_of L options" for act
    using black tables by auto
  moreover have "names_of L options n = {}" if "\<not> given options n" for n
    using that by (simp add: names_of_def as_defs given_def)
  moreover have "filters_consistent ?c" using filters black(1) tables three(1) by (simp add: filters_consistent_def filter_part_def)
  moreover have "mode_set options ?c" "flags_given options ?c"
    using three(2) flags(4) filters black(1) tables by (simp_all add: mode_set_def flags_given_def)
  ultimately show ?thesis
    using three(1) filters black(1) tables by (simp add: configured_def filter_part_def)
qed

text \<open>
  A mode that is none of the three is accepted, and then the receiver runs in whatever mode
  the uninitialised members \<open>interactive_mode\<close> and \<open>noexport_mode\<close> happen to hold.
\<close>

lemma unknown_mode_uninitialised:
  assumes "plugin_initialize E raw version L options (s, m) = Return () (t, m')"
    and "\<not> given options ''save-snapshot''" and "\<not> given options ''restore-snapshot''"
    and "as_text options ''mode'' = Inr receiver_mode"
    and "receiver_mode \<notin> {''scan'', ''scan-noexport'', ''interactive''}"
  shows "interactive_mode (members_config m') = interactive_mode (members_config m)
    \<and> noexport_mode (members_config m') = noexport_mode (members_config m)"
proof -
  obtain s1 m1 s2 m2 s3 m3 s4 m4 s5 m5 where runs:
    "initialize_mode options (s, m) = Return () (s1, m1)" "open_state L options (s1, m1) = Return () (s2, m2)"
    "initialize_flags options (s2, m2) = Return () (s3, m3)" "initialize_trace_filters L options (s3, m3) = Return () (s4, m4)"
    "initialize_blacklist L options (s4, m4) = Return () (s5, m5)" "initialize_tables L options (s5, m5) = Return () (t, m')"
    using assms(1-3) by (auto simp: plugin_initialize_def andThen_Return ret_def)
  have "mode_part (members_config m1) = (interactive_mode (members_config m), noexport_mode (members_config m),
      as_switch options ''irreversible-only'' = Inr True)"
    using wp_total [OF runs(1) wp_mode [OF assms(2,3)]] assms(4,5) by auto
  moreover have "mode_part (members_config m3) = mode_part (members_config m1)"
    using wp_total [OF runs(3) wp_flags] wp_total [OF runs(2) wp_open] by auto
  ultimately have "interactive_mode (members_config m3) = interactive_mode (members_config m)"
    "noexport_mode (members_config m3) = noexport_mode (members_config m)"
    by (simp_all add: mode_part_def)
  then show ?thesis
    using wp_total [OF runs(4) wp_trace_filters] wp_total [OF runs(5) wp_blacklist] wp_total [OF runs(6) wp_tables]
    by auto
qed

text \<open>
  C36: After a successful start the configuration is what the options say: a trace filter is
  on exactly when one of the two switches is, each enabled filter consists of the names that
  its option lists, the action blacklist of the pairs that the entries of \<open>blacklist-action\<close>
  denote (and of nothing when it is not given: the default of \<open>eosio:onblock\<close> that
  \<open>docs/advanced-config.md\<close> promises is in no code), the table filter is on exactly when
  its switch is and the table blacklist when it is given; the skip flags, limits and the start
  block are copied; each of the three modes sets its two flags, and interactive mode forces
  irreversible blocks only and no start block. A mode that is none of the three is not refused
  and leaves the two flags as they were.
\<close>

theorem options_configure:
  assumes "plugin_initialize E raw version L options (s, m) = Return () (t, m')"
    and "\<not> given options ''save-snapshot''" and "\<not> given options ''restore-snapshot''"
    and "filter_part (members_config m) = (b1, {}, b2, {}, False, False, Map.empty, b3, {}, False, {})"
  shows "configured L options (members_config m')
    \<and> (\<forall>receiver_mode. as_text options ''mode'' = Inr receiver_mode
         \<and> receiver_mode \<notin> {''scan'', ''scan-noexport'', ''interactive''} \<longrightarrow>
         interactive_mode (members_config m') = interactive_mode (members_config m)
         \<and> noexport_mode (members_config m') = noexport_mode (members_config m))"
  using initialized_as_configured [OF assms] unknown_mode_uninitialised [OF assms(1-3)] by blast

section \<open>A concrete start\<close>

definition start_options :: "string \<Rightarrow> variables_map" where
  "start_options receiver_mode = [''data-dir'' \<mapsto> Text ''/data'', ''mode'' \<mapsto> Text receiver_mode,
     ''irreversible-only'' \<mapsto> Switch False, ''receiver-state-db-size'' \<mapsto> Unsigned 1024,
     ''host'' \<mapsto> Text ''localhost'', ''port'' \<mapsto> Text ''8080'', ''report-every'' \<mapsto> Unsigned 10000,
     ''max-queue-size'' \<mapsto> Unsigned 10000, ''skip-block-events'' \<mapsto> Switch False, ''skip-table-deltas'' \<mapsto> Switch False,
     ''skip-traces'' \<mapsto> Switch False, ''skip-account-info'' \<mapsto> Switch False, ''start-block'' \<mapsto> Unsigned 0,
     ''end-block'' \<mapsto> Unsigned 100, ''stale-deadline'' \<mapsto> Unsigned 10000, ''enable-receiver-filter'' \<mapsto> Switch True,
     ''include-receiver'' \<mapsto> Texts [''alice'', ''bob''], ''enable-auth-filter'' \<mapsto> Switch False,
     ''blacklist-action'' \<mapsto> Texts [''eosio:onblock''], ''enable-tables-filter'' \<mapsto> Switch False]"

definition start_lib :: "undo_list init_lib" where
  "start_lib = \<lparr>string_to_name_strict = (\<lambda>n. if n = ''alice'' then Inr 1 else if n = ''bob'' then Inr 2
        else if n = ''eosio'' then Inr 3 else if n = ''onblock'' then Inr 4
        else Inl (Runtime_error ''invalid name'')),
     split_at_colons = (\<lambda>t. if t = ''eosio:onblock'' then [''eosio'', ''onblock''] else [t]),
     open_database = (\<lambda>_ _. Inr \<lparr>ul_tables = empty_tables, ul_stack = [], ul_revision = 0\<rparr>),
     lock_file = None, file_bytes = (\<lambda>_. []), cannot_write = (\<lambda>_. None), uninitialised = []\<rparr>"

definition junk_members :: members where
  "junk_members = \<lparr>members_config = default_config\<lparr>interactive_mode := True, noexport_mode := True\<rparr>,
     host = [], port = [], report_every = 0, snapshot_file = None\<rparr>"

definition start_result :: "string \<Rightarrow> (undo_list, (u64 \<times> bytes) list) receiver \<times> members" where
  "start_result receiver_mode = (case plugin_initialize (run_env no_decoders default_config) tagged_raw ''v3.3'' start_lib
      (start_options receiver_mode) (example_receiver \<lparr>ul_tables = empty_tables, ul_stack = [], ul_revision = 0\<rparr>, junk_members)
    of Return _ d \<Rightarrow> d)"

lemma map_lock_None [simp]: "map_lock None = False"
  by (simp add: map_lock_def)

lemma start_returns:
  assumes "receiver_mode = ''scan'' \<or> receiver_mode = ''scan-export''"
  shows "plugin_initialize (run_env no_decoders default_config) tagged_raw ''v3.3'' start_lib (start_options receiver_mode)
      (example_receiver \<lparr>ul_tables = empty_tables, ul_stack = [], ul_revision = 0\<rparr>, junk_members)
    = Return () (start_result receiver_mode)"
  unfolding start_result_def using assms
  by (auto simp: plugin_initialize_def initialize_mode_def open_state_def initialize_flags_def initialize_trace_filters_def
      initialize_blacklist_def initialize_tables_def insert_names_def blacklist_entry_def start_lib_def start_options_def
      as_defs given_def op_defs take_option_def set_config_def junk_members_def default_config_def)

lemma normal_start: "\<not> given (start_options receiver_mode) ''save-snapshot''" "\<not> given (start_options receiver_mode) ''restore-snapshot''"
  by (simp_all add: given_def start_options_def)

theorem options_configure_witness:
  "rcvr_filter (members_config (snd (start_result ''scan''))) = {1, 2}
   \<and> \<not> interactive_mode (members_config (snd (start_result ''scan'')))
   \<and> \<not> noexport_mode (members_config (snd (start_result ''scan'')))
   \<and> \<not> enable_tables_filter (members_config (snd (start_result ''scan'')))
   \<and> max_queue_size (members_config (snd (start_result ''scan''))) = 10000"
proof -
  obtain t m' where r: "start_result ''scan'' = (t, m')" by fastforce
  have "filter_part (members_config junk_members) = (False, {}, False, {}, False, False, Map.empty, False, {}, False, {})"
    by (simp add: filter_part_def junk_members_def default_config_def)
  note c = options_configure [OF start_returns [of "''scan''", unfolded r] normal_start this]
  have "names_of start_lib (start_options ''scan'') ''include-receiver'' = {1, 2}"
    by (auto simp: names_of_def as_defs start_options_def start_lib_def)
  moreover have "as_switch (start_options ''scan'') ''enable-receiver-filter'' = Inr True"
    "as_switch (start_options ''scan'') ''enable-tables-filter'' = Inr False"
    "as_unsigned (start_options ''scan'') ''max-queue-size'' = Inr 10000"
    "as_text (start_options ''scan'') ''mode'' = Inr ''scan''"
    by (simp_all add: as_defs start_options_def)
  ultimately show ?thesis using c r by (simp add: configured_def flags_given_def mode_set_def)
qed

lemma unknown_mode_uninitialised_witness:
  "interactive_mode (members_config (snd (start_result ''scan-export'')))
   \<and> noexport_mode (members_config (snd (start_result ''scan-export'')))"
proof -
  obtain t m' where r: "start_result ''scan-export'' = (t, m')" by fastforce
  have "as_text (start_options ''scan-export'') ''mode'' = Inr ''scan-export''"
    by (simp add: as_defs start_options_def)
  then show ?thesis
    using unknown_mode_uninitialised [OF start_returns [of "''scan-export''", unfolded r] normal_start] r
    by (simp add: junk_members_def)
qed


section \<open>A lock that was left behind\<close>

text \<open>
  A mutex of \<open>boost::interprocess\<close> is not released when its holder is killed. Whatever the
  options ask for, a start that finds it locked waits for ever, once the mode is read; a
  start that finds no file is not held up.
\<close>

lemma left_lock_blocks_start:
  assumes "lock_file L = Some True" and "initialize_mode options sm = Return () sm'"
  shows "plugin_initialize E raw version L options sm = Diverge"
  using assms by (cases sm') (simp add: plugin_initialize_def open_state_def map_lock_def op_defs)

lemma start_without_lock_file:
  "lock_file L = None \<or> lock_file L = Some False \<Longrightarrow>
   open_state L options (s, m) \<noteq> Diverge"
  by (auto simp: open_state_def map_lock_def op_defs split: sum.splits if_splits)

lemma left_lock_blocks_scan:
  "plugin_initialize (run_env no_decoders default_config) tagged_raw ''v3.3'' (start_lib\<lparr>lock_file := Some True\<rparr>)
     (start_options ''scan'') (example_receiver \<lparr>ul_tables = empty_tables, ul_stack = [], ul_revision = 0\<rparr>, junk_members)
   = Diverge"
proof -
  obtain sm' where "initialize_mode (start_options ''scan'')
      (example_receiver \<lparr>ul_tables = empty_tables, ul_stack = [], ul_revision = 0\<rparr>, junk_members) = Return () sm'"
    by (simp add: initialize_mode_def start_options_def as_defs given_def op_defs take_option_def set_config_def)
  then show ?thesis by (simp add: left_lock_blocks_start)
qed

end
