(* ===== verification/Application.thy ===== *)
theory Application
  imports Options Relic
begin

text \<open>
  The application around the plugins: the options they declare and their defaults, the start of
  the receiver, \<open>main\<close>, and the example exporter \<open>exp-dummy-plugin\<close>. The appbase library calls
  the plugins; its own work is a parameter.
\<close>

section \<open>Declared options\<close>

text \<open>
  What \<open>set_program_options\<close> declares: the type of each option's value and its default.
  \<open>boost::program_options\<close> stores the default when the option was not supplied, and accepts
  only declared options and values of their type.
\<close>

datatype opt_kind = Text_kind | Unsigned_kind | Switch_kind | Texts_kind

fun kind_of :: "opt_value \<Rightarrow> opt_kind" where
  "kind_of (Text s) = Text_kind"
| "kind_of (Unsigned n) = Unsigned_kind"
| "kind_of (Switch b) = Switch_kind"
| "kind_of (Texts ss) = Texts_kind"

type_synonym declared = "(string \<times> opt_kind \<times> opt_value option) list"

definition receiver_program_options :: declared where
  "receiver_program_options = [
     (''host'', Text_kind, Some (Text ''localhost'')),
     (''port'', Text_kind, Some (Text ''8080'')),
     (''receiver-state-db-size'', Unsigned_kind, Some (Unsigned 1024)),
     (''mode'', Text_kind, None),
     (''report-every'', Unsigned_kind, Some (Unsigned 10000)),
     (''max-queue-size'', Unsigned_kind, Some (Unsigned 10000)),
     (''skip-block-events'', Switch_kind, Some (Switch False)),
     (''skip-table-deltas'', Switch_kind, Some (Switch False)),
     (''skip-traces'', Switch_kind, Some (Switch False)),
     (''skip-account-info'', Switch_kind, Some (Switch False)),
     (''irreversible-only'', Switch_kind, Some (Switch False)),
     (''start-block'', Unsigned_kind, Some (Unsigned 0)),
     (''end-block'', Unsigned_kind, Some (Unsigned 4294967295)),
     (''stale-deadline'', Unsigned_kind, Some (Unsigned 10000)),
     (''enable-receiver-filter'', Switch_kind, Some (Switch False)),
     (''include-receiver'', Texts_kind, None),
     (''enable-auth-filter'', Switch_kind, Some (Switch False)),
     (''include-auth'', Texts_kind, None),
     (''blacklist-action'', Texts_kind, None),
     (''enable-tables-filter'', Switch_kind, Some (Switch False)),
     (''include-tables-contract'', Texts_kind, None),
     (''blacklist-tables-contract'', Texts_kind, None),
     (''save-snapshot'', Text_kind, None),
     (''restore-snapshot'', Text_kind, None)]"

definition ws_program_options :: declared where
  "ws_program_options = [
     (''exp-ws-host'', Text_kind, None),
     (''exp-ws-port'', Text_kind, None),
     (''exp-ws-path'', Text_kind, Some (Text ''/'')),
     (''exp-ws-max-unack'', Unsigned_kind, Some (Unsigned 1000)),
     (''exp-ws-max-queue'', Unsigned_kind, Some (Unsigned 10000)),
     (''exp-ws-bin-header'', Switch_kind, Some (Switch False))]"

definition relic_program_options :: declared where
  "relic_program_options = [
     (''exp-relic-host'', Text_kind, Some (Text ''localhost'')),
     (''exp-relic-port'', Text_kind, Some (Text ''5432'')),
     (''exp-relic-username'', Text_kind, Some (Text ''chronicle_user'')),
     (''exp-relic-password'', Text_kind, Some (Text ''1234!'')),
     (''exp-relic-db'', Text_kind, Some (Text ''relicdb'')),
     (''exp-relic-max-unack'', Unsigned_kind, Some (Unsigned 1000)),
     (''exp-reic-max-queue'', Unsigned_kind, Some (Unsigned 10000)),
     (''exp-relic-bin-header'', Switch_kind, Some (Switch False))]"

definition dummy_program_options :: declared where
  "dummy_program_options = [(''exp-dummy-foo'', Text_kind, None)]"

definition with_defaults :: "declared \<Rightarrow> variables_map \<Rightarrow> variables_map" where
  "with_defaults ds supplied = (\<lambda>name. case supplied name of
      Some v \<Rightarrow> Some v
    | None \<Rightarrow> (case map_of ds name of None \<Rightarrow> None | Some (_, d) \<Rightarrow> d))"

definition accepted :: "declared \<Rightarrow> variables_map \<Rightarrow> bool" where
  "accepted ds supplied \<longleftrightarrow> (\<forall>name v. supplied name = Some v \<longrightarrow> (\<exists>d. map_of ds name = Some (kind_of v, d)))"

text \<open>The options as their plugins read them never miss and never have the wrong type.\<close>

definition well_declared :: "declared \<Rightarrow> bool" where
  "well_declared ds \<longleftrightarrow> (\<forall>(name, k, d) \<in> set ds. \<forall>v. d = Some v \<longrightarrow> kind_of v = k)"

lemma program_options_well_declared:
  "well_declared receiver_program_options" "well_declared ws_program_options" "well_declared relic_program_options"
  by (simp_all add: well_declared_def receiver_program_options_def ws_program_options_def relic_program_options_def)

lemma with_defaults_kind:
  assumes "accepted ds supplied" and "well_declared ds" and "map_of ds name = Some (k, d)"
    and "with_defaults ds supplied name = Some v"
  shows "kind_of v = k"
proof (cases "supplied name")
  case None
  then have "d = Some v" using assms(3,4) by (simp add: with_defaults_def)
  then show ?thesis using assms(2) map_of_SomeD [OF assms(3)] by (fastforce simp: well_declared_def)
next
  case (Some w)
  then have "w = v" using assms(4) by (simp add: with_defaults_def)
  then show ?thesis using assms(1,3) Some by (fastforce simp: accepted_def)
qed

lemma with_defaults_present: "map_of ds name = Some (k, Some d) \<Longrightarrow> with_defaults ds supplied name \<noteq> None"
  by (simp add: with_defaults_def split: option.split)

lemma as_unsigned_default:
  assumes "accepted ds supplied" and "well_declared ds" and "map_of ds name = Some (Unsigned_kind, Some d)"
  obtains n where "as_unsigned (with_defaults ds supplied) name = Inr n"
proof -
  obtain v where v: "with_defaults ds supplied name = Some v" using with_defaults_present [OF assms(3)] by blast
  with with_defaults_kind [OF assms v] that show ?thesis by (cases v) (simp_all add: as_defs)
qed

lemma as_switch_default:
  assumes "accepted ds supplied" and "well_declared ds" and "map_of ds name = Some (Switch_kind, Some d)"
  obtains b where "as_switch (with_defaults ds supplied) name = Inr b"
proof -
  obtain v where v: "with_defaults ds supplied name = Some v" using with_defaults_present [OF assms(3)] by blast
  with with_defaults_kind [OF assms v] that show ?thesis by (cases v) (simp_all add: as_defs)
qed

lemma as_text_default:
  assumes "accepted ds supplied" and "well_declared ds" and "map_of ds name = Some (Text_kind, d)"
    and "given (with_defaults ds supplied) name"
  obtains t where "as_text (with_defaults ds supplied) name = Inr t"
proof -
  obtain v where v: "with_defaults ds supplied name = Some v" using assms(4) by (auto simp: given_def)
  with with_defaults_kind [OF assms(1-3) v] that show ?thesis by (cases v) (simp_all add: as_defs)
qed

text \<open>All the plugins of the program declare their options, whether they are enabled or not.\<close>

definition all_program_options :: declared where
  "all_program_options = receiver_program_options @ ws_program_options @ relic_program_options"

lemma all_well_declared: "well_declared all_program_options"
  using program_options_well_declared
  by (auto simp: well_declared_def all_program_options_def)

lemmas all_options_simps = all_program_options_def receiver_program_options_def ws_program_options_def
  relic_program_options_def

lemma ws_options_defaults:
  assumes "accepted all_program_options supplied" and "given supplied ''exp-ws-host''" and "given supplied ''exp-ws-port''"
    and "ws_options (with_defaults all_program_options supplied) x = Throw e y"
  shows "e = Runtime_error ''Maximum unacked blocks must be a positive integer''
    \<or> e = Runtime_error ''Maximum queue size must be a positive integer''"
proof -
  let ?o = "with_defaults all_program_options supplied"
  note w = all_well_declared
  have g: "given ?o ''exp-ws-host''" "given ?o ''exp-ws-port''" "given ?o ''exp-ws-path''"
    using assms(2,3) by (auto simp: given_def with_defaults_def all_options_simps split: option.split)
  have m: "map_of all_program_options ''exp-ws-host'' = Some (Text_kind, None)"
    "map_of all_program_options ''exp-ws-port'' = Some (Text_kind, None)"
    "map_of all_program_options ''exp-ws-path'' = Some (Text_kind, Some (Text ''/''))"
    "map_of all_program_options ''exp-ws-max-unack'' = Some (Unsigned_kind, Some (Unsigned 1000))"
    "map_of all_program_options ''exp-ws-max-queue'' = Some (Unsigned_kind, Some (Unsigned 10000))"
    "map_of all_program_options ''exp-ws-bin-header'' = Some (Switch_kind, Some (Switch False))"
    by (simp_all add: all_options_simps)
  obtain h where "as_text ?o ''exp-ws-host'' = Inr h" by (rule as_text_default [OF assms(1) w m(1) g(1)])
  moreover obtain p where "as_text ?o ''exp-ws-port'' = Inr p" by (rule as_text_default [OF assms(1) w m(2) g(2)])
  moreover obtain t where "as_text ?o ''exp-ws-path'' = Inr t" by (rule as_text_default [OF assms(1) w m(3) g(3)])
  moreover obtain u where "as_unsigned ?o ''exp-ws-max-unack'' = Inr u" by (rule as_unsigned_default [OF assms(1) w m(4)])
  moreover obtain q where "as_unsigned ?o ''exp-ws-max-queue'' = Inr q" by (rule as_unsigned_default [OF assms(1) w m(5)])
  moreover obtain b where "as_switch ?o ''exp-ws-bin-header'' = Inr b" by (rule as_switch_default [OF assms(1) w m(6)])
  ultimately show ?thesis
    using assms(4) g by (auto simp: ws_options_def op_defs ws_init_def split: if_splits)
qed

section \<open>The start of the receiver\<close>

text \<open>
  \<open>start\<close> reads the saved state and begins to resolve the host; the chain of callbacks goes on
  with the connection and the handshake, which opens the stream.
\<close>

definition receiver_start :: "('db, 'ctx) env \<Rightarrow> ('db, 'ctx, unit) rop" where
  "receiver_start E = stmts [
     updates (\<lambda>s. s\<lparr>stream_open := False\<rparr>),
     whenM (\<not> interactive_mode (cfg E)) (load_state E)]"

definition receiver_resolved :: "bool \<Rightarrow> ('db, 'ctx, unit) rop" where
  "receiver_resolved ec = callback ec (ret ())"

definition receiver_connected :: "bool \<Rightarrow> ('db, 'ctx, unit) rop" where
  "receiver_connected ec = callback ec (ret ())"

definition receiver_handshaken :: "('db, 'ctx) env \<Rightarrow> bool \<Rightarrow> ('db, 'ctx, unit) rop" where
  "receiver_handshaken E ec = stmts [
     updates (\<lambda>s. s\<lparr>stream_open := \<not> ec\<rparr>),
     callback ec (start_read E)]"

text \<open>\<open>plugin_startup\<close>: the receiver starts when all the plugins it depends on have started.\<close>

definition receiver_plugin_startup :: "('db, 'ctx) env \<Rightarrow> (app \<times> ('db, 'ctx) receiver, bool) op" where
  "receiver_plugin_startup E = andThen (onFst start_after_dependencies) (\<lambda>launch.
     andThen (whenM launch (onSnd (receiver_start E))) (\<lambda>_. ret launch))"

definition receiver_plugin_shutdown :: "('db, 'ctx, unit) rop" where
  "receiver_plugin_shutdown = close"

lemma receiver_handshaken_reads:
  "receiver_handshaken E False s = Return () (s\<lparr>stream_open := True, reading := True, stale_check_last_head := head s,
     stale_timer := Some (stale_check_deadline_msec (cfg E))\<rparr>)"
  by (simp add: receiver_handshaken_def callback_def catch_and_close_def start_read_def op_defs)

lemma receiver_unreachable_quits:
  "\<exists>t. receiver_handshaken E True s = Return () t \<and> quitting t \<and> reading t = reading s"
  by (simp add: receiver_handshaken_def callback_def on_fail_def close_def abort_receiver_def op_defs)

section \<open>main\<close>

text \<open>What appbase does for \<open>main\<close>, and what \<open>main\<close> prints; an exception ends as a text on \<open>cerr\<close>.\<close>

record 'w appbase =
  register_plugin :: "('w, unit) op"
  app_initialize :: "string list \<Rightarrow> ('w, bool) op"
  initialize_logging :: "('w, unit) op"
  app_startup :: "('w, unit) op"
  app_exec :: "('w, unit) op"

definition main_body :: "'w appbase \<Rightarrow> string list \<Rightarrow> ('w, bool) op" where
  "main_body A argv = andThen (register_plugin A) (\<lambda>_. andThen (app_initialize A argv) (\<lambda>ok.
     if \<not> ok then ret False
     else andThen (stmts [initialize_logging A, app_startup A, app_exec A]) (\<lambda>_. ret True)))"

definition main :: "'w appbase \<Rightarrow> string list \<Rightarrow> ('w, int \<times> string) op" where
  "main A argv = catching
     (andThen (main_body A argv) (\<lambda>ok. ret (if ok then (0, ''exited cleanly'') else (-1, []))))
     (\<lambda>e. ret (0, ''exited cleanly''))"

lemma main_hides_exceptions:
  "main_body A argv w = Throw e v \<Longrightarrow> main A argv w = Return (0, ''exited cleanly'') v"
  by (simp add: main_def catching_def andThen_def ret_def)

section \<open>The example exporter\<close>

text \<open>It logs the type of each message, and acknowledges nothing.\<close>

definition dummy_subscriptions :: "(js_channel \<times> string) list" where
  "dummy_subscriptions = [
     (Js_forks, ''FORK''),
     (Js_blocks, ''BLOCK''),
     (Js_transaction_traces, ''TX_TRACE''),
     (Js_abi_updates, ''ABI_UPD''),
     (Js_abi_removals, ''ABI_REM''),
     (Js_abi_errors, ''ABI_ERR''),
     (Js_table_row_updates, ''TBL_ROW''),
     (Js_receiver_pauses, ''RCVR_PAUSE''),
     (Js_abi_decoder_errors, ''ENCODER_ERR'')]"

record dummy_exporter =
  dummy_subscribed :: "(js_channel \<times> string) list"
  dummy_log :: "string list"

definition dummy_on_event :: "string \<Rightarrow> string \<Rightarrow> (dummy_exporter, unit) op" where
  "dummy_on_event msgtype event = updates (\<lambda>x. x\<lparr>dummy_log := dummy_log x @ [''Event: '' @ msgtype]\<rparr>)"

definition dummy_deliver :: "js_channel \<Rightarrow> string \<Rightarrow> (dummy_exporter, unit) op" where
  "dummy_deliver ch event = inspect (\<lambda>x. case map_of (dummy_subscribed x) ch of
      None \<Rightarrow> ret () | Some msgtype \<Rightarrow> dummy_on_event msgtype event)"

definition dummy_plugin_initialize :: "variables_map \<Rightarrow> (app \<times> dummy_exporter, unit) op" where
  "dummy_plugin_initialize options = stmts [
     onFst (donot_start_receiver_before ''exp_dummy_plugin''),
     whenM (given options ''exp-dummy-foo'') (andThen (liftE (as_text options ''exp-dummy-foo'')) (\<lambda>foo.
       onSnd (updates (\<lambda>x. x\<lparr>dummy_log := dummy_log x @ [''foo is '' @ foo]\<rparr>)))),
     onSnd (updates (\<lambda>x. x\<lparr>dummy_subscribed := dummy_subscriptions\<rparr>)),
     onFst exporter_initialized]"

lemma dummy_deliver_logs:
  "dummy_deliver ch event x = Return () (x\<lparr>dummy_log := dummy_log x @
     (case map_of (dummy_subscribed x) ch of None \<Rightarrow> [] | Some msgtype \<Rightarrow> [''Event: '' @ msgtype])\<rparr>)"
  by (simp add: dummy_deliver_def dummy_on_event_def op_defs split: option.split)

text \<open>A second exporter is refused, whatever it is.\<close>

lemma second_exporter_refused:
  assumes "have_exporter a"
  shows "\<nexists>d. dummy_plugin_initialize options (a, x) = Return () d" and "\<nexists>d. ws_plugin_initialize options (a, y) = Return () d \<and> is_noexport_opt options = Inr False"
  using assms
  by (auto simp: dummy_plugin_initialize_def ws_plugin_initialize_def exporter_initialized_def donot_start_receiver_before_def
      initialize_decoder_def decoder_initialize_def andThen_Return op_defs onFst_def onSnd_def whenM_def liftE_def split: outcome.splits prod.splits if_splits sum.splits)

end
