(* ===== verification/Spec2Isabelle.thy ===== *)
theory Spec2Isabelle
  imports Pipeline Watchdog Application
begin

text \<open>
  Chronicle connects to the state history plugin of an EOSIO or FIO node, receives block after
  block, and exports what happened to a consumer: a WebSocket server (\<open>exp_ws_plugin\<close>) or a
  PostgreSQL database (\<open>exp_relic_plugin\<close>). This development models the receiver, the decoder,
  the two exporters, the helpers they use, the program around them and the example exporter.
  Paths are under \<open>src/chronicle-receiver/\<close> where nothing else is said.

  \<^bold>\<open>How the parts interact.\<close> The receiver (\<open>receiver_plugin.cpp\<close>) reads one message from the
  node at a time. For each block it opens a session of an undo database, publishes events for
  the block, its traces and its table deltas on channels, commits what is irreversible and
  acknowledged, and reads on, unless a client's slowdown or missing acknowledgements make it
  pause. The decoder (\<open>decoder_plugin.cpp\<close>) turns each event into JSON on a second set of
  channels. An exporter queues those messages, sends them, acknowledges blocks, and asks the
  receiver to slow down when its queue grows. A fork makes the receiver undo blocks, announce
  the fork, and wait for its acknowledgement.

  \<^bold>\<open>Conventions.\<close> An operation of the code is a function of type \<open>('s, 'a) op\<close> from the state to
  an \<open>outcome\<close>: \<open>Return\<close>, \<open>Throw\<close> with an exception, \<open>Diverge\<close>, or \<open>Undefined\<close> for undefined
  behaviour of C++. Integers are words of their width. Libraries that are not part of the
  sources (chainbase, abieos, fc, rapidjson, libpq, the name parser) are records of functions
  that the operations take as parameters; what the proofs need of them are locales
  (\<open>undo_database\<close>, \<open>abi_library\<close>, \<open>raw_codec\<close>), each interpreted on a concrete model.

  \<^bold>\<open>Theories.\<close>
  \<^item> \<open>Prelude\<close>: outcomes, \<open>stmts\<close>, \<open>catching\<close>, the weakest-precondition calculus \<open>wp\<close> and its
    collection \<open>wp_simps\<close>; \<open>StdText\<close>: decimal texts and \<open>std::stoul\<close>.
  \<^item> \<open>StateDb\<close>, \<open>ReceiverState\<close>: the tables of the state database, its undo sessions, and the
    members, options and events of the receiver.
  \<^item> \<open>AbiStore\<close>, \<open>Traces\<close>, \<open>Deltas\<close>: loading, saving and looking up contract ABIs, the trace
    filter, and the table deltas (\<open>receive_traces\<close>, \<open>receive_deltas\<close>).
  \<^item> \<open>Revisions\<close>, \<open>Flow\<close>, \<open>Receiver\<close>: restart, commit and rollback; pauses, acknowledgements and
    requests; and the handler \<open>receive_result\<close> of every message from the node.
  \<^item> \<open>Snapshot\<close>: portable snapshots; \<open>Options\<close>: the options of a start; \<open>ProgramOptions\<close>: the
    option map.
  \<^item> \<open>ClientFrame\<close>: what the transitions of the receiver leave alone, its own (\<open>own_step\<close>) and
    those that clients may cause (\<open>step\<close>); \<open>WsExporter\<close>: the WebSocket exporter as a machine, with a
    specification (\<open>calls\<close>) of what each of its inputs asks of the receiver.
  \<^item> \<open>Decoder\<close>: the conversion of events to JSON, and the reports about what is not decodable.
  \<^item> \<open>Names\<close>, \<open>Timestamps\<close>: account names, public keys (\<open>name.hpp\<close>, \<open>keyops.hpp\<close>) and the
    timestamps of contracts.
  \<^item> \<open>Sql\<close>, \<open>RelicState\<close>, \<open>RelicActions\<close>, \<open>Relic\<close>: the PostgreSQL exporter: JSON values and
    calls of the database, the state and the primitive steps, one definition per FIO action, and
    the handler of each message, the send loop and the start. \<open>RelicFrame\<close> shows what none of
    the handlers touches, \<open>RelicLoop\<close> that the loop ends and when it stops, \<open>RelicAnswers\<close> that no
    answer of the database is ignored, \<open>RelicClaims\<close> what messages and actions lead to, \<open>RelicExamples\<close> holds the concrete cases.
  \<^item> \<open>Messages\<close>: the types of the records that the decoder writes, as a relation between JSON
    values and the types that the reflection macros of the sources spell out.
  \<^item> \<open>Pipeline\<close>: receiver, decoder and exporter composed, from the bytes of the node to the frames
    of the WebSocket exporter, and from a fork to its acknowledgement by the PostgreSQL exporter;
    \<open>Watchdog\<close>: the check for stale transactions after an exception has ended the reading.
  \<^item> \<open>Application\<close>: \<open>main.cpp\<close>, the options that each plugin declares with their defaults
    (\<open>set_program_options\<close>), startup, connection, handshake and shutdown of the receiver, and the
    example exporter of \<open>src/examples/exp-dummy-plugin\<close>.

  \<^bold>\<open>What the lemmas show.\<close> The receiver's handler keeps an invariant that ties its members to the
  saved state and the undo database, and refines a log of versions: one more per block, those of a
  replaced fork dropped, the irreversible and acknowledged ones made permanent. The filters and
  the decoder export each trace exactly once or report why not. The flow control never resumes
  without the acknowledgement of a fork. Both exporters deliver every message once and in order;
  the WebSocket exporter makes exactly the calls of the receiver that its inputs ask for, and the
  PostgreSQL exporter uses it through its client interface only and stops at the first query that
  the database rejects. Round trips are shown for names, keys, timestamps, snapshots, frames and
  amounts. Every message of the decoder has the fields and the types of the records it stands for.
  Composed, the parts take the traces that the filter keeps to the consumer, once each and in
  order, and a fork to its end. Where the code does something else than the documents under \<open>docs/\<close>
  say (the precedence of the action blacklist and its default, table rows without an ABI, the
  block from which an interactive lookup takes the ABI), the property says so. Where the code does
  not do what it means to, a property states what it does instead; the cases are those of an
  interactive lookup, a rollback past the oldest revision, a lock left behind, long keys, small
  queues, truncated snapshots, removed handles, unescaped texts, and acknowledgements one block
  behind.

  \<^bold>\<open>Loops and fuel.\<close> \<open>undo_while\<close> has an explicit case of divergence, which is part of a
  property. The send loop of the PostgreSQL exporter calls itself once per queued message and
  nothing is queued meanwhile, so its fuel is the length of the queue plus one, and
  \<open>send_rounds_served\<close> shows that this never runs out. The other loops are structural or have a
  measure.

  \<^bold>\<open>Not modelled.\<close> Sockets, timers and the scheduler of \<open>appbase\<close> and \<open>boost::asio\<close> appear as
  the inputs of a run and the pending operations of the state. The depth of the stack, memory
  exhaustion and log output do not appear, nor do \<open>PQclear\<close> and \<open>PQfreemem\<close>, which only release
  memory. The struct \<open>name\<close> of \<open>name.hpp\<close> wraps a number; nothing of the program
  uses it, and its conversions from and to text are declared without a definition.
  \<open>walk_abi_history\<close> is not called: it passes each row of the ABI history to a callback in the
  order of the internal identifiers, which the tables of the model do not have.
\<close>

section \<open>From the options to the exported traces\<close>

text \<open>What the options say of an action.\<close>

definition option_names :: "'db init_lib \<Rightarrow> variables_map \<Rightarrow> string \<Rightarrow> string \<Rightarrow> u64 set" where
  "option_names L options switch names =
     (if as_switch options switch = Inr True then names_of L options names else {})"

definition option_listed :: "'db init_lib \<Rightarrow> variables_map \<Rightarrow> action_trace \<Rightarrow> bool" where
  "option_listed L options a \<longleftrightarrow> (act_account (at_act a), act_name (at_act a)) \<in> entries_of L options"

definition option_passes :: "'db init_lib \<Rightarrow> variables_map \<Rightarrow> action_trace \<Rightarrow> bool" where
  "option_passes L options a \<longleftrightarrow>
     at_receiver a \<in> option_names L options ''enable-receiver-filter'' ''include-receiver'' \<or>
     (\<exists>auth \<in> set (act_authorization (at_act a)).
        pl_actor auth \<in> option_names L options ''enable-auth-filter'' ''include-auth'')"

definition filtering :: "variables_map \<Rightarrow> bool" where
  "filtering options \<longleftrightarrow> as_switch options ''enable-receiver-filter'' = Inr True
     \<or> as_switch options ''enable-auth-filter'' = Inr True"

text \<open>
  C39: From the command line to the export: after a start with these options, whatever the
  members held before, a transaction trace whose actions are known is published exactly when
  no action in it is listed by \<open>blacklist-action\<close> and, if a filter is enabled, one of its actions
  passes; or when an action that passes a filter comes before the first listed one. The second
  case is against \<open>docs/advanced-config.md\<close>, which gives the blacklist absolute precedence; and
  contrary to that document nothing is listed by default: without \<open>blacklist-action\<close> the filters
  alone decide, also on \<open>eosio:onblock\<close>.
\<close>

theorem configured_traces:
  assumes "plugin_initialize E raw version L options (s, m) = Return () (t, m')"
    and "\<not> given options ''save-snapshot''" and "\<not> given options ''restore-snapshot''"
    and "filter_part (members_config m) = (b1, {}, b2, {}, False, False, Map.empty, b3, {}, False, {})"
    and "list_all known_action (tt_action_traces trace)"
  shows "filter_trace (members_config m') trace = Inr
     (documented (option_listed L options) (option_passes L options) (filtering options) (tt_action_traces trace)
      \<or> overtaken (option_listed L options) (option_passes L options) (tt_action_traces trace))
    \<and> (\<not> given options ''blacklist-action'' \<longrightarrow> filter_trace (members_config m') trace = Inr
     (filtering options \<longrightarrow> (\<exists>a \<in> set (tt_action_traces trace). option_passes L options a)))"
proof -
  let ?c = "members_config m'"
  have c: "configured L options ?c" by (rule initialized_as_configured [OF assms(1-4)])
  then have same: "black ?c = option_listed L options" "passes_filter ?c = option_passes L options"
    by (auto simp: configured_def black_def option_listed_def passes_filter_def option_passes_def option_names_def)
  have filtering: "do_trace_filter ?c \<longleftrightarrow> filtering options"
    using c by (auto simp: configured_def filters_consistent_def filtering_def)
  have "filters_consistent ?c" using c by (simp add: configured_def)
  then have "filter_trace ?c trace = Inr (exported ?c trace)"
    using filter_trace_wanted [OF _ assms(5)] by (simp add: wanted_exported)
  then have runs: "filter_trace ?c trace = Inr
     (documented (option_listed L options) (option_passes L options) (filtering options) (tt_action_traces trace)
      \<or> overtaken (option_listed L options) (option_passes L options) (tt_action_traces trace))"
    by (simp add: exported_def same filtering)
  moreover have "option_listed L options = (\<lambda>_. False)" if "\<not> given options ''blacklist-action''"
    using that by (auto simp: option_listed_def entries_of_def as_defs given_def)
  ultimately show ?thesis by (auto simp: documented_def overtaken_def)
qed

definition onblock_trace :: ship_trace where
  "onblock_trace = \<lparr>tt_id = 0, tt_action_traces =
     [Action_trace_v0 1 \<lparr>act_account = 3, act_name = 4, act_authorization = [], act_data = []\<rparr>]\<rparr>"

theorem configured_traces_witness:
  "filter_trace (members_config (snd (start_result ''scan''))) onblock_trace = Inr False"
proof -
  obtain t m' where r: "start_result ''scan'' = (t, m')" by fastforce
  have f: "filter_part (members_config junk_members) = (False, {}, False, {}, False, False, Map.empty, False, {}, False, {})"
    by (simp add: filter_part_def junk_members_def default_config_def)
  have k: "list_all known_action (tt_action_traces onblock_trace)" by (simp add: onblock_trace_def)
  have "entries_of start_lib (start_options ''scan'') = {(3, 4)}"
    by (auto simp: entries_of_def as_defs start_options_def start_lib_def blacklist_entry_def)
  then show ?thesis
    using configured_traces [OF start_returns [of "''scan''", unfolded r] normal_start f k] r
    by (simp add: option_listed_def onblock_trace_def documented_def overtaken_def)
qed

end
